(* ===== verification/State_Machine.thy ===== *)
theory State_Machine
  imports Prelude
begin

text \<open>
  The contract every stateful component of the framework is verified against: a step function
  driven by events, an admissibility condition on events and an invariant each admissible step
  keeps.  What holds of one step holds of every run; the components interpret the locale with
  their own step functions.
\<close>

locale state_machine =
  fixes step :: "'e \<Rightarrow> 's \<Rightarrow> 's"
    and admissible :: "'e \<Rightarrow> bool"
    and inv :: "'s \<Rightarrow> bool"
  assumes step_inv: "inv s \<Longrightarrow> admissible e \<Longrightarrow> inv (step e s)"
begin

lemma run_inv: "inv s \<Longrightarrow> list_all admissible es \<Longrightarrow> inv (fold step es s)"
  by (induction es arbitrary: s) (auto intro: step_inv)

lemma run_inv_prefix:
  assumes "inv s" "list_all admissible (es @ fs)"
  shows "inv (fold step es s)"
  using assms by (intro run_inv) auto

end

text \<open>A machine whose observable output only ever grows: what was emitted stays emitted.\<close>

locale log_machine = state_machine step admissible inv
  for step :: "'e \<Rightarrow> 's \<Rightarrow> 's" and admissible :: "'e \<Rightarrow> bool" and inv :: "'s \<Rightarrow> bool" +
  fixes log :: "'s \<Rightarrow> 'o list"
  assumes step_log: "\<exists>new. log (step e s) = log s @ new"
begin

lemma run_log: "\<exists>new. log (fold step es s) = log s @ new"
proof (induction es arbitrary: s)
  case Nil
  then show ?case by simp
next
  case (Cons e es)
  obtain a where a: "log (step e s) = log s @ a" using step_log by blast
  obtain b where "log (fold step es (step e s)) = log (step e s) @ b" using Cons by blast
  with a show ?case by simp
qed

lemma run_log_prefix: "i < length (log s) \<Longrightarrow> log (fold step es s) ! i = log s ! i"
  using run_log [of es s] by (auto simp: nth_append)

end

end
