(* ===== verification/Ledger_Types.thy ===== *)
theory Ledger_Types
  imports Prelude
begin

text \<open>
  Values of the node's own crates that the framework stores and passes on: headers, notes, unspent
  outputs, transactions and blocks.  The crates are not part of the repository; the framework
  only builds, compares and projects these values, so keys, hashes and signatures are opaque
  numbers and the functions that compute them are arguments of the definitions that call them.
\<close>

type_synonym header_id = "u8 list"
type_synonym tx_hash = nat
type_synonym zk_key = nat
type_synonym zk_pk = nat
type_synonym ed_key = nat
type_synonym ed_pk = nat
type_synonym note_id = nat

record ledger_note =
  note_value :: nat
  note_pk :: zk_pk

record utxo =
  utxo_tx_hash :: tx_hash
  utxo_output_index :: nat
  utxo_note :: ledger_note

record ledger_tx =
  ltx_inputs :: "note_id list"
  ltx_outputs :: "ledger_note list"

text \<open>
  A multiaddress is the list of its protocol components, of which the framework pushes and
  matches the ones named here.
\<close>

datatype protocol =
  Ip4 "u8 list"
| Tcp u16
| Udp u16
| QuicV1
| P2p nat
| OtherProtocol string

type_synonym multiaddr = "protocol list"

record block_tx =
  btx_ledger :: ledger_tx
  btx_ops :: "nat list"

record block =
  blk_parent :: header_id
  blk_transactions :: "block_tx list"

end
