(* ===== verification/Block_Feed.thy ===== *)
theory Block_Feed
  imports State_Machine Ledger_Types
begin

text \<open>
  The block feed of \<^verbatim>\<open>core/src/scenario/runtime/block_feed.rs\<close>: a background scanner that asks a
  node for its tip, walks the parent links back to the last header it has seen and broadcasts the
  new blocks oldest first, while counting their transactions.

  The node is outside the repository.  One poll of the scanner is given by the node's answers to
  that poll: the answer of \<^verbatim>\<open>consensus_info\<close> and, for each header, the answer of
  \<^verbatim>\<open>storage_block\<close>.  The vector \<^verbatim>\<open>stack\<close> is a list whose head is the top.
\<close>

section \<open>State\<close>

record block_record =
  rec_header :: header_id
  rec_block :: block

record block_stats =
  total_transactions :: u64

record block_feed =
  feed_sent :: "block_record list"
  feed_stats :: block_stats

record block_scanner =
  scan_feed :: block_feed
  scan_seen :: "header_id set"

record consensus_info =
  ci_tip :: header_id
  ci_height :: nat

datatype scan_error = ApiError string | MissingBlock

type_synonym storage = "header_id \<Rightarrow> string + block option"

section \<open>Operations\<close>

definition record_block :: "block \<Rightarrow> block_stats \<Rightarrow> block_stats" where
  "record_block b st =
     st\<lparr>total_transactions := total_transactions st + of_nat (length (blk_transactions b))\<rparr>"

definition ingest :: "header_id \<Rightarrow> block \<Rightarrow> block_feed \<Rightarrow> block_feed" where
  "ingest h b f =
     f\<lparr>feed_stats := record_block b (feed_stats f),
       feed_sent := feed_sent f @ [\<lparr>rec_header = h, rec_block = b\<rparr>]\<rparr>"

definition new_feed :: block_feed where
  "new_feed = \<lparr>feed_sent = [], feed_stats = \<lparr>total_transactions = 0\<rparr>\<rparr>"

definition new_scanner :: "block_feed \<Rightarrow> block_scanner" where
  "new_scanner f = \<lparr>scan_feed = f, scan_seen = {}\<rparr>"

text \<open>The \<^verbatim>\<open>loop\<close> of \<^verbatim>\<open>catch_up\<close>: the seen set it leaves and the stack of fetched blocks.\<close>

fun walk_back ::
  "storage \<Rightarrow> header_id set \<Rightarrow> nat \<Rightarrow> header_id \<Rightarrow> (header_id \<times> block) list \<Rightarrow>
   scan_error + header_id set \<times> (header_id \<times> block) list" where
  "walk_back fetch seen remaining_height cursor stack =
     (if cursor \<in> seen then Ok (seen, stack)
      else if remaining_height = 0 then Ok (insert cursor seen, stack)
      else case fetch cursor of
        Inl e \<Rightarrow> Err (ApiError e)
      | Inr None \<Rightarrow> Err MissingBlock
      | Inr (Some b) \<Rightarrow>
          (let parent = blk_parent b; stack' = (cursor, b) # stack
           in if parent \<in> seen \<or> parent = cursor then Ok (seen, stack')
              else walk_back fetch seen (remaining_height - 1) parent stack'))"

declare walk_back.simps [simp del]

text \<open>The \<^verbatim>\<open>while let Some(..) = stack.pop()\<close> of \<^verbatim>\<open>catch_up\<close>, with the number of blocks processed.\<close>

fun process_stack ::
  "(header_id \<times> block) list \<Rightarrow> nat \<Rightarrow> block_scanner \<Rightarrow> block_scanner \<times> nat" where
  "process_stack [] processed sc = (sc, processed)"
| "process_stack ((h, b) # stack) processed sc =
     process_stack stack (processed + 1)
       (sc\<lparr>scan_feed := ingest h b (scan_feed sc), scan_seen := insert h (scan_seen sc)\<rparr>)"

definition catch_up ::
  "string + consensus_info \<Rightarrow> storage \<Rightarrow> block_scanner \<Rightarrow> block_scanner \<times> (scan_error + nat)" where
  "catch_up info fetch sc =
     (case info of
        Inl e \<Rightarrow> (sc, Err (ApiError e))
      | Inr i \<Rightarrow>
          (case walk_back fetch (scan_seen sc) (ci_height i) (ci_tip i) [] of
             Inl e \<Rightarrow> (sc, Err e)
           | Inr (seen, stack) \<Rightarrow>
               (let (sc', processed) = process_stack stack 0 (sc\<lparr>scan_seen := seen\<rparr>)
                in (sc', Ok processed))))"

text \<open>One turn of \<^verbatim>\<open>run\<close>: a failed catch-up is logged and polling goes on.\<close>

type_synonym poll = "(string + consensus_info) \<times> storage"

definition run_poll :: "poll \<Rightarrow> block_scanner \<Rightarrow> block_scanner" where
  "run_poll p sc = fst (catch_up (fst p) (snd p) sc)"

text \<open>\<^verbatim>\<open>spawn_block_feed\<close>: the first catch-up has to succeed before the task is spawned.\<close>

definition spawn_block_feed :: "poll \<Rightarrow> scan_error + block_scanner" where
  "spawn_block_feed p =
     (case catch_up (fst p) (snd p) (new_scanner new_feed) of
        (_, Inl e) \<Rightarrow> Err e
      | (sc, Inr _) \<Rightarrow> Ok sc)"

definition sent_headers :: "block_scanner \<Rightarrow> header_id list" where
  "sent_headers sc = map rec_header (feed_sent (scan_feed sc))"

section \<open>The walk over parent links\<close>

text \<open>
  The documented shape of the node's storage: following parent links goes down (a block may name
  itself as parent).  \<open>rank\<close> is any measure of depth, for instance the height of a block.
\<close>

definition parents_descend :: "(header_id \<Rightarrow> nat) \<Rightarrow> storage \<Rightarrow> bool" where
  "parents_descend rank fetch \<longleftrightarrow>
     (\<forall>h b. fetch h = Inr (Some b) \<longrightarrow> blk_parent b = h \<or> rank (blk_parent b) < rank h)"

text \<open>Oldest first, every block's parent is known by the time the block is processed.\<close>

fun parent_known :: "header_id set \<Rightarrow> (header_id \<times> block) list \<Rightarrow> bool" where
  "parent_known S [] = True"
| "parent_known S ((h, b) # xs) =
     ((blk_parent b \<in> S \<or> blk_parent b = h) \<and> parent_known (insert h S) xs)"

lemma parent_known_snoc:
  "parent_known S (xs @ [(h, b)]) \<longleftrightarrow>
     parent_known S xs \<and> (blk_parent b \<in> S \<union> fst ` set xs \<or> blk_parent b = h)"
proof (induction xs arbitrary: S)
  case (Cons x xs)
  then show ?case by (cases x) (auto simp: image_iff)
qed simp

text \<open>What a successful walk returns, relative to the stack it started with.\<close>

definition walk_result ::
  "(header_id \<Rightarrow> nat) \<Rightarrow> header_id set \<Rightarrow> nat \<Rightarrow> header_id \<Rightarrow> header_id set \<Rightarrow>
   (header_id \<times> block) list \<Rightarrow> bool" where
  "walk_result rank seen r cursor seen' new \<longleftrightarrow>
     length new \<le> r \<and> seen \<subseteq> seen' \<and> parent_known seen' new \<and> distinct (map fst new) \<and>
     seen' \<inter> fst ` set new = {} \<and> cursor \<in> seen' \<union> fst ` set new \<and>
     (\<forall>h \<in> (seen' - seen) \<union> fst ` set new. rank h \<le> rank cursor)"

lemma walk_result_extend:
  assumes "walk_result rank seen r (blk_parent b) seen' new" "0 < r'" "r = r' - 1"
    and "cursor \<notin> seen" "rank (blk_parent b) < rank cursor"
  shows "walk_result rank seen r' cursor seen' (new @ [(cursor, b)])"
proof -
  from assms(1) have r: "length new \<le> r" "seen \<subseteq> seen'" "parent_known seen' new"
    "distinct (map fst new)" "seen' \<inter> fst ` set new = {}"
    "blk_parent b \<in> seen' \<union> fst ` set new"
    "\<And>h. h \<in> (seen' - seen) \<union> fst ` set new \<Longrightarrow> rank h \<le> rank (blk_parent b)"
    by (auto simp: walk_result_def)
  have fresh: "cursor \<notin> fst ` set new" "cursor \<notin> seen'"
    using r(7) [of cursor] assms(4,5) by auto
  have "length (new @ [(cursor, b)]) \<le> r'" using r(1) assms(2,3) by simp
  moreover have "parent_known seen' (new @ [(cursor, b)])" using r(3,6) by (simp add: parent_known_snoc)
  moreover have "distinct (map fst (new @ [(cursor, b)]))" using r(4) fresh(1) by simp
  moreover have "seen' \<inter> fst ` set (new @ [(cursor, b)]) = {}" using r(5) fresh(2) by auto
  moreover have "rank h \<le> rank cursor" if "h \<in> (seen' - seen) \<union> fst ` set (new @ [(cursor, b)])" for h
  proof -
    from that consider "h = cursor" | "h \<in> (seen' - seen) \<union> fst ` set new" by auto
    then show ?thesis
    proof cases
      case 2
      from r(7) [OF this] assms(5) show ?thesis by simp
    qed simp
  qed
  ultimately show ?thesis using r(2) by (simp add: walk_result_def)
qed

lemma walk_back_result:
  assumes "parents_descend rank fetch"
    and "walk_back fetch seen r cursor stack = Inr (seen', stack')"
  shows "\<exists>new. stack' = new @ stack \<and> walk_result rank seen r cursor seen' new \<and>
           (\<forall>(h, b) \<in> set new. fetch h = Inr (Some b))"
  using assms
proof (induction fetch seen r cursor stack rule: walk_back.induct)
  case (1 fetch seen r cursor stack)
  note step = "1.prems"(2) [unfolded walk_back.simps [of fetch seen r cursor stack]]
  show ?case
  proof (cases "cursor \<in> seen \<or> r = 0")
    case True
    with step show ?thesis by (auto simp: walk_result_def split: if_splits)
  next
    case False
    with step obtain b where b: "fetch cursor = Inr (Some b)"
      by (auto split: sum.splits option.splits)
    show ?thesis
    proof (cases "blk_parent b \<in> seen \<or> blk_parent b = cursor")
      case True
      with step b False show ?thesis
        by (auto simp: walk_result_def Let_def intro!: exI [of _ "[(cursor, b)]"])
    next
      case up: False
      with step b False
      have rec: "walk_back fetch seen (r - 1) (blk_parent b) ((cursor, b) # stack) = Inr (seen', stack')"
        by (auto simp: Let_def)
      have "rank (blk_parent b) < rank cursor"
        using "1.prems"(1) b up by (auto simp: parents_descend_def)
      moreover obtain new where new: "stack' = new @ (cursor, b) # stack"
        "walk_result rank seen (r - 1) (blk_parent b) seen' new"
        "\<forall>(h, b) \<in> set new. fetch h = Inr (Some b)"
        using "1.IH" [OF _ _ b refl refl refl up "1.prems"(1) rec] False by auto
      ultimately have "walk_result rank seen r cursor seen' (new @ [(cursor, b)])"
        using False by (intro walk_result_extend) auto
      then show ?thesis using new(1,3) b by (auto intro!: exI [of _ "new @ [(cursor, b)]"])
    qed
  qed
qed

section \<open>Processing the stack\<close>

definition block_record_of :: "header_id \<times> block \<Rightarrow> block_record" where
  "block_record_of hb = \<lparr>rec_header = fst hb, rec_block = snd hb\<rparr>"

lemma block_record_of_simps [simp]:
  "rec_header (block_record_of hb) = fst hb" "rec_block (block_record_of hb) = snd hb"
  by (simp_all add: block_record_of_def)

definition tx_count :: "block_record list \<Rightarrow> nat" where
  "tx_count rs = (\<Sum>r\<leftarrow>rs. length (blk_transactions (rec_block r)))"

lemma process_stack_result:
  assumes "process_stack stack n sc = (sc', n')"
  shows "n' = n + length stack"
    and "scan_seen sc' = scan_seen sc \<union> fst ` set stack"
    and "feed_sent (scan_feed sc') = feed_sent (scan_feed sc) @ map block_record_of stack"
    and "total_transactions (feed_stats (scan_feed sc')) =
           total_transactions (feed_stats (scan_feed sc)) + of_nat (tx_count (map block_record_of stack))"
  using assms
  by (induction stack n sc rule: process_stack.induct)
    (auto simp: ingest_def record_block_def block_record_of_def tx_count_def)

section \<open>The invariant of the feed\<close>

text \<open>No broadcast block is the parent of one broadcast before it.\<close>

fun parents_first :: "block_record list \<Rightarrow> bool" where
  "parents_first [] = True"
| "parents_first (r # rs) =
     ((\<forall>q \<in> set rs. rec_header q \<noteq> blk_parent (rec_block r)) \<and> parents_first rs)"

lemma parents_first_append:
  "parents_first (xs @ ys) \<longleftrightarrow> parents_first xs \<and> parents_first ys \<and>
     (\<forall>r \<in> set xs. \<forall>q \<in> set ys. rec_header q \<noteq> blk_parent (rec_block r))"
  by (induction xs) auto

lemma parents_first_known:
  "parent_known S xs \<Longrightarrow> distinct (map fst xs) \<Longrightarrow> S \<inter> fst ` set xs = {} \<Longrightarrow>
     parents_first (map block_record_of xs)"
proof (induction xs arbitrary: S)
  case (Cons x xs)
  obtain h b where x: "x = (h, b)" by (cases x)
  have "parents_first (map block_record_of xs)"
    using Cons.prems by (intro Cons.IH [of "insert h S"]) (auto simp: x)
  moreover have "blk_parent b \<notin> fst ` set xs"
    using Cons.prems by (auto simp: x image_iff)
  ultimately show ?case by (auto simp: x image_iff)
qed simp

definition feed_inv :: "block_scanner \<Rightarrow> bool" where
  "feed_inv sc \<longleftrightarrow>
     (let sent = feed_sent (scan_feed sc)
      in distinct (map rec_header sent) \<and> rec_header ` set sent \<subseteq> scan_seen sc \<and>
         (\<forall>r \<in> set sent. blk_parent (rec_block r) \<in> scan_seen sc) \<and> parents_first sent \<and>
         total_transactions (feed_stats (scan_feed sc)) = of_nat (tx_count sent))"

lemma parent_known_closed:
  "parent_known S xs \<Longrightarrow> (h, b) \<in> set xs \<Longrightarrow> blk_parent b \<in> S \<union> fst ` set xs"
  by (induction S xs rule: parent_known.induct) auto

text \<open>The state a successful catch-up leaves, in terms of the walk.\<close>

lemma catch_up_Ok:
  assumes "parents_descend rank fetch" and "catch_up info fetch sc = (sc', Inr n)"
  obtains i seen' new where "info = Inr i"
    and "walk_result rank (scan_seen sc) (ci_height i) (ci_tip i) seen' new"
    and "\<forall>(h, b) \<in> set new. fetch h = Inr (Some b)"
    and "n = length new" and "scan_seen sc' = seen' \<union> fst ` set new"
    and "feed_sent (scan_feed sc') = feed_sent (scan_feed sc) @ map block_record_of new"
    and "total_transactions (feed_stats (scan_feed sc')) =
           total_transactions (feed_stats (scan_feed sc)) + of_nat (tx_count (map block_record_of new))"
proof -
  from assms(2) obtain i seen' stack where i: "info = Inr i"
    and w: "walk_back fetch (scan_seen sc) (ci_height i) (ci_tip i) [] = Inr (seen', stack)"
    and p: "process_stack stack 0 (sc\<lparr>scan_seen := seen'\<rparr>) = (sc', n)"
    by (auto simp: catch_up_def Let_def split: sum.splits prod.splits)
  from walk_back_result [OF assms(1) w]
  have new: "walk_result rank (scan_seen sc) (ci_height i) (ci_tip i) seen' stack"
    "\<forall>(h, b) \<in> set stack. fetch h = Inr (Some b)" by auto
  from process_stack_result [OF p] show thesis
    by (intro that [OF i new]) auto
qed

lemma catch_up_Err: "catch_up info fetch sc = (sc', Inl e) \<Longrightarrow> sc' = sc"
  by (auto simp: catch_up_def Let_def split: sum.splits prod.splits)

lemma feed_inv_new [simp]: "feed_inv (new_scanner new_feed)"
  by (simp add: feed_inv_def new_scanner_def new_feed_def tx_count_def)

lemma catch_up_inv:
  assumes "parents_descend rank fetch" "feed_inv sc" "catch_up info fetch sc = (sc', r)"
  shows "feed_inv sc'"
proof (cases r)
  case (Inl e)
  with assms catch_up_Err show ?thesis by metis
next
  case (Inr n)
  with assms(3) have ok: "catch_up info fetch sc = (sc', Inr n)" by simp
  show ?thesis
  proof (rule catch_up_Ok [OF assms(1) ok])
    fix i seen' new
    assume w: "walk_result rank (scan_seen sc) (ci_height i) (ci_tip i) seen' new"
      and seen: "scan_seen sc' = seen' \<union> fst ` set new"
      and sent: "feed_sent (scan_feed sc') = feed_sent (scan_feed sc) @ map block_record_of new"
      and total: "total_transactions (feed_stats (scan_feed sc')) =
        total_transactions (feed_stats (scan_feed sc)) + of_nat (tx_count (map block_record_of new))"
    from w have w': "scan_seen sc \<subseteq> seen'" "parent_known seen' new" "distinct (map fst new)"
      "seen' \<inter> fst ` set new = {}" by (auto simp: walk_result_def)
    have old: "distinct (map rec_header (feed_sent (scan_feed sc)))"
      "rec_header ` set (feed_sent (scan_feed sc)) \<subseteq> scan_seen sc"
      "\<And>r. r \<in> set (feed_sent (scan_feed sc)) \<Longrightarrow> blk_parent (rec_block r) \<in> scan_seen sc"
      "parents_first (feed_sent (scan_feed sc))"
      using assms(2) by (auto simp: feed_inv_def Let_def)
    have a: "distinct (map rec_header (feed_sent (scan_feed sc')))"
      using old(1,2) w' by (force simp: sent comp_def)
    have b: "rec_header ` set (feed_sent (scan_feed sc')) \<subseteq> scan_seen sc'"
      using old(2) w'(1) by (force simp: sent seen)
    have c: "blk_parent (rec_block r) \<in> scan_seen sc'"
      if r: "r \<in> set (feed_sent (scan_feed sc'))" for r
    proof (cases "r \<in> set (feed_sent (scan_feed sc))")
      case True
      with old(3) w'(1) show ?thesis by (auto simp: seen)
    next
      case False
      with r obtain h b where "(h, b) \<in> set new" "r = block_record_of (h, b)" by (auto simp: sent)
      with parent_known_closed [OF w'(2)] show ?thesis by (auto simp: seen)
    qed
    have "rec_header q \<noteq> blk_parent (rec_block r)"
      if "r \<in> set (feed_sent (scan_feed sc))" "q \<in> set (map block_record_of new)" for r q
    proof -
      have "rec_header q \<in> fst ` set new" using that(2) by force
      moreover have "blk_parent (rec_block r) \<in> seen'" using old(3) [OF that(1)] w'(1) by auto
      ultimately show ?thesis using w'(4) by (metis disjoint_iff)
    qed
    then have d: "parents_first (feed_sent (scan_feed sc'))"
      using old(4) parents_first_known [OF w'(2,3,4)] by (simp add: sent parents_first_append)
    have e: "total_transactions (feed_stats (scan_feed sc')) = of_nat (tx_count (feed_sent (scan_feed sc')))"
      using assms(2) by (simp add: total sent feed_inv_def Let_def tx_count_def)
    from a b c d e show ?thesis by (simp add: feed_inv_def Let_def)
  qed
qed

interpretation feed: log_machine run_poll "\<lambda>p. \<exists>rank. parents_descend rank (snd p)" feed_inv
  "\<lambda>sc. feed_sent (scan_feed sc)"
proof
  fix sc and p :: poll
  assume "feed_inv sc" "\<exists>rank. parents_descend rank (snd p)"
  then show "feed_inv (run_poll p sc)"
    unfolding run_poll_def using catch_up_inv by (metis prod.collapse)
next
  fix p :: poll and sc
  show "\<exists>new. feed_sent (scan_feed (run_poll p sc)) = feed_sent (scan_feed sc) @ new"
    using process_stack_result(3)
    by (fastforce simp: run_poll_def catch_up_def Let_def split: sum.splits prod.splits)
qed

lemma spawn_block_feed_inv:
  assumes "spawn_block_feed p = Inr sc" "\<exists>rank. parents_descend rank (snd p)"
  shows "feed_inv sc"
  using assms catch_up_inv [OF _ feed_inv_new] unfolding spawn_block_feed_def
  by (auto split: prod.splits sum.splits)

section \<open>Delivery of a linear chain\<close>

text \<open>A segment of the chain on top of \<open>g\<close>, oldest first.\<close>

fun linked :: "header_id \<Rightarrow> (header_id \<times> block) list \<Rightarrow> bool" where
  "linked g [] = True"
| "linked g ((h, b) # xs) = (blk_parent b = g \<and> linked h xs)"

definition tip_of :: "header_id \<Rightarrow> (header_id \<times> block) list \<Rightarrow> header_id" where
  "tip_of g xs = (if xs = [] then g else fst (last xs))"

lemma linked_snoc: "linked g (xs @ [(h, b)]) \<longleftrightarrow> linked g xs \<and> blk_parent b = tip_of g xs"
  by (induction xs arbitrary: g) (auto simp: tip_of_def)

lemma tip_of_in: "tip_of g xs \<in> insert g (fst ` set xs)"
  by (auto simp: tip_of_def)

lemma walk_back_linked:
  assumes "linked g new" "distinct (g # map fst new)" "seen \<inter> fst ` set new = {}"
    and "\<forall>(h, b) \<in> set new. fetch h = Inr (Some b)"
    and "length new \<le> r" "g \<in> seen \<or> r = length new"
  shows "walk_back fetch seen r (tip_of g new) stack = Inr (insert g seen, new @ stack)"
  using assms
proof (induction new arbitrary: r stack rule: rev_induct)
  case Nil
  then show ?case by (auto simp: tip_of_def walk_back.simps insert_absorb)
next
  case (snoc x xs)
  obtain h b where x: "x = (h, b)" by (cases x)
  have h: "h \<notin> seen" "0 < r" "fetch h = Inr (Some b)" "blk_parent b = tip_of g xs"
    "tip_of g xs \<noteq> h"
    using snoc.prems tip_of_in [of g xs] by (auto simp: x linked_snoc)
  have tip: "tip_of g (xs @ [x]) = h" by (simp add: tip_of_def x)
  show ?case
  proof (cases "tip_of g xs \<in> seen")
    case True
    then have "xs = []" using snoc.prems(3) by (auto simp: tip_of_def split: if_splits)
    with True h tip x show ?thesis
      by (simp add: walk_back.simps [of fetch seen r] tip_of_def insert_absorb)
  next
    case False
    then have "walk_back fetch seen (r - 1) (tip_of g xs) ((h, b) # stack) =
        Inr (insert g seen, xs @ (h, b) # stack)"
      using snoc.prems h(2) by (intro snoc.IH) (auto simp: x linked_snoc)
    with False h tip x show ?thesis
      by (simp add: walk_back.simps [of fetch seen r h])
  qed
qed

section \<open>Properties\<close>

text \<open>
  Property C1.  Whatever sequence of polls follows a successfully spawned feed, and whatever the
  node answers, no header is ever broadcast twice and no block is broadcast before its parent is:
  a parent never appears after its child.  The one fact used about the node is that parent links
  of a stored block lead down.
\<close>

theorem block_feed_exactly_once:
  assumes "spawn_block_feed p = Ok sc"
    and "\<forall>q \<in> set (p # ps). \<exists>rank. parents_descend rank (snd q)"
  shows "distinct (sent_headers (fold run_poll ps sc)) \<and>
    parents_first (feed_sent (scan_feed (fold run_poll ps sc)))"
proof -
  have "feed_inv sc" using assms by (intro spawn_block_feed_inv) auto
  then have "feed_inv (fold run_poll ps sc)"
    using assms(2) by (intro feed.run_inv) (auto simp: list_all_iff)
  then show ?thesis by (simp add: feed_inv_def sent_headers_def Let_def)
qed

text \<open>A chain of three blocks on top of a genesis header, served by a node at two heights.\<close>

definition demo_block :: "u8 \<Rightarrow> nat \<Rightarrow> block" where
  "demo_block parent n =
     \<lparr>blk_parent = [parent],
      blk_transactions = replicate n \<lparr>btx_ledger = \<lparr>ltx_inputs = [], ltx_outputs = []\<rparr>, btx_ops = []\<rparr>\<rparr>"

definition demo_storage :: storage where
  "demo_storage h =
     (if h = [1] then Inr (Some (demo_block 0 2))
      else if h = [2] then Inr (Some (demo_block 1 0))
      else if h = [3] then Inr (Some (demo_block 2 3))
      else Inr None)"

definition demo_poll :: "u8 \<Rightarrow> nat \<Rightarrow> poll" where
  "demo_poll tip height = (Inr \<lparr>ci_tip = [tip], ci_height = height\<rparr>, demo_storage)"

lemmas demo_defs = demo_block_def demo_storage_def demo_poll_def
lemmas feed_run_defs = spawn_block_feed_def catch_up_def run_poll_def new_scanner_def new_feed_def
  ingest_def record_block_def sent_headers_def walk_back.simps Let_def

lemma demo_descends: "parents_descend (\<lambda>h. unat (hd h)) (snd (demo_poll tip height))"
  by (auto simp: parents_descend_def demo_defs)

lemma demo_spawn:
  "\<exists>sc. spawn_block_feed (demo_poll 2 2) = Inr sc \<and>
     sent_headers (fold run_poll [demo_poll 3 3, demo_poll 3 3] sc) = [[1], [2], [3]]"
  by (simp add: feed_run_defs demo_defs)

theorem block_feed_exactly_once_witness:
  "\<exists>sc. spawn_block_feed (demo_poll 2 2) = Ok sc \<and>
     sent_headers (fold run_poll [demo_poll 3 3, demo_poll 3 3] sc) = [[1], [2], [3]] \<and>
     parents_first (feed_sent (scan_feed (fold run_poll [demo_poll 3 3, demo_poll 3 3] sc)))"
  using demo_spawn demo_descends
    block_feed_exactly_once [of "demo_poll 2 2" _ "[demo_poll 3 3, demo_poll 3 3]"]
  by fastforce

text \<open>
  Property C23.  A poll whose tip closes a linear segment of the chain delivers that segment
  completely: if the segment starts above a header the scanner has seen, or is exactly as long as
  the reported height (the first poll, where the header below is the genesis), then catching up
  succeeds, broadcasts exactly the blocks of the segment, oldest first, and marks all of them and
  the header below as seen.
\<close>

theorem catch_up_delivers_segment:
  assumes "linked g new" "distinct (g # map fst new)" "scan_seen sc \<inter> fst ` set new = {}"
    and "\<forall>(h, b) \<in> set new. fetch h = Ok (Some b)"
    and "length new \<le> height" "g \<in> scan_seen sc \<or> height = length new"
  shows "\<exists>sc'. catch_up (Ok \<lparr>ci_tip = tip_of g new, ci_height = height\<rparr>) fetch sc = (sc', Ok (length new)) \<and>
    feed_sent (scan_feed sc') = feed_sent (scan_feed sc) @ map block_record_of new \<and>
    scan_seen sc' = insert g (scan_seen sc \<union> fst ` set new)"
proof -
  obtain sc' n where p: "process_stack new 0 (sc\<lparr>scan_seen := insert g (scan_seen sc)\<rparr>) = (sc', n)"
    by (cases "process_stack new 0 (sc\<lparr>scan_seen := insert g (scan_seen sc)\<rparr>)")
  from walk_back_linked [OF assms, of "[]"] p
  have "catch_up (Inr \<lparr>ci_tip = tip_of g new, ci_height = height\<rparr>) fetch sc = (sc', Inr n)"
    by (simp add: catch_up_def)
  with process_stack_result [OF p] show ?thesis by auto
qed

theorem catch_up_delivers_segment_witness:
  "\<exists>sc'. catch_up (Ok \<lparr>ci_tip = [2], ci_height = 2\<rparr>) demo_storage (new_scanner new_feed) = (sc', Ok 2) \<and>
     sent_headers sc' = [[1], [2]] \<and> scan_seen sc' = {[0], [1], [2]}"
  using catch_up_delivers_segment
    [of "[0]" "[([1], demo_block 0 2), ([2], demo_block 1 0)]" "new_scanner new_feed" demo_storage 2]
  by (auto simp: tip_of_def new_scanner_def new_feed_def sent_headers_def demo_defs)

text \<open>
  A poll is all or nothing: when the node fails to answer or a block is missing the
  scanner is unchanged, and when it succeeds the feed has grown by exactly the number of blocks the
  poll reports, at most the reported height, the tip is marked as seen, and the transaction
  counter has advanced by the transactions of those blocks (as a 64-bit counter).
\<close>

theorem catch_up_all_or_nothing:
  assumes "parents_descend rank fetch" and "catch_up info fetch sc = (sc', r)"
  shows "case r of
      Inl e \<Rightarrow> sc' = sc
    | Inr n \<Rightarrow> \<exists>i new. info = Inr i \<and> n = length new \<and> n \<le> ci_height i \<and> ci_tip i \<in> scan_seen sc' \<and>
        feed_sent (scan_feed sc') = feed_sent (scan_feed sc) @ new \<and>
        total_transactions (feed_stats (scan_feed sc')) =
          total_transactions (feed_stats (scan_feed sc)) + of_nat (tx_count new)"
proof (cases r)
  case (Inl e)
  with assms(2) catch_up_Err show ?thesis by auto
next
  case (Inr n)
  with assms(2) have ok: "catch_up info fetch sc = (sc', Inr n)" by simp
  show ?thesis
  proof (rule catch_up_Ok [OF assms(1) ok])
    fix i seen' new
    assume "info = Inr i" "walk_result rank (scan_seen sc) (ci_height i) (ci_tip i) seen' new"
      "n = length new" "scan_seen sc' = seen' \<union> fst ` set new"
      "feed_sent (scan_feed sc') = feed_sent (scan_feed sc) @ map block_record_of new"
      "total_transactions (feed_stats (scan_feed sc')) =
         total_transactions (feed_stats (scan_feed sc)) + of_nat (tx_count (map block_record_of new))"
    then show ?thesis
      by (auto simp: Inr walk_result_def intro!: exI [of _ "map block_record_of new"])
  qed
qed

theorem catch_up_all_or_nothing_witness:
  "\<exists>sc'. catch_up (fst (demo_poll 3 3)) (snd (demo_poll 3 3)) (new_scanner new_feed) = (sc', Ok 3) \<and>
     [3] \<in> scan_seen sc' \<and> total_transactions (feed_stats (scan_feed sc')) = 5"
proof -
  have "\<exists>sc'. catch_up (fst (demo_poll 3 3)) (snd (demo_poll 3 3)) (new_scanner new_feed) = (sc', Inr 3) \<and>
      total_transactions (feed_stats (scan_feed sc')) = 5"
    by (simp add: feed_run_defs demo_defs)
  then obtain sc' where c:
    "catch_up (fst (demo_poll 3 3)) (snd (demo_poll 3 3)) (new_scanner new_feed) = (sc', Inr 3)"
    "total_transactions (feed_stats (scan_feed sc')) = 5" by blast
  from catch_up_all_or_nothing [OF demo_descends c(1)] c show ?thesis
    by (auto simp: demo_poll_def)
qed

end
