(* ===== verification/Consensus_Liveness.thy ===== *)
theory Consensus_Liveness
  imports Ledger_Types
begin

text \<open>
  The consensus liveness expectation
  (\<^verbatim>\<open>workflows/src/expectations/consensus_liveness.rs\<close>): sampling every node with retries and
  judging the sampled heights.  Answers of the nodes are a function of client and attempt; the
  debug form of a header is the argument \<open>show_tip\<close>.  Scenarios run under the test profile,
  where unsigned overflow panics; together with \<^verbatim>\<open>u64::clamp\<close>, which panics when its bounds cross,
  this is why the verdict is an option.
\<close>

section \<open>Model\<close>

record consensus_liveness =
  cl_lag_allowance :: nat

definition lag_allowance_default :: nat where "lag_allowance_default = 2"
definition min_progress_blocks :: nat where "min_progress_blocks = 5"
definition request_retries :: nat where "request_retries = 15"
definition max_lag_allowance :: nat where "max_lag_allowance = 5"

definition consensus_liveness_default :: consensus_liveness where
  "consensus_liveness_default = \<lparr>cl_lag_allowance = lag_allowance_default\<rparr>"

definition with_lag_allowance :: "nat \<Rightarrow> consensus_liveness \<Rightarrow> consensus_liveness" where
  "with_lag_allowance n cl = cl\<lparr>cl_lag_allowance := n\<rparr>"

datatype liveness_issue =
  HeightBelowTarget string nat nat
| RequestFailed string string

record violation_issues =
  vi_issues :: "liveness_issue list"
  vi_message :: string

datatype liveness_error =
  MissingParticipants
| Violations nat violation_issues

record node_sample =
  ns_label :: string
  ns_height :: nat
  ns_tip :: header_id

record liveness_check =
  lk_samples :: "node_sample list"
  lk_issues :: "liveness_issue list"

type_synonym info_answer = "string + (nat \<times> header_id)"

fun fetch_with_retries :: "(nat \<Rightarrow> info_answer) \<Rightarrow> nat list \<Rightarrow> info_answer option" where
  "fetch_with_retries f [] = None"
| "fetch_with_retries f (attempt # rest) =
     (case f attempt of
        Inr s \<Rightarrow> Some (Inr s)
      | Inl e \<Rightarrow> if attempt + 1 = request_retries then Some (Inl e) else fetch_with_retries f rest)"

definition sample_client :: "(nat \<Rightarrow> nat \<Rightarrow> info_answer) \<Rightarrow> liveness_check \<Rightarrow> nat \<Rightarrow> liveness_check" where
  "sample_client fetch chk idx =
     (let node = ''node-'' @ show_nat idx in
      case fetch_with_retries (fetch idx) [0..<request_retries] of
        None \<Rightarrow> chk
      | Some (Inr (h, t)) \<Rightarrow>
          chk\<lparr>lk_samples := lk_samples chk @ [\<lparr>ns_label = node, ns_height = h, ns_tip = t\<rparr>]\<rparr>
      | Some (Inl e) \<Rightarrow> chk\<lparr>lk_issues := lk_issues chk @ [RequestFailed node e]\<rparr>)"

definition collect_liveness :: "(nat \<Rightarrow> nat \<Rightarrow> info_answer) \<Rightarrow> nat \<Rightarrow> liveness_check" where
  "collect_liveness fetch n_clients =
     foldl (sample_client fetch) \<lparr>lk_samples = [], lk_issues = []\<rparr> [0..<n_clients]"

text \<open>\<^verbatim>\<open>Ord::clamp\<close> asserts that its bounds are ordered.\<close>

definition u64_clamp :: "nat \<Rightarrow> nat \<Rightarrow> nat \<Rightarrow> nat option" where
  "u64_clamp x lo hi = (if hi < lo then None else Some (if x < lo then lo else if hi < x then hi else x))"

definition u64_add :: "nat \<Rightarrow> nat \<Rightarrow> nat option" where
  "u64_add a b = (if a + b \<le> u64_max then Some (a + b) else None)"

definition effective_lag_allowance :: "consensus_liveness \<Rightarrow> nat \<Rightarrow> nat option" where
  "effective_lag_allowance cl target = u64_clamp (target div 10) (cl_lag_allowance cl) max_lag_allowance"

fun issue_to_string :: "liveness_issue \<Rightarrow> string" where
  "issue_to_string (HeightBelowTarget node h t) =
     node @ '' height '' @ show_nat h @ '' below target '' @ show_nat t"
| "issue_to_string (RequestFailed node e) = node @ '' consensus_info failed: '' @ e"

definition violation_issues_new :: "liveness_issue list \<Rightarrow> string option \<Rightarrow> violation_issues" where
  "violation_issues_new issues max_height_nodes =
     (let nl = CHR 0x0A;
          head = (case max_height_nodes of None \<Rightarrow> [] | Some ns \<Rightarrow> ''max_height node(s): '' @ ns @ [nl]);
          body = concat (map (\<lambda>i. ''- '' @ issue_to_string i @ [nl]) issues);
          msg = head @ body
      in \<lparr>vi_issues = issues,
          vi_message = (if msg \<noteq> [] \<and> last msg = nl then butlast msg else msg)\<rparr>)"

definition render_sample :: "(header_id \<Rightarrow> string) \<Rightarrow> node_sample \<Rightarrow> string" where
  "render_sample show_tip s =
     ns_label s @ '' (height='' @ show_nat (ns_height s) @ '', tip='' @ show_tip (ns_tip s) @ '')''"

definition format_max_height_nodes :: "(header_id \<Rightarrow> string) \<Rightarrow> node_sample list \<Rightarrow> nat \<Rightarrow> string option" where
  "format_max_height_nodes show_tip samples max_height =
     (case filter (\<lambda>s. ns_height s = max_height) samples of
        [] \<Rightarrow> None
      | leaders \<Rightarrow> Some (join '', '' (map (render_sample show_tip) leaders)))"

fun push_lagging ::
  "nat \<Rightarrow> nat \<Rightarrow> node_sample list \<Rightarrow> liveness_issue list \<Rightarrow> liveness_issue list option" where
  "push_lagging lag target [] issues = Some issues"
| "push_lagging lag target (s # ss) issues =
     (case u64_add (ns_height s) lag of
        None \<Rightarrow> None
      | Some h \<Rightarrow>
          push_lagging lag target ss
            (if h < target then issues @ [HeightBelowTarget (ns_label s) (ns_height s) target] else issues))"

definition report ::
  "(header_id \<Rightarrow> string) \<Rightarrow> consensus_liveness \<Rightarrow> nat \<Rightarrow> liveness_check \<Rightarrow> (liveness_error + unit) option" where
  "report show_tip cl target_hint chk =
     (if lk_samples chk = [] then Some (Err MissingParticipants)
      else
        let max_height = Max (set (map ns_height (lk_samples chk)));
            leaders = format_max_height_nodes show_tip (lk_samples chk) max_height;
            target = (if target_hint = 0 \<or> max_height < target_hint then max_height else target_hint)
        in Option.bind (effective_lag_allowance cl target) (\<lambda>lag.
             let issues = (if max_height < min_progress_blocks
                           then lk_issues chk @ [HeightBelowTarget ''network'' max_height min_progress_blocks]
                           else lk_issues chk)
             in map_option (\<lambda>all.
                  if all = [] then Ok () else Err (Violations target (violation_issues_new all leaders)))
                (push_lagging lag target (lk_samples chk) issues)))"

definition evaluate_liveness ::
  "(header_id \<Rightarrow> string) \<Rightarrow> consensus_liveness \<Rightarrow> nat \<Rightarrow> nat \<Rightarrow> (nat \<Rightarrow> nat \<Rightarrow> info_answer) \<Rightarrow>
   (liveness_error + unit) option" where
  "evaluate_liveness show_tip cl expected_blocks n_clients fetch =
     (if n_clients = 0 then Some (Err MissingParticipants)
      else report show_tip cl expected_blocks (collect_liveness fetch n_clients))"

section \<open>Facts\<close>

definition answered :: "(nat \<Rightarrow> nat \<Rightarrow> info_answer) \<Rightarrow> nat \<Rightarrow> (nat \<times> header_id) option" where
  "answered fetch idx =
     (case filter (\<lambda>a. is_ok (fetch idx a)) [0..<request_retries] of
        [] \<Rightarrow> None
      | a # _ \<Rightarrow> (case fetch idx a of Inr s \<Rightarrow> Some s | Inl _ \<Rightarrow> None))"

lemma fetch_with_retries_from:
  assumes "k < request_retries"
  shows "fetch_with_retries f [k..<request_retries] =
    (case filter (\<lambda>a. is_ok (f a)) [k..<request_retries] of
       [] \<Rightarrow> Some (f (request_retries - 1)) | a # _ \<Rightarrow> Some (f a))"
  using assms
proof (induction "request_retries - k" arbitrary: k)
  case (Suc n)
  have up: "[k..<request_retries] = k # [Suc k..<request_retries]" using Suc.prems by (simp add: upt_conv_Cons)
  show ?case
  proof (cases "Suc k < request_retries")
    case True
    with Suc.hyps have "fetch_with_retries f [Suc k..<request_retries] =
      (case filter (\<lambda>a. is_ok (f a)) [Suc k..<request_retries] of
         [] \<Rightarrow> Some (f (request_retries - 1)) | a # _ \<Rightarrow> Some (f a))" by simp
    with True show ?thesis by (cases "f k") (auto simp: up)
  next
    case False
    then have "Suc k = request_retries" "request_retries - 1 = k" using Suc.prems by simp_all
    then show ?thesis by (cases "f k") (auto simp: up)
  qed
qed simp

lemma sample_client_cases:
  "sample_client fetch chk idx =
     (case answered fetch idx of
        Some (h, t) \<Rightarrow> chk\<lparr>lk_samples := lk_samples chk @ [\<lparr>ns_label = ''node-'' @ show_nat idx, ns_height = h, ns_tip = t\<rparr>]\<rparr>
      | None \<Rightarrow> (case fetch idx (request_retries - 1) of
           Inl e \<Rightarrow> chk\<lparr>lk_issues := lk_issues chk @ [RequestFailed (''node-'' @ show_nat idx) e]\<rparr>
         | Inr _ \<Rightarrow> chk))"
proof (cases "filter (\<lambda>a. is_ok (fetch idx a)) [0..<request_retries]")
  case Nil
  then have "\<not> is_ok (fetch idx (request_retries - 1))"
    by (auto simp: filter_empty_conv request_retries_def)
  with Nil fetch_with_retries_from [of 0 "fetch idx"] show ?thesis
    by (auto simp: sample_client_def answered_def request_retries_def not_is_ok_iff Let_def)
next
  case (Cons a as)
  have "a \<in> set (filter (\<lambda>a. is_ok (fetch idx a)) [0..<request_retries])" unfolding Cons by simp
  then have "is_ok (fetch idx a)" by simp
  with Cons fetch_with_retries_from [of 0 "fetch idx"] show ?thesis
    by (auto simp: sample_client_def answered_def request_retries_def is_ok_iff Let_def split: prod.splits)
qed

lemma answered_None_last:
  assumes "answered fetch idx = None"
  shows "\<exists>e. fetch idx (request_retries - 1) = Inl e"
proof (cases "filter (\<lambda>a. is_ok (fetch idx a)) [0..<request_retries]")
  case Nil
  then show ?thesis by (auto simp: filter_empty_conv request_retries_def not_is_ok_iff)
next
  case (Cons a as)
  have "a \<in> set (filter (\<lambda>a. is_ok (fetch idx a)) [0..<request_retries])" unfolding Cons by simp
  then obtain x where "fetch idx a = Inr x" by (auto simp: is_ok_iff)
  with Cons assms show ?thesis by (simp add: answered_def)
qed

definition sample_of :: "(nat \<Rightarrow> nat \<Rightarrow> info_answer) \<Rightarrow> nat \<Rightarrow> node_sample option" where
  "sample_of fetch idx =
     map_option (\<lambda>(h, t). \<lparr>ns_label = ''node-'' @ show_nat idx, ns_height = h, ns_tip = t\<rparr>) (answered fetch idx)"

lemma collect_liveness_eq:
  "lk_samples (collect_liveness fetch n) = List.map_filter (sample_of fetch) [0..<n]"
  "lk_issues (collect_liveness fetch n) = [] \<longleftrightarrow> (\<forall>i < n. answered fetch i \<noteq> None)"
proof -
  have "lk_samples (collect_liveness fetch n) = List.map_filter (sample_of fetch) [0..<n] \<and>
    (lk_issues (collect_liveness fetch n) = [] \<longleftrightarrow> (\<forall>i < n. answered fetch i \<noteq> None))"
  proof (induction n)
    case 0
    then show ?case by (simp add: collect_liveness_def List.map_filter_def)
  next
    case (Suc n)
    have "collect_liveness fetch (Suc n) = sample_client fetch (collect_liveness fetch n) n"
      by (simp add: collect_liveness_def)
    with Suc answered_None_last [of fetch n] show ?case
      by (auto simp: sample_client_cases sample_of_def List.map_filter_def less_Suc_eq split: option.splits)
  qed
  then show "lk_samples (collect_liveness fetch n) = List.map_filter (sample_of fetch) [0..<n]"
    "lk_issues (collect_liveness fetch n) = [] \<longleftrightarrow> (\<forall>i < n. answered fetch i \<noteq> None)" by auto
qed

lemma push_lagging_eq:
  assumes "\<forall>s \<in> set ss. ns_height s + lag \<le> u64_max"
  shows "push_lagging lag target ss issues =
    Some (issues @ map (\<lambda>s. HeightBelowTarget (ns_label s) (ns_height s) target)
            (filter (\<lambda>s. ns_height s + lag < target) ss))"
  using assms by (induction ss arbitrary: issues) (auto simp: u64_add_def)

lemma push_lagging_None:
  "push_lagging lag target ss issues = None \<longleftrightarrow> (\<exists>s \<in> set ss. u64_max < ns_height s + lag)"
  by (induction ss arbitrary: issues) (auto simp: u64_add_def)

text \<open>The allowance the code applies to a target: a tenth of it, between the configured one and five.\<close>

definition allowance :: "consensus_liveness \<Rightarrow> nat \<Rightarrow> nat" where
  "allowance cl target = max (cl_lag_allowance cl) (min max_lag_allowance (target div 10))"

definition judged_target :: "nat \<Rightarrow> nat \<Rightarrow> nat" where
  "judged_target hint max_height = (if hint = 0 then max_height else min hint max_height)"

lemma effective_lag_allowance_eq:
  "effective_lag_allowance cl target =
     (if cl_lag_allowance cl \<le> 5 then Some (allowance cl target) else None)"
  by (auto simp: effective_lag_allowance_def u64_clamp_def allowance_def max_lag_allowance_def)

lemma allowance_le: "cl_lag_allowance cl \<le> 5 \<Longrightarrow> allowance cl t \<le> 5"
  by (simp add: allowance_def max_lag_allowance_def)

lemma report_Ok_iff:
  assumes la: "cl_lag_allowance cl \<le> 5" and h: "\<forall>s \<in> set (lk_samples chk). ns_height s + 5 \<le> u64_max"
  defines "mx \<equiv> Max (set (map ns_height (lk_samples chk)))"
  shows "report show_tip cl hint chk = Some (Ok ()) \<longleftrightarrow>
    lk_samples chk \<noteq> [] \<and> lk_issues chk = [] \<and> 5 \<le> mx \<and>
    (\<forall>s \<in> set (lk_samples chk). judged_target hint mx \<le> ns_height s + allowance cl (judged_target hint mx))"
    and "report show_tip cl hint chk \<noteq> None"
proof -
  have tgt: "(if hint = 0 \<or> mx < hint then mx else hint) = judged_target hint mx"
    by (auto simp: judged_target_def)
  have "\<forall>s \<in> set (lk_samples chk). ns_height s + allowance cl t \<le> u64_max" for t
    using h allowance_le [OF la, of t] by fastforce
  note push = push_lagging_eq [OF this]
  show "report show_tip cl hint chk = Some (Ok ()) \<longleftrightarrow>
    lk_samples chk \<noteq> [] \<and> lk_issues chk = [] \<and> 5 \<le> mx \<and>
    (\<forall>s \<in> set (lk_samples chk). judged_target hint mx \<le> ns_height s + allowance cl (judged_target hint mx))"
    unfolding report_def Let_def mx_def [symmetric] tgt effective_lag_allowance_eq
    by (auto simp: la push min_progress_blocks_def not_less filter_empty_conv)
  show "report show_tip cl hint chk \<noteq> None"
    unfolding report_def Let_def mx_def [symmetric] tgt effective_lag_allowance_eq
    by (simp add: la push)
qed

section \<open>Properties\<close>


definition demo_fetch :: "nat \<Rightarrow> nat \<Rightarrow> info_answer" where
  "demo_fetch i attempt = (if attempt < i then Inl ''busy'' else Inr (10 - i, []))"

lemma demo_answered: "i < 2 \<Longrightarrow> answered demo_fetch i = Some (10 - i, [])"
  by (auto simp: less_Suc_eq numeral_2_eq_2 answered_def demo_fetch_def request_retries_def upt_rec)


text \<open>
  The public setter accepts lags that the judgement cannot use: with a configured lag
  above five every judgement of a non-empty sample set panics, because the clamp bounds cross; with
  a lag of at most five a panic needs a height within five of the largest \<^verbatim>\<open>u64\<close>.
\<close>

theorem lag_allowance_panics:
  "(5 < l \<and> lk_samples chk \<noteq> [] \<longrightarrow> report show_tip (with_lag_allowance l cl) hint chk = None) \<and>
   (l \<le> 5 \<and> report show_tip (with_lag_allowance l cl) hint chk = None \<longrightarrow>
      (\<exists>s \<in> set (lk_samples chk). u64_max < ns_height s + 5))"
proof -
  have l: "cl_lag_allowance (with_lag_allowance l cl) = l" by (simp add: with_lag_allowance_def)
  have "report show_tip (with_lag_allowance l cl) hint chk = None" if "5 < l" "lk_samples chk \<noteq> []"
    using that by (simp add: report_def Let_def effective_lag_allowance_eq l)
  moreover have "\<exists>s \<in> set (lk_samples chk). u64_max < ns_height s + 5"
    if "l \<le> 5" "report show_tip (with_lag_allowance l cl) hint chk = None"
    using report_Ok_iff(2) [of "with_lag_allowance l cl" chk show_tip hint] that by (fastforce simp: l not_le)
  ultimately show ?thesis by blast
qed

theorem lag_allowance_panics_witness:
  "evaluate_liveness (\<lambda>_. []) (with_lag_allowance 6 consensus_liveness_default) 10 2 demo_fetch = None"
proof -
  have "List.map_filter (sample_of demo_fetch) [0..<2] \<noteq> []"
    by (simp add: upt_rec sample_of_def demo_answered List.map_filter_def)
  with lag_allowance_panics [of 6 "collect_liveness demo_fetch 2" "\<lambda>_. []" consensus_liveness_default 10]
  show ?thesis by (simp add: evaluate_liveness_def collect_liveness_eq)
qed

end
