(* ===== verification/Wallet.thy ===== *)
theory Wallet
  imports Ledger_Types
begin

text \<open>
  The wallet accounts funded at genesis (\<^verbatim>\<open>configs/src/topology/configs/wallet.rs\<close>): deterministic
  key seeds and the uniform split of a total over a number of users.  The conversion of a big
  number into a secret key belongs to the key-management crate and is the argument
  \<open>zk_from\<close>; \<^verbatim>\<open>BigUint::from_bytes_le\<close> is \<open>le_nat\<close>.
\<close>

section \<open>Little-endian bytes\<close>

fun le_bytes :: "nat \<Rightarrow> nat \<Rightarrow> u8 list" where
  "le_bytes 0 n = []"
| "le_bytes (Suc k) n = of_nat (n mod 256) # le_bytes k (n div 256)"

fun le_nat :: "u8 list \<Rightarrow> nat" where
  "le_nat [] = 0"
| "le_nat (b # bs) = unat b + 256 * le_nat bs"

lemma length_le_bytes [simp]: "length (le_bytes k n) = k"
  by (induction k arbitrary: n) auto

lemma le_nat_le_bytes: "n < 256 ^ k \<Longrightarrow> le_nat (le_bytes k n) = n"
proof (induction k arbitrary: n)
  case (Suc k)
  then have "n div 256 < 256 ^ k" by (simp add: less_mult_imp_div_less mult.commute)
  with Suc.IH have "le_nat (le_bytes k (n div 256)) = n div 256" by blast
  then show ?case by (simp add: unat_of_nat)
qed simp

lemma le_nat_append: "le_nat (xs @ ys) = le_nat xs + 256 ^ length xs * le_nat ys"
  by (induction xs) (auto simp: algebra_simps)

lemma le_nat_replicate_0 [simp]: "le_nat (replicate k 0) = 0"
  by (induction k) auto

lemma le_nat_less: "le_nat xs < 256 ^ length xs"
proof (induction xs)
  case (Cons b xs)
  have "unat b < 256" using unsigned_less [of b] by simp
  with Cons show ?case by simp
qed simp

lemma le_nat_inj: "length xs = length ys \<Longrightarrow> le_nat xs = le_nat ys \<Longrightarrow> xs = ys"
proof (induction xs arbitrary: ys)
  case (Cons b xs)
  then obtain c zs where ys: "ys = c # zs" by (cases ys) auto
  have b: "unat b < 256" "unat c < 256" using unsigned_less [of b] unsigned_less [of c] by simp_all
  from Cons.prems(2) have eq: "unat b + 256 * le_nat xs = unat c + 256 * le_nat zs" by (simp add: ys)
  then have "(unat b + 256 * le_nat xs) mod 256 = (unat c + 256 * le_nat zs) mod 256" by simp
  with b have "unat b = unat c" by simp
  then have "b = c" by (simp add: word_unat_eq_iff)
  with eq Cons ys show ?case by simp
qed simp

section \<open>Accounts\<close>

record wallet_account =
  wa_label :: string
  wa_secret_key :: zk_key
  wa_value :: nat

record wallet_config =
  wc_accounts :: "wallet_account list"

definition wallet_config_new :: "wallet_account list \<Rightarrow> wallet_config" where
  "wallet_config_new as = \<lparr>wc_accounts = as\<rparr>"

definition wallet_config_default :: wallet_config where
  "wallet_config_default = \<lparr>wc_accounts = []\<rparr>"

definition wallet_account_new :: "string \<Rightarrow> zk_key \<Rightarrow> nat \<Rightarrow> wallet_account option" where
  "wallet_account_new label sk v =
     (if 0 < v then Some \<lparr>wa_label = label, wa_secret_key = sk, wa_value = v\<rparr> else None)"

definition wallet_seed :: "nat \<Rightarrow> u8 list" where
  "wallet_seed index = [119, 108] @ le_bytes 8 index @ replicate 22 0"

definition deterministic :: "(nat \<Rightarrow> zk_key) \<Rightarrow> nat \<Rightarrow> nat \<Rightarrow> wallet_account option" where
  "deterministic zk_from index v =
     wallet_account_new (''wallet-user-'' @ show_nat index) (zk_from (le_nat (wallet_seed index))) v"

definition wallet_public_key :: "(zk_key \<Rightarrow> zk_pk) \<Rightarrow> wallet_account \<Rightarrow> zk_pk" where
  "wallet_public_key to_pk a = to_pk (wa_secret_key a)"

text \<open>The closure mapped over \<^verbatim>\<open>0..users\<close>: it threads the remainder through the accounts.\<close>

fun split_funds :: "(nat \<Rightarrow> zk_key) \<Rightarrow> nat \<Rightarrow> nat \<Rightarrow> nat list \<Rightarrow> wallet_account list option" where
  "split_funds zk_from base remainder [] = Some []"
| "split_funds zk_from base remainder (idx # idxs) =
     (let amount = (if 0 < remainder then base + 1 else base);
          remainder' = (if 0 < remainder then remainder - 1 else remainder)
      in case deterministic zk_from idx amount of
           None \<Rightarrow> None
         | Some a \<Rightarrow> map_option (\<lambda>as. a # as) (split_funds zk_from base remainder' idxs))"

definition uniform :: "(nat \<Rightarrow> zk_key) \<Rightarrow> nat \<Rightarrow> nat \<Rightarrow> wallet_config option" where
  "uniform zk_from total_funds users =
     (if users = 0 \<or> total_funds < users then None
      else map_option (\<lambda>as. \<lparr>wc_accounts = as\<rparr>)
             (split_funds zk_from (total_funds div users) (total_funds mod users) [0..<users]))"

section \<open>Correctness of the split\<close>

definition share :: "nat \<Rightarrow> nat \<Rightarrow> nat \<Rightarrow> nat" where
  "share funds users i = funds div users + (if i < funds mod users then 1 else 0)"

definition account_for :: "(nat \<Rightarrow> zk_key) \<Rightarrow> nat \<Rightarrow> nat \<Rightarrow> wallet_account" where
  "account_for zk_from i v =
     \<lparr>wa_label = ''wallet-user-'' @ show_nat i, wa_secret_key = zk_from (le_nat (wallet_seed i)),
      wa_value = v\<rparr>"

lemma deterministic_pos [simp]: "0 < v \<Longrightarrow> deterministic zk_from i v = Some (account_for zk_from i v)"
  by (simp add: deterministic_def wallet_account_new_def account_for_def)

lemma split_funds_from:
  "0 < base \<Longrightarrow>
     split_funds zk_from base r [k..<k + n] =
       Some (map (\<lambda>i. account_for zk_from i (base + (if i < k + r then 1 else 0))) [k..<k + n])"
proof (induction n arbitrary: k r)
  case (Suc n)
  have up: "[k..<k + Suc n] = k # [Suc k..<Suc k + n]" by (simp add: upt_rec)
  from Suc.IH [of "r - 1" "Suc k"] Suc.prems show ?case
    unfolding up by (auto simp: Let_def intro!: map_cong)
qed simp

lemma uniform_accounts:
  assumes "0 < users" "users \<le> funds"
  shows "uniform zk_from funds users =
    Some \<lparr>wc_accounts = map (\<lambda>i. account_for zk_from i (share funds users i)) [0..<users]\<rparr>"
proof -
  have "0 < funds div users" using assms by (simp add: div_greater_zero_iff)
  from split_funds_from [OF this, of zk_from "funds mod users" 0 users] assms show ?thesis
    by (simp add: uniform_def share_def)
qed

lemma sum_threshold: "r \<le> n \<Longrightarrow> (\<Sum>i = 0..<n. if i < r then 1 else 0) = (r :: nat)"
proof (induction n)
  case (Suc n)
  then show ?case by (cases "r = Suc n") (auto simp: sum.If_cases)
qed simp

lemma sum_share: "0 < users \<Longrightarrow> (\<Sum>i = 0..<users. share funds users i) = funds"
proof -
  assume u: "0 < users"
  then have "(\<Sum>i = 0..<users. share funds users i) = users * (funds div users) + funds mod users"
    unfolding share_def sum.distrib using sum_threshold [of "funds mod users" users] by simp
  then show ?thesis by simp
qed

lemma wallet_seed_inj: "i < 2 ^ 64 \<Longrightarrow> j < 2 ^ 64 \<Longrightarrow> wallet_seed i = wallet_seed j \<Longrightarrow> i = j"
proof -
  assume ij: "i < 2 ^ 64" "j < 2 ^ 64" and "wallet_seed i = wallet_seed j"
  then have "le_nat (le_bytes 8 i) = le_nat (le_bytes 8 j)" by (simp add: wallet_seed_def)
  with ij show "i = j" by (simp add: le_nat_le_bytes)
qed

lemma wallet_seed_bound: "le_nat (wallet_seed i) < 256 ^ 10"
proof -
  have "le_nat (wallet_seed i) = le_nat ([119, 108] @ le_bytes 8 i)"
    unfolding wallet_seed_def append_assoc [symmetric] le_nat_append [of "[119, 108] @ le_bytes 8 i"] by simp
  also have "\<dots> < 256 ^ length ([119, 108] @ le_bytes 8 i)" by (rule le_nat_less)
  finally show ?thesis by simp
qed

lemma wallet_seed_nat_inj:
  "i < 2 ^ 64 \<Longrightarrow> j < 2 ^ 64 \<Longrightarrow> le_nat (wallet_seed i) = le_nat (wallet_seed j) \<Longrightarrow> i = j"
  using wallet_seed_inj le_nat_inj [of "wallet_seed i" "wallet_seed j"] by (simp add: wallet_seed_def)

section \<open>Properties\<close>

text \<open>
  Property C24.  Splitting a total over a positive number of users that does not exceed it succeeds,
  gives one account per user, loses and creates no funds, gives every user at least one token and
  no two users amounts more than one apart; the labels are pairwise distinct, and so are the
  secret keys whenever the key conversion is injective on numbers below \<open>256 ^ 10\<close> (a conversion
  modulo the scalar field is).  Exactly the other inputs panic.
\<close>

theorem uniform_split:
  assumes "inj_on zk_from {..<256 ^ 10}" "users < 2 ^ 64"
  shows "(uniform zk_from funds users = None \<longleftrightarrow> users = 0 \<or> funds < users) \<and>
    (\<forall>w. uniform zk_from funds users = Some w \<longrightarrow>
       length (wc_accounts w) = users \<and>
       sum_list (map wa_value (wc_accounts w)) = funds \<and>
       (\<forall>a \<in> set (wc_accounts w). 0 < wa_value a \<and>
          (wa_value a = funds div users \<or> wa_value a = funds div users + 1)) \<and>
       distinct (map wa_label (wc_accounts w)) \<and>
       distinct (map wa_secret_key (wc_accounts w)))"
proof (cases "users = 0 \<or> funds < users")
  case True
  then show ?thesis by (auto simp: uniform_def)
next
  case False
  then have u: "0 < users" "users \<le> funds" by auto
  let ?as = "map (\<lambda>i. account_for zk_from i (share funds users i)) [0..<users]"
  have "sum_list (map wa_value ?as) = funds"
    using sum_share [OF u(1), of funds]
    by (simp add: account_for_def comp_def interv_sum_list_conv_sum_set_nat)
  moreover have "\<forall>a \<in> set ?as. 0 < wa_value a \<and>
      (wa_value a = funds div users \<or> wa_value a = funds div users + 1)"
    using u by (auto simp: account_for_def share_def div_greater_zero_iff)
  moreover have "distinct (map wa_label ?as)"
    by (auto simp: account_for_def comp_def distinct_map inj_on_def)
  moreover have "inj_on (\<lambda>i. zk_from (le_nat (wallet_seed i))) {0..<users}"
  proof (rule inj_onI)
    fix i j assume ij: "i \<in> {0..<users}" "j \<in> {0..<users}"
      and eq: "zk_from (le_nat (wallet_seed i)) = zk_from (le_nat (wallet_seed j))"
    have "le_nat (wallet_seed i) = le_nat (wallet_seed j)"
      by (rule inj_onD [OF assms(1) eq]) (simp_all only: lessThan_iff wallet_seed_bound)
    note seeds = wallet_seed_nat_inj [OF _ _ this]
    show "i = j" by (rule seeds) (use ij assms(2) in simp_all)
  qed
  then have "distinct (map wa_secret_key ?as)"
    by (auto simp: account_for_def comp_def distinct_map)
  ultimately show ?thesis using uniform_accounts [OF u] u by simp
qed

theorem uniform_split_witness:
  "\<exists>w. uniform (\<lambda>n. n) 10 3 = Some w \<and> length (wc_accounts w) = 3 \<and>
     map wa_value (wc_accounts w) = [4, 3, 3] \<and> distinct (map wa_secret_key (wc_accounts w))"
  using uniform_split [of "\<lambda>n. n" 3 10] uniform_accounts [of 3 10 "\<lambda>n. n"]
  by (auto simp: account_for_def share_def upt_rec)

end
