(* ===== verification/Duration_F64.thy ===== *)
theory Duration_F64
  imports Prelude Complex_Main
begin

text \<open>
  The two pieces of Rust's standard library the timing code of the framework is written in:
  \<^verbatim>\<open>std::time::Duration\<close> and \<^verbatim>\<open>f64\<close>.

  A duration is its number of nanoseconds; \<open>dur_max\<close> is \<^verbatim>\<open>Duration::MAX\<close>, and the operations that
  panic beyond it return \<open>None\<close>.  A binary64 value is either an exact rational or one of the
  special values, every arithmetic result is rounded to 53 significant bits, ties to even, and
  overflows to an infinity.  The sign of zero is not represented: no quantity the framework
  divides by can be a negative zero, since each divisor is a duration in seconds or a count.
\<close>

section \<open>Durations\<close>

type_synonym duration = nat

definition nanos_per_sec :: nat where
  "nanos_per_sec = 1000000000"

definition dur_max :: duration where
  "dur_max = u64_max * nanos_per_sec + 999999999"

definition from_secs :: "nat \<Rightarrow> duration" where
  "from_secs s = s * nanos_per_sec"

definition from_millis :: "nat \<Rightarrow> duration" where
  "from_millis ms = ms * 1000000"

definition dur_mul :: "duration \<Rightarrow> nat \<Rightarrow> duration option" where
  "dur_mul d k = (if d * k \<le> dur_max then Some (d * k) else None)"

definition dur_checked_add :: "duration \<Rightarrow> duration \<Rightarrow> duration option" where
  "dur_checked_add a b = (if a + b \<le> dur_max then Some (a + b) else None)"

definition dur_checked_sub :: "duration \<Rightarrow> duration \<Rightarrow> duration option" where
  "dur_checked_sub a b = (if b \<le> a then Some (a - b) else None)"

text \<open>\<^verbatim>\<open>saturating_sub\<close> stops at zero, as subtraction on \<open>nat\<close> does.\<close>

definition dur_saturating_sub :: "duration \<Rightarrow> duration \<Rightarrow> duration" where
  "dur_saturating_sub a b = a - b"

lemmas duration_defs = nanos_per_sec_def dur_max_def from_secs_def from_millis_def dur_mul_def
  dur_checked_add_def dur_checked_sub_def dur_saturating_sub_def

lemma from_secs_mono [simp]: "from_secs a \<le> from_secs b \<longleftrightarrow> a \<le> b"
  by (simp add: from_secs_def nanos_per_sec_def)

lemma from_secs_0 [simp]: "from_secs s = 0 \<longleftrightarrow> s = 0"
  by (simp add: from_secs_def nanos_per_sec_def)

section \<open>Binary64\<close>

datatype f64 = NaN | PInf | NInf | Fin rat

definition round_half_even :: "rat \<Rightarrow> int" where
  "round_half_even x =
     (let n = \<lfloor>x\<rfloor>; r = x - of_int n
      in if r < 1 / 2 then n
         else if 1 / 2 < r then n + 1
         else if even n then n else n + 1)"

fun bit_length :: "nat \<Rightarrow> nat" where
  "bit_length n = (if n = 0 then 0 else Suc (bit_length (n div 2)))"

declare bit_length.simps [simp del]

text \<open>The binary exponent of a positive rational: \<open>2 powi e \<le> x < 2 powi (e + 1)\<close>.\<close>

definition binexp :: "rat \<Rightarrow> int" where
  "binexp x =
     (let (a, b) = quotient_of x;
          k = int (bit_length (nat a)) - int (bit_length (nat b))
      in if 2 powi k \<le> x then k else k - 1)"

definition round64 :: "rat \<Rightarrow> f64" where
  "round64 x =
     (if x = 0 then Fin 0
      else let u = max (binexp \<bar>x\<bar> - 52) (- 1074);
               y = of_int (round_half_even (x / 2 powi u)) * 2 powi u
           in if 2 ^ 1024 \<le> \<bar>y\<bar> then (if 0 < x then PInf else NInf) else Fin y)"

definition f64_of_nat :: "nat \<Rightarrow> f64" where
  "f64_of_nat n = round64 (of_nat n)"

fun f64_add :: "f64 \<Rightarrow> f64 \<Rightarrow> f64" where
  "f64_add (Fin x) (Fin y) = round64 (x + y)"
| "f64_add NaN _ = NaN"
| "f64_add _ NaN = NaN"
| "f64_add PInf NInf = NaN"
| "f64_add NInf PInf = NaN"
| "f64_add PInf _ = PInf"
| "f64_add _ PInf = PInf"
| "f64_add NInf _ = NInf"
| "f64_add _ NInf = NInf"

definition signed_inf :: "rat \<Rightarrow> f64" where
  "signed_inf s = (if s = 0 then NaN else if 0 < s then PInf else NInf)"

fun f64_sign :: "f64 \<Rightarrow> rat" where
  "f64_sign (Fin x) = sgn x"
| "f64_sign PInf = 1"
| "f64_sign NInf = - 1"
| "f64_sign NaN = 0"

fun f64_mul :: "f64 \<Rightarrow> f64 \<Rightarrow> f64" where
  "f64_mul (Fin x) (Fin y) = round64 (x * y)"
| "f64_mul NaN _ = NaN"
| "f64_mul _ NaN = NaN"
| "f64_mul a b = signed_inf (f64_sign a * f64_sign b)"

fun f64_div :: "f64 \<Rightarrow> f64 \<Rightarrow> f64" where
  "f64_div NaN _ = NaN"
| "f64_div _ NaN = NaN"
| "f64_div (Fin x) (Fin y) = (if y = 0 then signed_inf x else round64 (x / y))"
| "f64_div (Fin x) _ = Fin 0"
| "f64_div a (Fin y) = signed_inf (f64_sign a * (if y < 0 then - 1 else 1))"
| "f64_div _ _ = NaN"

fun f64_floor :: "f64 \<Rightarrow> f64" where
  "f64_floor (Fin x) = Fin (of_int \<lfloor>x\<rfloor>)"
| "f64_floor a = a"

fun f64_ceil :: "f64 \<Rightarrow> f64" where
  "f64_ceil (Fin x) = Fin (of_int \<lceil>x\<rceil>)"
| "f64_ceil a = a"

text \<open>\<open>f64_less\<close> is IEEE comparison: false as soon as one side is NaN.\<close>

fun f64_less :: "f64 \<Rightarrow> f64 \<Rightarrow> bool" where
  "f64_less (Fin x) (Fin y) = (x < y)"
| "f64_less NaN _ = False"
| "f64_less _ NaN = False"
| "f64_less NInf b = (b \<noteq> NInf)"
| "f64_less _ NInf = False"
| "f64_less a PInf = (a \<noteq> PInf)"
| "f64_less PInf _ = False"

definition f64_le :: "f64 \<Rightarrow> f64 \<Rightarrow> bool" where
  "f64_le a b = (f64_less a b \<or> (a = b \<and> a \<noteq> NaN))"

definition f64_clamp :: "f64 \<Rightarrow> f64 \<Rightarrow> f64 \<Rightarrow> f64" where
  "f64_clamp lo hi x = (if f64_less x lo then lo else if f64_less hi x then hi else x)"

text \<open>\<^verbatim>\<open>x as u64\<close>: truncation, saturating at both ends, NaN to zero.\<close>

fun f64_to_u64 :: "f64 \<Rightarrow> nat" where
  "f64_to_u64 (Fin x) = min u64_max (nat \<lfloor>x\<rfloor>)"
| "f64_to_u64 PInf = u64_max"
| "f64_to_u64 _ = 0"

definition as_secs_f64 :: "duration \<Rightarrow> f64" where
  "as_secs_f64 d =
     f64_add (f64_of_nat (d div nanos_per_sec))
       (f64_div (f64_of_nat (d mod nanos_per_sec)) (Fin 1000000000))"

text \<open>\<^verbatim>\<open>Duration::from_secs_f64\<close> rounds to the nearest nanosecond and panics outside the type.\<close>

fun from_secs_f64 :: "f64 \<Rightarrow> duration option" where
  "from_secs_f64 (Fin x) =
     (if x < 0 \<or> 2 ^ 64 \<le> x then None else Some (nat (round_half_even (x * 1000000000))))"
| "from_secs_f64 _ = None"

definition mul_f64 :: "duration \<Rightarrow> f64 \<Rightarrow> duration option" where
  "mul_f64 d c = from_secs_f64 (f64_mul c (as_secs_f64 d))"

section \<open>Parsing binary64\<close>

text \<open>\<^verbatim>\<open>f64::from_str\<close>: sign, \<^verbatim>\<open>inf\<close>, \<^verbatim>\<open>infinity\<close>, \<^verbatim>\<open>nan\<close> in any case, or a decimal with optional
  fraction and exponent, rounded once.\<close>

definition lower_char :: "char \<Rightarrow> char" where
  "lower_char c = (let k = (of_char c :: nat) in if 65 \<le> k \<and> k \<le> 90 then char_of (k + 32) else c)"

definition is_digit :: "char \<Rightarrow> bool" where
  "is_digit c = (digit_val c \<noteq> None)"

definition digits_val :: "string \<Rightarrow> nat" where
  "digits_val ds = foldl (\<lambda>acc c. 10 * acc + (case digit_val c of Some d \<Rightarrow> d | None \<Rightarrow> 0)) 0 ds"

definition parse_exponent :: "string \<Rightarrow> int option" where
  "parse_exponent s =
     (case s of
        [] \<Rightarrow> Some 0
      | c # cs \<Rightarrow>
          if lower_char c = CHR ''e'' then
            (let neg = (cs \<noteq> [] \<and> hd cs = CHR ''-'');
                 ds = (if cs \<noteq> [] \<and> (hd cs = CHR ''-'' \<or> hd cs = CHR ''+'') then tl cs else cs)
             in if ds \<noteq> [] \<and> list_all is_digit ds
                then Some (if neg then - int (digits_val ds) else int (digits_val ds)) else None)
          else None)"

definition parse_decimal :: "string \<Rightarrow> rat option" where
  "parse_decimal s =
     (let ip = takeWhile is_digit s; r1 = dropWhile is_digit s;
          point = (r1 \<noteq> [] \<and> hd r1 = CHR ''.'');
          fp = (if point then takeWhile is_digit (tl r1) else []);
          r2 = (if point then dropWhile is_digit (tl r1) else r1)
      in if ip @ fp = [] then None
         else map_option
                (\<lambda>e. of_nat (digits_val (ip @ fp)) * 10 powi (e - int (length fp)))
                (parse_exponent r2))"

definition parse_f64 :: "string \<Rightarrow> f64 option" where
  "parse_f64 s =
     (let neg = (s \<noteq> [] \<and> hd s = CHR ''-'');
          t = (if s \<noteq> [] \<and> (hd s = CHR ''-'' \<or> hd s = CHR ''+'') then tl s else s);
          l = map lower_char t
      in if l = ''inf'' \<or> l = ''infinity'' then Some (if neg then NInf else PInf)
         else if l = ''nan'' then Some NaN
         else map_option (\<lambda>x. round64 (if neg then - x else x)) (parse_decimal t))"

section \<open>Facts about rounding\<close>

lemma round_half_even_of_int [simp]: "round_half_even (of_int n) = n"
  by (simp add: round_half_even_def)

lemma round_half_even_nonneg: "0 \<le> x \<Longrightarrow> 0 \<le> round_half_even x"
  by (auto simp: round_half_even_def Let_def)

lemma round_half_even_mono: "x \<le> y \<Longrightarrow> round_half_even x \<le> round_half_even y"
proof -
  assume xy: "x \<le> y"
  then have fl: "\<lfloor>x\<rfloor> \<le> \<lfloor>y\<rfloor>" by (rule floor_mono)
  show ?thesis
  proof (cases "\<lfloor>x\<rfloor> = \<lfloor>y\<rfloor>")
    case True
    with xy show ?thesis by (auto simp: round_half_even_def Let_def)
  next
    case False
    with fl have "\<lfloor>x\<rfloor> + 1 \<le> \<lfloor>y\<rfloor>" by simp
    then show ?thesis by (auto simp: round_half_even_def Let_def)
  qed
qed

lemma bit_length_bounds:
  "0 < n \<Longrightarrow> 2 ^ (bit_length n - 1) \<le> n \<and> n < 2 ^ bit_length n \<and> 0 < bit_length n"
proof (induction n rule: bit_length.induct)
  case (1 n)
  show ?case
  proof (cases "n = 1")
    case True
    moreover have "bit_length (Suc 0) = Suc 0"
      by (simp add: bit_length.simps [of "Suc 0"] bit_length.simps [of 0])
    ultimately show ?thesis by simp
  next
    case False
    with "1.prems" have half: "0 < n div 2" by auto
    with "1.IH" "1.prems" have ih: "2 ^ (bit_length (n div 2) - 1) \<le> n div 2"
      "n div 2 < 2 ^ bit_length (n div 2)" "0 < bit_length (n div 2)" by auto
    have eq: "bit_length n = Suc (bit_length (n div 2))"
      using "1.prems" by (simp add: bit_length.simps [of n])
    have "2 ^ bit_length (n div 2) = 2 * 2 ^ (bit_length (n div 2) - 1)"
      using ih(3) by (cases "bit_length (n div 2)") auto
    also have "\<dots> \<le> 2 * (n div 2)" using ih(1) by simp
    also have "\<dots> \<le> n" by simp
    finally have "2 ^ bit_length (n div 2) \<le> n" .
    moreover have "n < 2 * 2 ^ bit_length (n div 2)" using ih(2) by linarith
    ultimately show ?thesis using eq by simp
  qed
qed

text \<open>The grid a value is rounded to, and how rounding moves a value against grid points.\<close>

definition to_grid :: "int \<Rightarrow> rat \<Rightarrow> rat" where
  "to_grid u x = of_int (round_half_even (x / 2 powi u)) * 2 powi u"

lemma powi_pos [simp]: "0 < (2 :: rat) powi u"
  by (simp add: zero_less_power_int)

lemma powi_less_iff: "(2 :: rat) powi a < 2 powi b \<longleftrightarrow> a < b"
  using power_int_strict_increasing [of a b "2 :: rat"] power_int_increasing [of b a "2 :: rat"]
  by force

lemma to_grid_mono: "x \<le> y \<Longrightarrow> to_grid u x \<le> to_grid u y"
  unfolding to_grid_def
  by (intro mult_right_mono of_int_le_iff [THEN iffD2] round_half_even_mono divide_right_mono)
    (auto intro: less_imp_le)

lemma to_grid_fixed: "to_grid u (of_int k * 2 powi u) = of_int k * 2 powi u"
  by (simp add: to_grid_def)

lemma powi_on_grid: "u \<le> e \<Longrightarrow> \<exists>k. (2 :: rat) powi e = of_int k * 2 powi u"
proof
  assume "u \<le> e"
  then have "e = int (nat (e - u)) + u" by simp
  then have "(2 :: rat) powi e = 2 powi int (nat (e - u)) * 2 powi u"
    by (metis power_int_add zero_neq_numeral)
  also have "2 powi int (nat (e - u)) = (of_int (2 ^ nat (e - u)) :: rat)"
    by (simp only: power_int_of_nat of_int_power of_int_numeral)
  finally show "(2 :: rat) powi e = of_int (2 ^ nat (e - u)) * 2 powi u" .
qed

lemma to_grid_powi: "u \<le> e \<Longrightarrow> to_grid u (2 powi e) = 2 powi e"
  using powi_on_grid [of u e] to_grid_fixed by metis

lemma bit_length_powi:
  assumes "0 < a"
  defines "p \<equiv> bit_length (nat a)"
  shows "2 powi (int p - 1) \<le> (of_int a :: rat)" and "(of_int a :: rat) < 2 powi int p"
proof -
  have p: "2 ^ (p - 1) \<le> nat a" "nat a < 2 ^ p" "0 < p"
    using bit_length_bounds [of "nat a"] assms by auto
  have "(2 :: rat) powi (int p - 1) = of_nat (2 ^ (p - 1))"
    using p(3) power_int_of_nat [of "2 :: rat" "p - 1"] by (simp add: of_nat_diff)
  also have "\<dots> \<le> of_nat (nat a)" using p(1) by (simp only: of_nat_le_iff)
  finally show "2 powi (int p - 1) \<le> (of_int a :: rat)" using assms(1) by simp
  have "(of_nat (nat a) :: rat) < of_nat (2 ^ p)" using p(2) by (simp only: of_nat_less_iff)
  then show "(of_int a :: rat) < 2 powi int p"
    using assms(1) power_int_of_nat [of "2 :: rat" p] by simp
qed

lemma binexp_bounds:
  assumes "0 < x"
  shows "2 powi binexp x \<le> x" and "x < 2 powi (binexp x + 1)"
proof -
  obtain a b where ab: "quotient_of x = (a, b)" by (cases "quotient_of x")
  have b: "0 < b" using ab by (rule quotient_of_denom_pos)
  have x: "x = of_int a / of_int b" using ab by (rule quotient_of_div)
  have a: "0 < a" using assms b by (simp add: x zero_less_divide_iff)
  define p q where "p = bit_length (nat a)" and "q = bit_length (nat b)"
  note ra = bit_length_powi [OF a, folded p_def] and rb = bit_length_powi [OF b, folded q_def]
  have upper: "x < 2 powi (int p - int q + 1)"
  proof -
    have "x < 2 powi int p / 2 powi (int q - 1)"
      unfolding x using ra rb a b by (intro frac_less) auto
    also have "\<dots> = 2 powi (int p - (int q - 1))"
      by (rule power_int_diff [symmetric]) simp
    also have "int p - (int q - 1) = int p - int q + 1" by simp
    finally show ?thesis .
  qed
  have lower: "2 powi (int p - int q - 1) < x"
  proof -
    have "(2 :: rat) powi (int p - int q - 1) = 2 powi (int p - 1 - int q)"
      by (rule arg_cong) simp
    also have "\<dots> = 2 powi (int p - 1) / 2 powi int q"
      by (rule power_int_diff) simp
    also have "\<dots> < x"
      unfolding x using ra rb a b by (intro frac_less2) auto
    finally show ?thesis .
  qed
  have bx: "binexp x = (if 2 powi (int p - int q) \<le> x then int p - int q else int p - int q - 1)"
    by (simp add: binexp_def ab p_def q_def Let_def)
  show "2 powi binexp x \<le> x" using lower by (simp add: bx)
  show "x < 2 powi (binexp x + 1)" using upper by (simp add: bx)
qed

text \<open>Rounding of a non-negative value, with the unit in the last place named.\<close>

definition ulp_exp :: "rat \<Rightarrow> int" where
  "ulp_exp x = max (binexp x - 52) (- 1074)"

lemma round64_pos:
  "0 < x \<Longrightarrow>
     round64 x = (if 2 ^ 1024 \<le> to_grid (ulp_exp x) x then PInf else Fin (to_grid (ulp_exp x) x))"
  by (auto simp: round64_def ulp_exp_def to_grid_def Let_def round_half_even_nonneg
      abs_of_nonneg zero_le_mult_iff)

lemma round64_0 [simp]: "round64 0 = Fin 0"
  by (simp add: round64_def)

lemma to_grid_nonneg: "0 \<le> x \<Longrightarrow> 0 \<le> to_grid u x"
  by (simp add: to_grid_def round_half_even_nonneg)

lemma round64_nonneg:
  assumes "0 \<le> x"
  shows "round64 x = PInf \<or> (\<exists>y. round64 x = Fin y \<and> 0 \<le> y)"
  using assms by (cases "x = 0") (auto simp: round64_pos to_grid_nonneg)

lemma to_grid_ulp_mono:
  assumes "0 < x" "x \<le> y"
  shows "to_grid (ulp_exp x) x \<le> to_grid (ulp_exp y) y"
proof (cases "ulp_exp x = ulp_exp y")
  case True
  with assms(2) show ?thesis by (simp add: to_grid_mono)
next
  case False
  have y: "0 < y" using assms by simp
  have "2 powi binexp x < (2 :: rat) powi (binexp y + 1)"
    using binexp_bounds [OF assms(1)] binexp_bounds [OF y] assms(2) by linarith
  then have "binexp x \<le> binexp y"
    by (simp add: powi_less_iff)
  with False have e: "binexp x + 1 \<le> binexp y" "ulp_exp x \<le> binexp y" "ulp_exp y \<le> binexp y"
    by (auto simp: ulp_exp_def)
  have "x \<le> 2 powi (binexp x + 1)" using binexp_bounds(2) [OF assms(1)] by simp
  also have "\<dots> \<le> 2 powi binexp y" using e(1) by (simp add: power_int_increasing)
  finally have "to_grid (ulp_exp x) x \<le> to_grid (ulp_exp x) (2 powi binexp y)"
    by (rule to_grid_mono)
  also have "\<dots> = 2 powi binexp y" using e(2) by (rule to_grid_powi)
  also have "\<dots> = to_grid (ulp_exp y) (2 powi binexp y)" using e(3) by (rule to_grid_powi [symmetric])
  also have "\<dots> \<le> to_grid (ulp_exp y) y" using binexp_bounds(1) [OF y] by (rule to_grid_mono)
  finally show ?thesis .
qed

lemma round64_mono:
  assumes "0 \<le> x" "x \<le> y"
  shows "f64_le (round64 x) (round64 y)"
proof (cases "x = 0")
  case True
  with assms round64_nonneg [of y] show ?thesis
    by (auto simp: f64_le_def)
next
  case False
  with assms have xy: "0 < x" "0 < y" "x \<le> y" by auto
  from to_grid_ulp_mono [OF xy(1,3)] xy show ?thesis
    by (auto simp: round64_pos f64_le_def)
qed

lemma round64_exact_nat:
  assumes "n < 2 ^ 53"
  shows "round64 (of_nat n) = Fin (of_nat n)"
proof (cases "n = 0")
  case False
  define x :: rat where "x = of_nat n"
  have x: "0 < x" using False by (simp add: x_def)
  have "x < of_nat (2 ^ 53)" using assms unfolding x_def by (simp only: of_nat_less_iff)
  then have "(2 :: rat) powi binexp x < 2 powi 53"
    using binexp_bounds(1) [OF x] by simp
  then have "binexp x < 53" by (simp only: powi_less_iff)
  then have u: "ulp_exp x \<le> 0" by (simp add: ulp_exp_def)
  obtain k where k: "(2 :: rat) powi 0 = of_int k * 2 powi ulp_exp x" using powi_on_grid [OF u] by blast
  have "x = of_int (int n * k) * 2 powi ulp_exp x" using k by (simp add: x_def)
  then have "to_grid (ulp_exp x) x = x" by (metis to_grid_fixed)
  moreover have "x < 2 ^ 1024"
    using \<open>x < of_nat (2 ^ 53)\<close> by (rule less_le_trans) simp
  ultimately show ?thesis using x by (simp add: round64_pos x_def)
qed simp

lemma round64_exact_half:
  assumes "n < 2 ^ 53"
  shows "round64 (of_nat n / 2) = Fin (of_nat n / 2)"
proof (cases "n = 0")
  case False
  define x :: rat where "x = of_nat n / 2"
  have x: "0 < x" using False by (simp add: x_def)
  have "(of_nat n :: rat) < of_nat (2 ^ 53)" using assms by (simp only: of_nat_less_iff)
  then have small: "x < 2 powi 52" by (simp add: x_def)
  then have "(2 :: rat) powi binexp x < 2 powi 52"
    using binexp_bounds(1) [OF x] by simp
  then have "binexp x < 52" by (simp only: powi_less_iff)
  then have u: "ulp_exp x \<le> - 1" by (simp add: ulp_exp_def)
  obtain k where k: "(2 :: rat) powi (- 1) = of_int k * 2 powi ulp_exp x" using powi_on_grid [OF u] by blast
  have "x = of_nat n * 2 powi (- 1)" by (simp add: x_def power_int_minus)
  also have "\<dots> = of_int (int n * k) * 2 powi ulp_exp x" unfolding k by simp
  finally have "to_grid (ulp_exp x) x = x" by (metis to_grid_fixed)
  moreover have "x < 2 ^ 1024" using small by (rule less_le_trans) simp
  ultimately show ?thesis using x by (simp add: round64_pos x_def)
qed simp

text \<open>Rules that evaluate rounding at a concrete value.\<close>

lemma binexp_eqI:
  assumes "2 powi e \<le> x" "x < 2 powi (e + 1)"
  shows "binexp x = e"
proof -
  have x: "0 < x" using less_le_trans [OF powi_pos assms(1)] .
  have "(2 :: rat) powi binexp x < 2 powi (e + 1)" "(2 :: rat) powi e < 2 powi (binexp x + 1)"
    using binexp_bounds [OF x] assms by linarith+
  then show ?thesis by (simp add: powi_less_iff)
qed

lemma round_half_even_eqI:
  assumes "of_int m - 1 / 2 < x" "x < of_int m + 1 / 2"
  shows "round_half_even x = m"
proof (cases "of_int m \<le> x")
  case True
  with assms have "\<lfloor>x\<rfloor> = m" by (intro floor_unique) auto
  with assms show ?thesis by (simp add: round_half_even_def Let_def)
next
  case False
  with assms have "\<lfloor>x\<rfloor> = m - 1" by (intro floor_unique) auto
  with assms show ?thesis by (simp add: round_half_even_def Let_def)
qed

lemma round64_eqI:
  assumes x: "2 powi e \<le> x" "x < 2 powi (e + 1)" and e: "- 1022 \<le> e" "e < 1023"
    and m: "round_half_even (x / 2 powi (e - 52)) = m"
  shows "round64 x = Fin (of_int m * 2 powi (e - 52))"
proof -
  have pos: "0 < x" using less_le_trans [OF powi_pos x(1)] .
  have u: "ulp_exp x = e - 52" using e by (simp add: ulp_exp_def binexp_eqI [OF x])
  have "to_grid (e - 52) x \<le> to_grid (e - 52) (2 powi (e + 1))" using x(2) by (simp add: to_grid_mono)
  also have "\<dots> = 2 powi (e + 1)" by (rule to_grid_powi) simp
  also have "\<dots> < 2 powi 1024" using e by (simp only: powi_less_iff)
  also have "\<dots> = 2 ^ 1024" by (rule power_int_numeral)
  finally have "to_grid (e - 52) x < 2 ^ 1024" .
  with pos u m show ?thesis by (simp add: round64_pos to_grid_def)
qed

end
