(* ===== verification/Genesis.thy ===== *)
theory Genesis
  imports Wallet Duration_F64
begin

text \<open>
  Genesis state and consensus configuration
  (\<^verbatim>\<open>configs/src/topology/configs/consensus.rs\<close>, \<^verbatim>\<open>blend.rs\<close>): the funded outputs of every node,
  the service notes that later declarations lock, the ledger parameters, and the genesis
  transaction with and without declarations.

  Hashes, key derivation, signatures and the validation of a genesis transaction are functions of
  other crates.  They are collected in the record \<open>crypto\<close>, an argument of every definition
  that calls them; the properties name the few laws they rely on.
\<close>

section \<open>Transactions\<close>

type_synonym zk_sig = nat
type_synonym ed_sig = nat

record inscription_op =
  ins_channel_id :: "u8 list"
  ins_inscription :: "u8 list"
  ins_parent :: "u8 list"
  ins_signer :: ed_pk

datatype service_type = BlendNetwork

record declaration_message =
  dm_service_type :: service_type
  dm_locators :: "multiaddr list"
  dm_provider_id :: ed_pk
  dm_zk_id :: zk_pk
  dm_locked_note_id :: note_id

datatype mantle_op =
  ChannelInscribe inscription_op
| SDPDeclare declaration_message

datatype op_proof =
  NoProof
| ZkAndEd25519Sigs zk_sig ed_sig

record mantle_tx =
  mtx_ops :: "mantle_op list"
  mtx_ledger_tx :: ledger_tx
  mtx_execution_gas_price :: nat
  mtx_storage_gas_price :: nat

record signed_mantle_tx =
  smt_mantle_tx :: mantle_tx
  smt_ops_proofs :: "op_proof list"
  smt_ledger_tx_proof :: "u8 list"

type_synonym genesis_tx = signed_mantle_tx

section \<open>Functions of the node crates\<close>

record crypto =
  cr_zk_from :: "nat \<Rightarrow> zk_key"
  cr_zk_pk :: "zk_key \<Rightarrow> zk_pk"
  cr_zk_pk_bytes :: "zk_pk \<Rightarrow> u8 list"
  cr_ed_from_bytes :: "u8 list \<Rightarrow> ed_key"
  cr_ed_pk :: "ed_key \<Rightarrow> ed_pk"
  cr_ed_pk_bytes :: "ed_pk \<Rightarrow> u8 list"
  cr_ed_pk_from_bytes :: "u8 list \<Rightarrow> string + ed_pk"
  cr_utxo_id :: "utxo \<Rightarrow> note_id"
  cr_ledger_hash :: "ledger_tx \<Rightarrow> tx_hash"
  cr_mantle_hash :: "mantle_tx \<Rightarrow> tx_hash"
  cr_multi_sign :: "zk_key list \<Rightarrow> tx_hash \<Rightarrow> string + zk_sig"
  cr_ed_sign :: "ed_key \<Rightarrow> tx_hash \<Rightarrow> ed_sig"
  cr_genesis_from_tx :: "signed_mantle_tx \<Rightarrow> string + genesis_tx"
  cr_genesis_mantle_tx :: "genesis_tx \<Rightarrow> mantle_tx"
  cr_nonneg_f64 :: "f64 \<Rightarrow> f64 option"
  cr_hex :: "u8 list \<Rightarrow> string"
  cr_msg_root :: "u8 list"

section \<open>Consensus parameters\<close>

datatype consensus_config_error =
  InscriptionSigner string
| GenesisTxError string
| LedgerConfigError string
| DeclarationSignature string

record consensus_params =
  cp_n_participants :: nat
  cp_security_param :: nat
  cp_active_slot_coeff :: f64

definition default_active_slot_coeff :: f64 where
  "default_active_slot_coeff = round64 (9 / 10)"

definition default_for_participants :: "env \<Rightarrow> nat \<Rightarrow> consensus_params" where
  "default_for_participants ev n =
     (let parsed = Option.bind (ev ''CONSENSUS_ACTIVE_SLOT_COEFF'') parse_f64;
          valid = (case parsed of
                     None \<Rightarrow> None
                   | Some v \<Rightarrow>
                       if f64_le (Fin 0) v \<and> f64_le v (Fin 1) \<and> f64_less (Fin 0) v then Some v
                       else None)
      in \<lparr>cp_n_participants = n,
          cp_security_param = 10,
          cp_active_slot_coeff =
            (case valid of None \<Rightarrow> default_active_slot_coeff | Some v \<Rightarrow> v)\<rparr>)"

record epoch_config =
  ec_stake_distribution_stabilization :: nat
  ec_period_nonce_buffer :: nat
  ec_period_nonce_stabilization :: nat

record engine_config =
  eng_security_param :: nat
  eng_active_slot_coeff :: f64

record service_parameters =
  sp_lock_period :: nat
  sp_inactivity_period :: nat
  sp_retention_period :: nat
  sp_timestamp :: nat
  sp_session_duration :: nat

record blend_rewards =
  br_rounds_per_session :: nat
  br_message_frequency_per_round :: f64
  br_num_blend_layers :: nat
  br_minimum_network_size :: nat

record sdp_config =
  sdp_service_params :: "(service_type \<times> service_parameters) list"
  sdp_min_stake_threshold :: nat
  sdp_min_stake_timestamp :: nat
  sdp_blend_rewards :: blend_rewards

record ledger_config =
  lc_epoch_config :: epoch_config
  lc_consensus_config :: engine_config
  lc_sdp_config :: sdp_config

definition build_ledger_config ::
  "crypto \<Rightarrow> consensus_params \<Rightarrow> consensus_config_error + ledger_config" where
  "build_ledger_config cr params =
     (case cr_nonneg_f64 cr (Fin 1) of
        None \<Rightarrow> Err (LedgerConfigError ''message_frequency_per_round must be non-negative'')
      | Some freq \<Rightarrow>
          Ok \<lparr>lc_epoch_config =
                \<lparr>ec_stake_distribution_stabilization = 3,
                 ec_period_nonce_buffer = 3,
                 ec_period_nonce_stabilization = 4\<rparr>,
              lc_consensus_config =
                \<lparr>eng_security_param = cp_security_param params,
                 eng_active_slot_coeff = cp_active_slot_coeff params\<rparr>,
              lc_sdp_config =
                \<lparr>sdp_service_params =
                   [(BlendNetwork,
                     \<lparr>sp_lock_period = 10, sp_inactivity_period = 20, sp_retention_period = 100,
                      sp_timestamp = 0, sp_session_duration = 1000\<rparr>)],
                 sdp_min_stake_threshold = 1,
                 sdp_min_stake_timestamp = 0,
                 sdp_blend_rewards =
                   \<lparr>br_rounds_per_session = 10, br_message_frequency_per_round = freq,
                    br_num_blend_layers = 3, br_minimum_network_size = 1\<rparr>\<rparr>\<rparr>)"

section \<open>Funded outputs\<close>

record service_note =
  sn_pk :: zk_pk
  sn_sk :: zk_key
  sn_note :: ledger_note
  sn_output_index :: nat

record provider_info =
  pi_service_type :: service_type
  pi_provider_sk :: ed_key
  pi_zk_sk :: zk_key
  pi_locator :: multiaddr
  pi_note :: service_note

definition provider_id :: "crypto \<Rightarrow> provider_info \<Rightarrow> ed_pk" where
  "provider_id cr p = cr_ed_pk cr (pi_provider_sk p)"

definition provider_zk_id :: "crypto \<Rightarrow> provider_info \<Rightarrow> zk_pk" where
  "provider_zk_id cr p = cr_zk_pk cr (pi_zk_sk p)"

record general_consensus_config =
  gcc_leader_pk :: zk_pk
  gcc_leader_sk :: zk_key
  gcc_ledger_config :: ledger_config
  gcc_genesis_tx :: genesis_tx
  gcc_utxos :: "utxo list"
  gcc_blend_notes :: "service_note list"
  gcc_wallet_accounts :: "wallet_account list"
  gcc_funding_sk :: zk_key

definition prefix_ld :: "u8 list" where "prefix_ld = [108, 100]"
definition prefix_bn :: "u8 list" where "prefix_bn = [98, 110]"
definition prefix_sdp :: "u8 list" where "prefix_sdp = [115, 100, 112]"

definition derive_key_material :: "u8 list \<Rightarrow> node_id \<Rightarrow> u8 list" where
  "derive_key_material pre id_bytes = pre @ take (16 - length pre) id_bytes"

definition genesis_utxo :: "ledger_note \<Rightarrow> utxo" where
  "genesis_utxo n = \<lparr>utxo_tx_hash = 0, utxo_output_index = 0, utxo_note = n\<rparr>"

definition push_leader_utxo ::
  "crypto \<Rightarrow> node_id \<Rightarrow> (zk_pk \<times> zk_key) list \<Rightarrow> utxo list \<Rightarrow> nat \<Rightarrow>
   (zk_pk \<times> zk_key) list \<times> utxo list \<times> nat" where
  "push_leader_utxo cr nid leader_keys utxos output_index =
     (let sk = cr_zk_from cr (le_nat (derive_key_material prefix_ld nid));
          pk = cr_zk_pk cr sk
      in (leader_keys @ [(pk, sk)],
          utxos @ [genesis_utxo \<lparr>note_value = 1000, note_pk = pk\<rparr>],
          output_index + 1))"

definition push_service_note ::
  "crypto \<Rightarrow> u8 list \<Rightarrow> node_id \<Rightarrow> service_note list \<Rightarrow> utxo list \<Rightarrow> nat \<Rightarrow>
   service_note list \<times> utxo list \<times> nat" where
  "push_service_note cr pre nid notes utxos output_index =
     (let sk = cr_zk_from cr (le_nat (derive_key_material pre nid));
          pk = cr_zk_pk cr sk;
          n = \<lparr>note_value = 1, note_pk = pk\<rparr>
      in (notes @ [\<lparr>sn_pk = pk, sn_sk = sk, sn_note = n, sn_output_index = output_index\<rparr>],
          utxos @ [genesis_utxo n],
          output_index + 1))"

record genesis_notes =
  gn_leader_keys :: "(zk_pk \<times> zk_key) list"
  gn_blend_notes :: "service_note list"
  gn_sdp_notes :: "service_note list"
  gn_utxos :: "utxo list"
  gn_output_index :: nat

definition push_node_notes :: "crypto \<Rightarrow> node_id \<Rightarrow> genesis_notes \<Rightarrow> genesis_notes" where
  "push_node_notes cr nid g =
     (let (lk, us1, i1) = push_leader_utxo cr nid (gn_leader_keys g) (gn_utxos g) (gn_output_index g);
          (bn, us2, i2) = push_service_note cr prefix_bn nid (gn_blend_notes g) us1 i1;
          (sn, us3, i3) = push_service_note cr prefix_sdp nid (gn_sdp_notes g) us2 i2
      in \<lparr>gn_leader_keys = lk, gn_blend_notes = bn, gn_sdp_notes = sn, gn_utxos = us3,
          gn_output_index = i3\<rparr>)"

definition no_notes :: genesis_notes where
  "no_notes = \<lparr>gn_leader_keys = [], gn_blend_notes = [], gn_sdp_notes = [], gn_utxos = [],
               gn_output_index = 0\<rparr>"

definition create_utxos_for_leader_and_services :: "crypto \<Rightarrow> node_id list \<Rightarrow> genesis_notes" where
  "create_utxos_for_leader_and_services cr ids = fold (push_node_notes cr) ids no_notes"

definition append_wallet_utxos :: "crypto \<Rightarrow> utxo list \<Rightarrow> wallet_config \<Rightarrow> utxo list" where
  "append_wallet_utxos cr utxos wallet =
     fold (\<lambda>a us. us @ [genesis_utxo \<lparr>note_value = wa_value a,
                                   note_pk = wallet_public_key (cr_zk_pk cr) a\<rparr>])
       (wc_accounts wallet) utxos"

section \<open>The genesis transaction\<close>

definition build_genesis_inscription :: "crypto \<Rightarrow> consensus_config_error + inscription_op" where
  "build_genesis_inscription cr =
     and_then (map_err InscriptionSigner (cr_ed_pk_from_bytes cr (replicate 32 0))) (\<lambda>signer.
       Ok \<lparr>ins_channel_id = replicate 32 0,
           ins_inscription = [103, 101, 110, 101, 115, 105, 115],
           ins_parent = cr_msg_root cr,
           ins_signer = signer\<rparr>)"

definition build_genesis_tx ::
  "crypto \<Rightarrow> mantle_tx \<Rightarrow> op_proof list \<Rightarrow> consensus_config_error + genesis_tx" where
  "build_genesis_tx cr mtx proofs =
     map_err GenesisTxError
       (cr_genesis_from_tx cr
          \<lparr>smt_mantle_tx = mtx, smt_ops_proofs = proofs, smt_ledger_tx_proof = replicate 128 0\<rparr>)"

definition create_genesis_tx :: "crypto \<Rightarrow> utxo list \<Rightarrow> consensus_config_error + genesis_tx" where
  "create_genesis_tx cr utxos =
     and_then (build_genesis_inscription cr) (\<lambda>inscription.
       build_genesis_tx cr
         \<lparr>mtx_ops = [ChannelInscribe inscription],
          mtx_ledger_tx = \<lparr>ltx_inputs = [], ltx_outputs = map utxo_note utxos\<rparr>,
          mtx_execution_gas_price = 0,
          mtx_storage_gas_price = 0\<rparr>
         [NoProof])"

definition create_consensus_configs ::
  "crypto \<Rightarrow> node_id list \<Rightarrow> consensus_params \<Rightarrow> wallet_config \<Rightarrow>
   consensus_config_error + general_consensus_config list" where
  "create_consensus_configs cr ids params wallet =
     (let g = create_utxos_for_leader_and_services cr ids;
          utxos = append_wallet_utxos cr (gn_utxos g) wallet
      in and_then (create_genesis_tx cr utxos) (\<lambda>genesis.
         and_then (build_ledger_config cr params) (\<lambda>ledger.
           Ok (map (\<lambda>(i, pk, sk).
                 \<lparr>gcc_leader_pk = pk, gcc_leader_sk = sk,
                  gcc_ledger_config = ledger,
                  gcc_genesis_tx = genesis,
                  gcc_utxos = utxos,
                  gcc_blend_notes = gn_blend_notes g,
                  gcc_wallet_accounts = wc_accounts wallet,
                  gcc_funding_sk = sn_sk (gn_sdp_notes g ! i)\<rparr>)
               (enumerate 0 (gn_leader_keys g))))))"

definition declaration_for :: "crypto \<Rightarrow> tx_hash \<Rightarrow> provider_info \<Rightarrow> declaration_message" where
  "declaration_for cr h p =
     \<lparr>dm_service_type = pi_service_type p,
      dm_locators = [pi_locator p],
      dm_provider_id = provider_id cr p,
      dm_zk_id = provider_zk_id cr p,
      dm_locked_note_id =
        cr_utxo_id cr \<lparr>utxo_tx_hash = h, utxo_output_index = sn_output_index (pi_note p),
                       utxo_note = sn_note (pi_note p)\<rparr>\<rparr>"

definition build_genesis_ops ::
  "crypto \<Rightarrow> inscription_op \<Rightarrow> tx_hash \<Rightarrow> provider_info list \<Rightarrow> mantle_op list" where
  "build_genesis_ops cr inscription h providers =
     ChannelInscribe inscription # map (\<lambda>p. SDPDeclare (declaration_for cr h p)) providers"

definition build_genesis_ops_proofs ::
  "crypto \<Rightarrow> tx_hash \<Rightarrow> provider_info list \<Rightarrow> consensus_config_error + op_proof list" where
  "build_genesis_ops_proofs cr h providers =
     and_then
       (collect_results (\<lambda>p.
          and_then (map_err DeclarationSignature
                      (cr_multi_sign cr [sn_sk (pi_note p), pi_zk_sk p] h)) (\<lambda>zk_sig.
            Ok (ZkAndEd25519Sigs zk_sig (cr_ed_sign cr (pi_provider_sk p) h)))) providers)
       (\<lambda>ps. Ok (NoProof # ps))"

definition create_genesis_tx_with_declarations ::
  "crypto \<Rightarrow> ledger_tx \<Rightarrow> provider_info list \<Rightarrow> consensus_config_error + genesis_tx" where
  "create_genesis_tx_with_declarations cr ltx providers =
     and_then (build_genesis_inscription cr) (\<lambda>inscription.
       let mtx = \<lparr>mtx_ops = build_genesis_ops cr inscription (cr_ledger_hash cr ltx) providers,
                  mtx_ledger_tx = ltx,
                  mtx_execution_gas_price = 0,
                  mtx_storage_gas_price = 0\<rparr>
       in and_then (build_genesis_ops_proofs cr (cr_mantle_hash cr mtx) providers)
            (\<lambda>proofs. build_genesis_tx cr mtx proofs))"

section \<open>Closed forms\<close>

definition role_key :: "crypto \<Rightarrow> u8 list \<Rightarrow> node_id \<Rightarrow> zk_key" where
  "role_key cr pre nid = cr_zk_from cr (le_nat (derive_key_material pre nid))"

definition role_pk :: "crypto \<Rightarrow> u8 list \<Rightarrow> node_id \<Rightarrow> zk_pk" where
  "role_pk cr pre nid = cr_zk_pk cr (role_key cr pre nid)"

definition role_note :: "crypto \<Rightarrow> u8 list \<Rightarrow> nat \<Rightarrow> node_id \<Rightarrow> ledger_note" where
  "role_note cr pre v nid = \<lparr>note_value = v, note_pk = role_pk cr pre nid\<rparr>"

definition service_note_at :: "crypto \<Rightarrow> u8 list \<Rightarrow> nat \<Rightarrow> node_id \<Rightarrow> service_note" where
  "service_note_at cr pre k nid =
     \<lparr>sn_pk = role_pk cr pre nid, sn_sk = role_key cr pre nid, sn_note = role_note cr pre 1 nid,
      sn_output_index = k\<rparr>"

definition node_notes :: "crypto \<Rightarrow> node_id \<Rightarrow> ledger_note list" where
  "node_notes cr nid =
     [role_note cr prefix_ld 1000 nid, role_note cr prefix_bn 1 nid, role_note cr prefix_sdp 1 nid]"

lemma push_node_notes_eq:
  "push_node_notes cr nid g =
     \<lparr>gn_leader_keys = gn_leader_keys g @ [(role_pk cr prefix_ld nid, role_key cr prefix_ld nid)],
      gn_blend_notes = gn_blend_notes g @ [service_note_at cr prefix_bn (gn_output_index g + 1) nid],
      gn_sdp_notes = gn_sdp_notes g @ [service_note_at cr prefix_sdp (gn_output_index g + 2) nid],
      gn_utxos = gn_utxos g @ map genesis_utxo (node_notes cr nid),
      gn_output_index = gn_output_index g + 3\<rparr>"
  by (simp add: push_node_notes_def push_leader_utxo_def push_service_note_def Let_def
      role_key_def role_pk_def role_note_def service_note_at_def node_notes_def)

lemma push_all_notes:
  assumes "gn_output_index g = 3 * k"
  shows "fold (push_node_notes cr) ids g =
     \<lparr>gn_leader_keys =
        gn_leader_keys g @ map (\<lambda>nid. (role_pk cr prefix_ld nid, role_key cr prefix_ld nid)) ids,
      gn_blend_notes =
        gn_blend_notes g @ map (\<lambda>(i, nid). service_note_at cr prefix_bn (3 * i + 1) nid) (enumerate k ids),
      gn_sdp_notes =
        gn_sdp_notes g @ map (\<lambda>(i, nid). service_note_at cr prefix_sdp (3 * i + 2) nid) (enumerate k ids),
      gn_utxos = gn_utxos g @ concat (map (\<lambda>nid. map genesis_utxo (node_notes cr nid)) ids),
      gn_output_index = 3 * (k + length ids)\<rparr>"
  using assms
proof (induction ids arbitrary: g k)
  case (Cons nid ids)
  have "gn_output_index (push_node_notes cr nid g) = 3 * Suc k"
    using Cons.prems by (simp add: push_node_notes_eq)
  from Cons.IH [OF this] Cons.prems show ?case by (simp add: push_node_notes_eq)
qed simp

lemma create_utxos_eq:
  "create_utxos_for_leader_and_services cr ids =
     \<lparr>gn_leader_keys = map (\<lambda>nid. (role_pk cr prefix_ld nid, role_key cr prefix_ld nid)) ids,
      gn_blend_notes = map (\<lambda>(i, nid). service_note_at cr prefix_bn (3 * i + 1) nid) (enumerate 0 ids),
      gn_sdp_notes = map (\<lambda>(i, nid). service_note_at cr prefix_sdp (3 * i + 2) nid) (enumerate 0 ids),
      gn_utxos = concat (map (\<lambda>nid. map genesis_utxo (node_notes cr nid)) ids),
      gn_output_index = 3 * length ids\<rparr>"
  using push_all_notes [of no_notes 0 cr ids]
  by (simp add: create_utxos_for_leader_and_services_def no_notes_def)

lemma append_wallet_utxos_eq:
  "append_wallet_utxos cr us wallet =
     us @ map (\<lambda>a. genesis_utxo \<lparr>note_value = wa_value a, note_pk = wallet_public_key (cr_zk_pk cr) a\<rparr>)
            (wc_accounts wallet)"
proof -
  have "fold (\<lambda>a us. us @ [f a]) as us = us @ map f as" for f :: "wallet_account \<Rightarrow> utxo" and as us
    by (induction as arbitrary: us) auto
  then show ?thesis by (simp add: append_wallet_utxos_def)
qed

lemma genesis_utxo_note [simp]: "utxo_note (genesis_utxo n) = n"
  by (simp add: genesis_utxo_def)

text \<open>The outputs of the genesis ledger transaction, as a function of the inputs.\<close>

definition genesis_outputs :: "crypto \<Rightarrow> node_id list \<Rightarrow> wallet_config \<Rightarrow> ledger_note list" where
  "genesis_outputs cr ids wallet =
     concat (map (node_notes cr) ids) @
     map (\<lambda>a. \<lparr>note_value = wa_value a, note_pk = wallet_public_key (cr_zk_pk cr) a\<rparr>) (wc_accounts wallet)"

definition genesis_utxos :: "crypto \<Rightarrow> node_id list \<Rightarrow> wallet_config \<Rightarrow> utxo list" where
  "genesis_utxos cr ids wallet = map genesis_utxo (genesis_outputs cr ids wallet)"

lemma genesis_utxos_eq:
  "append_wallet_utxos cr (gn_utxos (create_utxos_for_leader_and_services cr ids)) wallet =
     genesis_utxos cr ids wallet"
  by (simp add: genesis_utxos_def create_utxos_eq append_wallet_utxos_eq genesis_outputs_def
      map_concat comp_def)

lemma notes_of_genesis_utxos [simp]:
  "map utxo_note (genesis_utxos cr ids wallet) = genesis_outputs cr ids wallet"
  by (simp add: genesis_utxos_def comp_def)

lemma concat_chunks_nth:
  assumes "\<And>x. length (f x) = m" "i < length xs" "j < m"
  shows "concat (map f xs) ! (m * i + j) = f (xs ! i) ! j \<and> m * i + j < length (concat (map f xs))"
  using assms(2)
proof (induction xs arbitrary: i)
  case (Cons x xs)
  show ?case
  proof (cases i)
    case 0
    with assms(1,3) show ?thesis by (simp add: nth_append)
  next
    case (Suc k)
    with Cons.prems have "k < length xs" by simp
    from Cons.IH [OF this] Suc assms(1) show ?thesis by (simp add: nth_append)
  qed
qed simp

lemma length_node_notes [simp]: "length (node_notes cr nid) = 3"
  by (simp add: node_notes_def)

lemma genesis_output_at:
  assumes "i < length ids" "j < 3"
  shows "3 * i + j < length (genesis_outputs cr ids wallet)"
    and "genesis_outputs cr ids wallet ! (3 * i + j) = node_notes cr (ids ! i) ! j"
  using concat_chunks_nth [of "node_notes cr" 3 i ids j] assms
  by (simp_all add: genesis_outputs_def nth_append)

lemma enumerate_0_map: "map f (enumerate 0 xs) = map (\<lambda>i. f (i, xs ! i)) [0..<length xs]"
  by (intro nth_equalityI) (simp_all add: nth_enumerate_eq)

lemma create_consensus_configs_Ok:
  assumes "create_consensus_configs cr ids params wallet = Ok cs"
  obtains g l where
    "create_genesis_tx cr (genesis_utxos cr ids wallet) = Ok g"
    "build_ledger_config cr params = Ok l"
    "cs = map (\<lambda>i. \<lparr>gcc_leader_pk = role_pk cr prefix_ld (ids ! i),
                    gcc_leader_sk = role_key cr prefix_ld (ids ! i),
                    gcc_ledger_config = l, gcc_genesis_tx = g,
                    gcc_utxos = genesis_utxos cr ids wallet,
                    gcc_blend_notes = map (\<lambda>i. service_note_at cr prefix_bn (3 * i + 1) (ids ! i)) [0..<length ids],
                    gcc_wallet_accounts = wc_accounts wallet,
                    gcc_funding_sk = role_key cr prefix_sdp (ids ! i)\<rparr>) [0..<length ids]"
  using assms
  by (auto simp: create_consensus_configs_def Let_def result_iffs genesis_utxos_eq)
     (simp add: create_utxos_eq enumerate_0_map service_note_at_def)

text \<open>
  What the framework relies on from the node crates: a genesis transaction wraps the transaction
  it was built from, and secret keys made from different numbers below \<open>256 ^ 16\<close> (far below the
  scalar field) differ.
\<close>

definition genesis_wraps :: "crypto \<Rightarrow> bool" where
  "genesis_wraps cr \<longleftrightarrow>
     (\<forall>s g. cr_genesis_from_tx cr s = Ok g \<longrightarrow> cr_genesis_mantle_tx cr g = smt_mantle_tx s)"

definition zk_from_small_inj :: "crypto \<Rightarrow> bool" where
  "zk_from_small_inj cr \<longleftrightarrow> inj_on (cr_zk_from cr) {..<256 ^ 16}"

lemma create_genesis_tx_outputs:
  assumes "genesis_wraps cr" "create_genesis_tx cr us = Ok g"
  shows "mtx_ledger_tx (cr_genesis_mantle_tx cr g) = \<lparr>ltx_inputs = [], ltx_outputs = map utxo_note us\<rparr>"
  using assms by (auto simp: create_genesis_tx_def build_genesis_tx_def genesis_wraps_def result_iffs)

lemma create_genesis_tx_with_declarations_Ok:
  assumes "genesis_wraps cr" "create_genesis_tx_with_declarations cr ltx ps = Ok g"
  obtains ins proofs where
    "build_genesis_inscription cr = Ok ins"
    "cr_genesis_mantle_tx cr g =
       \<lparr>mtx_ops = build_genesis_ops cr ins (cr_ledger_hash cr ltx) ps, mtx_ledger_tx = ltx,
        mtx_execution_gas_price = 0, mtx_storage_gas_price = 0\<rparr>"
    "build_genesis_ops_proofs cr (cr_mantle_hash cr (cr_genesis_mantle_tx cr g)) ps = Ok proofs"
    "cr_genesis_from_tx cr \<lparr>smt_mantle_tx = cr_genesis_mantle_tx cr g, smt_ops_proofs = proofs,
       smt_ledger_tx_proof = replicate 128 0\<rparr> = Ok g"
proof -
  from assms(2) obtain ins proofs where ins: "build_genesis_inscription cr = Ok ins"
    and pr: "build_genesis_ops_proofs cr (cr_mantle_hash cr
        \<lparr>mtx_ops = build_genesis_ops cr ins (cr_ledger_hash cr ltx) ps, mtx_ledger_tx = ltx,
         mtx_execution_gas_price = 0, mtx_storage_gas_price = 0\<rparr>) ps = Ok proofs"
    and tx: "cr_genesis_from_tx cr
        \<lparr>smt_mantle_tx = \<lparr>mtx_ops = build_genesis_ops cr ins (cr_ledger_hash cr ltx) ps, mtx_ledger_tx = ltx,
         mtx_execution_gas_price = 0, mtx_storage_gas_price = 0\<rparr>, smt_ops_proofs = proofs,
         smt_ledger_tx_proof = replicate 128 0\<rparr> = Ok g"
    by (auto simp: create_genesis_tx_with_declarations_def build_genesis_tx_def result_iffs Let_def)
  from tx assms(1) have "cr_genesis_mantle_tx cr g =
       \<lparr>mtx_ops = build_genesis_ops cr ins (cr_ledger_hash cr ltx) ps, mtx_ledger_tx = ltx,
        mtx_execution_gas_price = 0, mtx_storage_gas_price = 0\<rparr>"
    unfolding genesis_wraps_def by fastforce
  with ins pr tx that show ?thesis by simp
qed

lemma build_genesis_ops_nth:
  "i < length ps \<Longrightarrow> build_genesis_ops cr ins h ps ! Suc i = SDPDeclare (declaration_for cr h (ps ! i))"
  by (simp add: build_genesis_ops_def)

lemma length_build_genesis_ops [simp]: "length (build_genesis_ops cr ins h ps) = Suc (length ps)"
  by (simp add: build_genesis_ops_def)

lemma blend_note_output:
  assumes "create_consensus_configs cr ids params wallet = Ok cs" "c \<in> set cs"
    and "sn \<in> set (gcc_blend_notes c)"
  shows "sn_output_index sn < length (genesis_outputs cr ids wallet)"
    and "genesis_outputs cr ids wallet ! sn_output_index sn = sn_note sn"
    and "note_pk (sn_note sn) = cr_zk_pk cr (sn_sk sn)"
proof -
  obtain i where "i < length ids" "sn = service_note_at cr prefix_bn (3 * i + 1) (ids ! i)"
    using assms by (auto elim!: create_consensus_configs_Ok)
  then show "sn_output_index sn < length (genesis_outputs cr ids wallet)"
    "genesis_outputs cr ids wallet ! sn_output_index sn = sn_note sn"
    "note_pk (sn_note sn) = cr_zk_pk cr (sn_sk sn)"
    using genesis_output_at [of i ids 1 cr wallet]
    by (simp_all add: service_note_at_def node_notes_def role_note_def role_pk_def)
qed

lemma consensus_genesis_outputs:
  assumes "genesis_wraps cr" "create_consensus_configs cr ids params wallet = Ok cs" "c \<in> set cs"
  shows "mtx_ledger_tx (cr_genesis_mantle_tx cr (gcc_genesis_tx c)) =
    \<lparr>ltx_inputs = [], ltx_outputs = genesis_outputs cr ids wallet\<rparr>"
proof -
  from assms(2,3) have "create_genesis_tx cr (genesis_utxos cr ids wallet) = Ok (gcc_genesis_tx c)"
    by (auto elim!: create_consensus_configs_Ok)
  from create_genesis_tx_outputs [OF assms(1) this] show ?thesis by simp
qed

lemma sum_node_notes: "sum_list (map note_value (concat (map (node_notes cr) ids))) = 1002 * length ids"
  by (induction ids) (auto simp: node_notes_def role_note_def)

lemma sum_genesis_outputs:
  "sum_list (map note_value (genesis_outputs cr ids wallet)) =
     1002 * length ids + sum_list (map wa_value (wc_accounts wallet))"
  unfolding genesis_outputs_def map_append sum_list_append sum_node_notes by (simp add: comp_def)

lemma length_derive_key_material:
  "length nid = 32 \<Longrightarrow> length pre \<le> 16 \<Longrightarrow> length (derive_key_material pre nid) = 16"
  by (simp add: derive_key_material_def)

definition roles :: "u8 list set" where
  "roles = {prefix_ld, prefix_bn, prefix_sdp}"

lemma role_length: "pre \<in> roles \<Longrightarrow> length pre \<le> 16"
  by (auto simp: roles_def prefix_ld_def prefix_bn_def prefix_sdp_def)

lemma derive_key_material_eq:
  assumes "pre \<in> roles" "pre' \<in> roles" "derive_key_material pre x = derive_key_material pre' y"
  shows "pre = pre' \<and> take (16 - length pre) x = take (16 - length pre) y"
  using assms
  by (auto simp: roles_def derive_key_material_def prefix_ld_def prefix_bn_def prefix_sdp_def)

text \<open>
  The declarations of a genesis transaction lock outputs that exist.  Take the consensus
  configurations of any node set, and providers whose notes are among the blend notes recorded
  there: operation \<open>i + 1\<close> of the transaction with declarations declares provider \<open>i\<close>, and the note
  it locks is the output of this very ledger transaction at the recorded index, owned by the
  note's secret key.
\<close>

lemma genesis_declarations_lock_outputs:
  assumes "genesis_wraps cr"
    and "create_consensus_configs cr ids params wallet = Ok cs" "c \<in> set cs"
    and "list_all (\<lambda>p. pi_note p \<in> set (gcc_blend_notes c)) ps"
    and "create_genesis_tx_with_declarations cr
           (mtx_ledger_tx (cr_genesis_mantle_tx cr (gcc_genesis_tx c))) ps = Ok g"
  shows "let mtx = cr_genesis_mantle_tx cr g; outs = ltx_outputs (mtx_ledger_tx mtx) in
     length (mtx_ops mtx) = Suc (length ps) \<and>
     (\<forall>i < length ps. \<exists>d k. mtx_ops mtx ! Suc i = SDPDeclare d \<and>
        dm_provider_id d = provider_id cr (ps ! i) \<and> dm_zk_id d = provider_zk_id cr (ps ! i) \<and>
        dm_locators d = [pi_locator (ps ! i)] \<and>
        k < length outs \<and> note_pk (outs ! k) = cr_zk_pk cr (sn_sk (pi_note (ps ! i))) \<and>
        dm_locked_note_id d =
          cr_utxo_id cr \<lparr>utxo_tx_hash = cr_ledger_hash cr (mtx_ledger_tx mtx),
                         utxo_output_index = k, utxo_note = outs ! k\<rparr>)"
proof -
  let ?ltx = "\<lparr>ltx_inputs = [], ltx_outputs = genesis_outputs cr ids wallet\<rparr>"
  note ltx = consensus_genesis_outputs [OF assms(1-3)]
  obtain ins proofs where mtx: "cr_genesis_mantle_tx cr g =
       \<lparr>mtx_ops = build_genesis_ops cr ins (cr_ledger_hash cr ?ltx) ps, mtx_ledger_tx = ?ltx,
        mtx_execution_gas_price = 0, mtx_storage_gas_price = 0\<rparr>"
    using create_genesis_tx_with_declarations_Ok [OF assms(1) assms(5)[unfolded ltx]] by metis
  have "\<exists>d k. mtx_ops (cr_genesis_mantle_tx cr g) ! Suc i = SDPDeclare d \<and>
        dm_provider_id d = provider_id cr (ps ! i) \<and> dm_zk_id d = provider_zk_id cr (ps ! i) \<and>
        dm_locators d = [pi_locator (ps ! i)] \<and>
        k < length (genesis_outputs cr ids wallet) \<and>
        note_pk (genesis_outputs cr ids wallet ! k) = cr_zk_pk cr (sn_sk (pi_note (ps ! i))) \<and>
        dm_locked_note_id d =
          cr_utxo_id cr \<lparr>utxo_tx_hash = cr_ledger_hash cr ?ltx,
                         utxo_output_index = k, utxo_note = genesis_outputs cr ids wallet ! k\<rparr>"
    if i: "i < length ps" for i
  proof -
    have "pi_note (ps ! i) \<in> set (gcc_blend_notes c)" using assms(4) i by (simp add: list_all_length)
    note out = blend_note_output [OF assms(2,3) this]
    show ?thesis
      by (rule exI [of _ "declaration_for cr (cr_ledger_hash cr ?ltx) (ps ! i)"],
          rule exI [of _ "sn_output_index (pi_note (ps ! i))"])
        (use i out in \<open>simp add: mtx build_genesis_ops_nth declaration_for_def\<close>)
  qed
  then show ?thesis by (simp add: Let_def mtx)
qed

definition demo_crypto :: crypto where
  "demo_crypto =
     \<lparr>cr_zk_from = (\<lambda>n. n), cr_zk_pk = (\<lambda>k. k + 1), cr_zk_pk_bytes = (\<lambda>n. le_bytes 32 n),
      cr_ed_from_bytes = le_nat, cr_ed_pk = (\<lambda>k. k), cr_ed_pk_bytes = (\<lambda>n. le_bytes 32 n),
      cr_ed_pk_from_bytes = (\<lambda>bs. Ok (le_nat bs)),
      cr_utxo_id = utxo_output_index, cr_ledger_hash = (\<lambda>t. length (ltx_outputs t)),
      cr_mantle_hash = (\<lambda>t. length (mtx_ops t)),
      cr_multi_sign = (\<lambda>ks h. Ok (sum_list ks + h)), cr_ed_sign = (\<lambda>k h. k + h),
      cr_genesis_from_tx = Ok, cr_genesis_mantle_tx = smt_mantle_tx,
      cr_nonneg_f64 = Some, cr_hex = map (\<lambda>b. char_of (unat b)), cr_msg_root = []\<rparr>"

definition demo_ids :: "node_id list" where
  "demo_ids = [replicate 32 1, replicate 32 2]"

definition demo_params :: consensus_params where
  "demo_params = \<lparr>cp_n_participants = 2, cp_security_param = 10, cp_active_slot_coeff = Fin 1\<rparr>"

lemma demo_crypto_sel [simp]:
  "cr_zk_from demo_crypto n = n" "cr_zk_pk demo_crypto n = n + 1"
  "cr_ed_pk demo_crypto n = n"
  "cr_ed_pk_from_bytes demo_crypto bs = Ok (le_nat bs)"
  "cr_utxo_id demo_crypto u = utxo_output_index u"
  "cr_multi_sign demo_crypto ks h = Ok (sum_list ks + h)"
  "cr_genesis_from_tx demo_crypto t = Ok t" "cr_genesis_mantle_tx demo_crypto t = smt_mantle_tx t"
  "cr_nonneg_f64 demo_crypto x = Some x"
  by (simp_all add: demo_crypto_def)

lemma demo_crypto_laws [simp]: "genesis_wraps demo_crypto" "zk_from_small_inj demo_crypto"
  by (simp_all add: genesis_wraps_def zk_from_small_inj_def inj_on_def)

lemma demo_consensus_Ok:
  "\<exists>c cs. create_consensus_configs demo_crypto demo_ids demo_params wallet_config_default = Ok (c # cs) \<and>
     gcc_blend_notes c = map (\<lambda>i. service_note_at demo_crypto prefix_bn (3 * i + 1) (demo_ids ! i)) [0..<2]"
  by (simp add: create_consensus_configs_def Let_def genesis_utxos_eq create_genesis_tx_def
      build_genesis_inscription_def build_genesis_tx_def build_ledger_config_def create_utxos_eq
      enumerate_0_map demo_ids_def upt_rec)

definition demo_provider :: "service_note \<Rightarrow> provider_info" where
  "demo_provider sn =
     \<lparr>pi_service_type = BlendNetwork, pi_provider_sk = 5, pi_zk_sk = 6,
      pi_locator = [Ip4 [127, 0, 0, 1], Udp 4000, QuicV1], pi_note = sn\<rparr>"

lemma demo_declarations_Ok:
  "\<exists>g. create_genesis_tx_with_declarations demo_crypto ltx [demo_provider sn] = Ok g"
  by (simp add: create_genesis_tx_with_declarations_def build_genesis_inscription_def Let_def
      build_genesis_ops_proofs_def build_genesis_tx_def)

section \<open>Properties\<close>

text \<open>
  Property C4.  Consensus configurations of a node set: one per identifier, in order, all with the
  same genesis transaction, outputs, ledger parameters, blend notes and wallet accounts.  The genesis
  transaction spends nothing and creates 1002 tokens per node plus the wallet balances; output
  \<open>3 i\<close> carries the leader stake of node \<open>i\<close> under the key of its own configuration, output
  \<open>3 i + 1\<close> is its blend note and output \<open>3 i + 2\<close> the note its funding key owns.
\<close>

theorem consensus_configs_agree:
  assumes "genesis_wraps cr" "create_consensus_configs cr ids params wallet = Ok cs"
  shows "length cs = length ids \<and>
    (\<forall>i < length ids.
       let c = cs ! i; ltx = mtx_ledger_tx (cr_genesis_mantle_tx cr (gcc_genesis_tx c));
           outs = ltx_outputs ltx in
       ltx_inputs ltx = [] \<and>
       outs = map utxo_note (gcc_utxos c) \<and>
       sum_list (map note_value outs) = 1002 * length ids + sum_list (map wa_value (wc_accounts wallet)) \<and>
       3 * i + 2 < length outs \<and>
       outs ! (3 * i) = \<lparr>note_value = 1000, note_pk = gcc_leader_pk c\<rparr> \<and>
       gcc_leader_pk c = cr_zk_pk cr (gcc_leader_sk c) \<and>
       outs ! (3 * i + 1) = sn_note (gcc_blend_notes c ! i) \<and>
       outs ! (3 * i + 2) = \<lparr>note_value = 1, note_pk = cr_zk_pk cr (gcc_funding_sk c)\<rparr> \<and>
       (\<forall>j < length ids. gcc_genesis_tx (cs ! j) = gcc_genesis_tx c \<and> gcc_utxos (cs ! j) = gcc_utxos c \<and>
          gcc_ledger_config (cs ! j) = gcc_ledger_config c \<and>
          gcc_blend_notes (cs ! j) = gcc_blend_notes c \<and>
          gcc_wallet_accounts (cs ! j) = wc_accounts wallet))"
proof -
  have len: "length cs = length ids" using assms(2) by (auto elim!: create_consensus_configs_Ok)
  have outs: "mtx_ledger_tx (cr_genesis_mantle_tx cr (gcc_genesis_tx (cs ! i))) =
      \<lparr>ltx_inputs = [], ltx_outputs = genesis_outputs cr ids wallet\<rparr>" if "i < length ids" for i
    using consensus_genesis_outputs [OF assms] that len by simp
  have at: "3 * i + 2 < length (genesis_outputs cr ids wallet) \<and>
      genesis_outputs cr ids wallet ! (3 * i) = role_note cr prefix_ld 1000 (ids ! i) \<and>
      genesis_outputs cr ids wallet ! (3 * i + 1) = role_note cr prefix_bn 1 (ids ! i) \<and>
      genesis_outputs cr ids wallet ! (3 * i + 2) = role_note cr prefix_sdp 1 (ids ! i)"
    if "i < length ids" for i
    using genesis_output_at [OF that, of 0 cr wallet] genesis_output_at [OF that, of 1 cr wallet]
      genesis_output_at [OF that, of 2 cr wallet]
    by (simp add: node_notes_def)
  show ?thesis
  proof (intro conjI len allI impI, goal_cases)
    case (1 i)
    from assms(2) show ?case
      by (rule create_consensus_configs_Ok)
        (use 1 outs [OF 1] at [OF 1] in \<open>simp add: Let_def sum_genesis_outputs role_note_def role_pk_def
           service_note_at_def\<close>)
  qed
qed

theorem consensus_configs_agree_witness:
  "\<exists>cs. create_consensus_configs demo_crypto demo_ids demo_params wallet_config_default = Ok cs \<and>
     length cs = 2 \<and> gcc_genesis_tx (cs ! 0) = gcc_genesis_tx (cs ! 1)"
proof -
  obtain c cs where ok: "create_consensus_configs demo_crypto demo_ids demo_params wallet_config_default = Ok (c # cs)"
    using demo_consensus_Ok by blast
  note agree = consensus_configs_agree [OF demo_crypto_laws(1) ok]
  have ids: "length demo_ids = 2" by (simp add: demo_ids_def)
  from agree have "length (c # cs) = 2" by (simp only: ids)
  moreover from agree ids have "gcc_genesis_tx ((c # cs) ! 0) = gcc_genesis_tx ((c # cs) ! 1)"
    unfolding Let_def by (metis one_less_numeral_iff semiring_norm(76) zero_less_numeral)
  ultimately show ?thesis using ok by blast
qed

text \<open>
  Keys of different roles never collide, and two nodes share the key of a role exactly
  when their identifiers agree on the bytes that fit after the role prefix: 14 for leader and blend
  notes, 13 for SDP notes.  The remaining bytes of an identifier do not influence its keys.
\<close>

theorem role_keys_separated:
  assumes "zk_from_small_inj cr" "pre \<in> roles" "pre' \<in> roles" "length x = 32" "length y = 32"
  shows "role_key cr pre x = role_key cr pre' y \<longleftrightarrow>
    pre = pre' \<and> take (16 - length pre) x = take (16 - length pre) y"
proof
  assume eq: "role_key cr pre x = role_key cr pre' y"
  have len: "length (derive_key_material pre x) = 16" "length (derive_key_material pre' y) = 16"
    using assms role_length by (simp_all add: length_derive_key_material)
  then have bnd: "le_nat (derive_key_material pre x) < 256 ^ 16" "le_nat (derive_key_material pre' y) < 256 ^ 16"
    using le_nat_less by metis+
  have "le_nat (derive_key_material pre x) = le_nat (derive_key_material pre' y)"
    by (rule inj_onD [OF assms(1) [unfolded zk_from_small_inj_def] eq [unfolded role_key_def]])
      (simp_all only: lessThan_iff bnd)
  then have "derive_key_material pre x = derive_key_material pre' y"
    using le_nat_inj len by metis
  then show "pre = pre' \<and> take (16 - length pre) x = take (16 - length pre) y"
    using derive_key_material_eq assms(2,3) by blast
qed (auto simp: role_key_def derive_key_material_def)

theorem role_keys_separated_witness:
  "role_key demo_crypto prefix_bn (replicate 32 7) \<noteq> role_key demo_crypto prefix_ld (replicate 32 7) \<and>
   role_key demo_crypto prefix_sdp (replicate 13 7 @ replicate 19 0) = role_key demo_crypto prefix_sdp (replicate 32 7)"
  using role_keys_separated [OF demo_crypto_laws(2), of prefix_bn prefix_ld "replicate 32 7" "replicate 32 7"]
    role_keys_separated [OF demo_crypto_laws(2), of prefix_sdp prefix_sdp "replicate 13 7 @ replicate 19 0" "replicate 32 7"]
  by (simp add: roles_def prefix_ld_def prefix_bn_def prefix_sdp_def)

text \<open>
  Operations and proofs of the declared genesis transaction stay aligned: there are as
  many proofs as operations, the inscription has none, and the proof of declaration \<open>i\<close> holds the
  signatures of provider \<open>i\<close>'s own keys over the hash of the final transaction.  Signing is the
  only step that depends on the providers, and its first failure is the error returned.
\<close>

theorem genesis_proofs_aligned:
  assumes "genesis_wraps cr" "create_genesis_tx_with_declarations cr ltx ps = Ok g"
  shows "\<exists>proofs. cr_genesis_from_tx cr \<lparr>smt_mantle_tx = cr_genesis_mantle_tx cr g, smt_ops_proofs = proofs,
         smt_ledger_tx_proof = replicate 128 0\<rparr> = Ok g \<and>
       length proofs = length (mtx_ops (cr_genesis_mantle_tx cr g)) \<and>
       mtx_ledger_tx (cr_genesis_mantle_tx cr g) = ltx \<and> proofs ! 0 = NoProof \<and>
       (\<forall>i < length ps. \<exists>z. proofs ! Suc i =
            ZkAndEd25519Sigs z (cr_ed_sign cr (pi_provider_sk (ps ! i)) (cr_mantle_hash cr (cr_genesis_mantle_tx cr g))) \<and>
          cr_multi_sign cr [sn_sk (pi_note (ps ! i)), pi_zk_sk (ps ! i)]
            (cr_mantle_hash cr (cr_genesis_mantle_tx cr g)) = Ok z)"
  using assms
proof (rule create_genesis_tx_with_declarations_Ok)
  fix ins proofs
  let ?m = "cr_genesis_mantle_tx cr g"
  assume m: "?m = \<lparr>mtx_ops = build_genesis_ops cr ins (cr_ledger_hash cr ltx) ps, mtx_ledger_tx = ltx,
        mtx_execution_gas_price = 0, mtx_storage_gas_price = 0\<rparr>"
    and pr: "build_genesis_ops_proofs cr (cr_mantle_hash cr ?m) ps = Ok proofs"
    and tx: "cr_genesis_from_tx cr \<lparr>smt_mantle_tx = ?m, smt_ops_proofs = proofs,
       smt_ledger_tx_proof = replicate 128 0\<rparr> = Ok g"
  from pr obtain qs where qs: "proofs = NoProof # qs"
    "collect_results (\<lambda>p. and_then (map_err DeclarationSignature
        (cr_multi_sign cr [sn_sk (pi_note p), pi_zk_sk p] (cr_mantle_hash cr ?m)))
        (\<lambda>zk_sig. Ok (ZkAndEd25519Sigs zk_sig (cr_ed_sign cr (pi_provider_sk p) (cr_mantle_hash cr ?m))))) ps = Ok qs"
    by (auto simp: build_genesis_ops_proofs_def result_iffs)
  have len: "length proofs = length (mtx_ops ?m)" "mtx_ledger_tx ?m = ltx"
    using collect_results_length [OF qs(2)] by (simp_all add: m qs(1))
  have "\<exists>z. proofs ! Suc i = ZkAndEd25519Sigs z (cr_ed_sign cr (pi_provider_sk (ps ! i)) (cr_mantle_hash cr ?m)) \<and>
          cr_multi_sign cr [sn_sk (pi_note (ps ! i)), pi_zk_sk (ps ! i)] (cr_mantle_hash cr ?m) = Ok z"
    if "i < length ps" for i
    using collect_results_nth [OF qs(2) that] by (auto simp: qs(1) result_iffs)
  with tx len show ?thesis by (intro exI [of _ proofs] conjI) (simp_all add: qs(1))
qed

theorem genesis_proofs_aligned_witness:
  "\<exists>g. create_genesis_tx_with_declarations demo_crypto \<lparr>ltx_inputs = [], ltx_outputs = []\<rparr>
      [demo_provider (service_note_at demo_crypto prefix_bn 1 (replicate 32 1))] = Ok g \<and>
     length (mtx_ops (cr_genesis_mantle_tx demo_crypto g)) = 2"
proof -
  obtain g where g: "create_genesis_tx_with_declarations demo_crypto \<lparr>ltx_inputs = [], ltx_outputs = []\<rparr>
      [demo_provider (service_note_at demo_crypto prefix_bn 1 (replicate 32 1))] = Ok g"
    using demo_declarations_Ok by blast
  from genesis_proofs_aligned [OF demo_crypto_laws(1) g] g show ?thesis
    by (auto simp: create_genesis_tx_with_declarations_def build_genesis_inscription_def Let_def
        build_genesis_ops_proofs_def build_genesis_tx_def)
qed

end
