(* ===== verification/Os_State.thy ===== *)
theory Os_State
  imports Prelude
begin

text \<open>
  Calls that consult the operating system: free-port queries, random bytes and the clock.  Each
  answers from a stream that the surroundings fix in advance, so every run of the code is one
  choice of streams, and a theorem over all streams covers all of them.  Code that can fail while
  consulting them has the type of a state and error monad; \<open>bind_os\<close> is its sequencing with
  \<^verbatim>\<open>?\<close> and \<open>collect_os\<close> the fallible \<^verbatim>\<open>collect\<close> that stops at the first error.
\<close>

record os =
  os_udp :: "nat \<Rightarrow> u16 option"
  os_udp_calls :: nat
  os_tcp :: "nat \<Rightarrow> u16 option"
  os_tcp_calls :: nat
  os_rng :: "nat \<Rightarrow> u8 list"
  os_rng_calls :: nat
  os_now :: nat

type_synonym ('e, 'a) os_result = "os \<Rightarrow> ('e + 'a) \<times> os"

definition get_available_udp_port :: "os \<Rightarrow> u16 option \<times> os" where
  "get_available_udp_port s =
     (os_udp s (os_udp_calls s), s\<lparr>os_udp_calls := os_udp_calls s + 1\<rparr>)"

definition get_available_tcp_port :: "os \<Rightarrow> u16 option \<times> os" where
  "get_available_tcp_port s =
     (os_tcp s (os_tcp_calls s), s\<lparr>os_tcp_calls := os_tcp_calls s + 1\<rparr>)"

text \<open>\<^verbatim>\<open>thread_rng().fill(&mut id)\<close> for a 32-byte identifier.\<close>

definition fill_id :: "os \<Rightarrow> node_id \<times> os" where
  "fill_id s = (os_rng s (os_rng_calls s), s\<lparr>os_rng_calls := os_rng_calls s + 1\<rparr>)"

definition bind_os :: "('e, 'a) os_result \<Rightarrow> ('a \<Rightarrow> ('e, 'b) os_result) \<Rightarrow> ('e, 'b) os_result" where
  "bind_os f g s = (case f s of (Inl e, s') \<Rightarrow> (Inl e, s') | (Inr x, s') \<Rightarrow> g x s')"

definition return_os :: "'e + 'a \<Rightarrow> ('e, 'a) os_result" where
  "return_os r s = (r, s)"

definition map_err_os :: "('e \<Rightarrow> 'f) \<Rightarrow> ('e, 'a) os_result \<Rightarrow> ('f, 'a) os_result" where
  "map_err_os h f s = (case f s of (r, s') \<Rightarrow> (map_err h r, s'))"

definition ok_or_os :: "'e \<Rightarrow> (os \<Rightarrow> 'a option \<times> os) \<Rightarrow> ('e, 'a) os_result" where
  "ok_or_os e f s = (case f s of (v, s') \<Rightarrow> (ok_or e v, s'))"

fun collect_os :: "('a \<Rightarrow> ('e, 'b) os_result) \<Rightarrow> 'a list \<Rightarrow> ('e, 'b list) os_result" where
  "collect_os f [] s = (Inr [], s)"
| "collect_os f (x # xs) s =
     bind_os (f x) (\<lambda>y. bind_os (collect_os f xs) (\<lambda>ys. return_os (Inr (y # ys)))) s"

named_theorems os_iffs \<open>inversions of the operating-system monad\<close>

lemma bind_os_Ok [os_iffs]:
  "bind_os f g s = (Inr y, s'') \<longleftrightarrow> (\<exists>x s'. f s = (Inr x, s') \<and> g x s' = (Inr y, s''))"
  by (auto simp: bind_os_def split: prod.splits sum.splits)

lemma bind_os_Err [os_iffs]:
  "bind_os f g s = (Inl e, s'') \<longleftrightarrow>
     f s = (Inl e, s'') \<or> (\<exists>x s'. f s = (Inr x, s') \<and> g x s' = (Inl e, s''))"
  by (auto simp: bind_os_def split: prod.splits sum.splits)

lemma return_os_eq [os_iffs]: "return_os r s = (r', s') \<longleftrightarrow> r = r' \<and> s = s'"
  by (auto simp: return_os_def)

lemma map_err_os_Ok [os_iffs]: "map_err_os h f s = (Inr x, s') \<longleftrightarrow> f s = (Inr x, s')"
  by (auto simp: map_err_os_def map_err_eq_Ok split: prod.splits)

lemma map_err_os_Err [os_iffs]:
  "map_err_os h f s = (Inl e, s') \<longleftrightarrow> (\<exists>e'. f s = (Inl e', s') \<and> e = h e')"
  by (auto simp: map_err_os_def map_err_eq_Err split: prod.splits)

lemma ok_or_os_Ok [os_iffs]: "ok_or_os e f s = (Inr x, s') \<longleftrightarrow> f s = (Some x, s')"
  by (auto simp: ok_or_os_def ok_or_eq_Ok split: prod.splits)

lemma collect_os_length: "collect_os f xs s = (Inr ys, s') \<Longrightarrow> length ys = length xs"
  by (induction xs arbitrary: s ys) (auto simp: os_iffs)

lemma collect_os_inv:
  assumes "collect_os f xs s = (Inr ys, s')"
    and "\<And>x y s s'. x \<in> set xs \<Longrightarrow> f x s = (Inr y, s') \<Longrightarrow> P x y"
  shows "list_all2 P xs ys"
  using assms
proof (induction xs arbitrary: s ys)
  case (Cons x xs)
  from Cons.prems(1) obtain y s1 zs where f: "f x s = (Inr y, s1)"
    "collect_os f xs s1 = (Inr zs, s')" "ys = y # zs"
    by (auto simp: os_iffs)
  have "list_all2 P xs zs"
    by (rule Cons.IH [OF f(2)]) (use Cons.prems(2) in auto)
  moreover have "P x y" using Cons.prems(2) [OF _ f(1)] by simp
  ultimately show ?case using f(3) by simp
qed simp

lemma collect_os_nth:
  assumes "collect_os f xs s = (Inr ys, s')" "i < length xs"
    and "\<And>x y s s'. x \<in> set xs \<Longrightarrow> f x s = (Inr y, s') \<Longrightarrow> P x y"
  shows "P (xs ! i) (ys ! i)"
proof -
  have "list_all2 P xs ys" using assms(1) by (rule collect_os_inv) (rule assms(3))
  from list_all2_nthD [OF this assms(2)] show ?thesis .
qed

text \<open>A system that never runs out of ports keeps answering, whatever is asked of it.\<close>

definition ports_available :: "os \<Rightarrow> bool" where
  "ports_available s \<longleftrightarrow> (\<forall>k. os_udp s k \<noteq> None) \<and> (\<forall>k. os_tcp s k \<noteq> None)"

definition succeeds :: "('e, 'a) os_result \<Rightarrow> bool" where
  "succeeds f \<longleftrightarrow> (\<forall>s. ports_available s \<longrightarrow> (\<exists>x s'. f s = (Inr x, s') \<and> ports_available s'))"

lemma succeeds_return [intro]: "is_ok r \<Longrightarrow> succeeds (return_os r)"
  by (auto simp: succeeds_def return_os_def is_ok_iff)

lemma succeeds_bind [intro]: "succeeds f \<Longrightarrow> (\<And>x. succeeds (g x)) \<Longrightarrow> succeeds (bind_os f g)"
  by (fastforce simp: succeeds_def bind_os_def)

lemma succeeds_map_err [intro]: "succeeds f \<Longrightarrow> succeeds (map_err_os h f)"
  by (fastforce simp: succeeds_def map_err_os_def)

lemma succeeds_udp [intro]: "succeeds (ok_or_os e get_available_udp_port)"
  by (auto simp: succeeds_def ok_or_os_def get_available_udp_port_def ports_available_def ok_or_def
      split: option.splits)

lemma succeeds_tcp [intro]: "succeeds (ok_or_os e get_available_tcp_port)"
  by (auto simp: succeeds_def ok_or_os_def get_available_tcp_port_def ports_available_def ok_or_def
      split: option.splits)

lemma succeeds_fill [intro]:
  "(\<And>nid. succeeds (g nid)) \<Longrightarrow> succeeds (\<lambda>s. case fill_id s of (nid, s1) \<Rightarrow> g nid s1)"
  by (auto simp: succeeds_def fill_id_def ports_available_def)

lemma succeeds_collect [intro]: "(\<And>x. succeeds (f x)) \<Longrightarrow> succeeds (collect_os f xs)"
proof (induction xs)
  case Nil
  show ?case by (simp add: succeeds_def)
next
  case (Cons x xs)
  have "collect_os f (x # xs) = bind_os (f x) (\<lambda>y. bind_os (collect_os f xs) (\<lambda>ys. return_os (Inr (y # ys))))"
    by (simp add: fun_eq_iff)
  with Cons show ?case by (auto intro!: succeeds_bind succeeds_return)
qed

end
