(* ===== verification/Env_Timeouts.thy ===== *)
theory Env_Timeouts
  imports Duration_F64
begin

text \<open>
  Environment knobs (\<^verbatim>\<open>env/src/lib.rs\<close>), the timeouts and ports they override
  (\<^verbatim>\<open>configs/src/timeouts.rs\<close>, \<^verbatim>\<open>configs/src/constants.rs\<close>) and the slow-environment scaling
  (\<^verbatim>\<open>configs/src/lib.rs\<close>).  The process environment is the argument \<open>ev\<close>; the two lazily
  initialised statics are recomputed from it, which is the same value as long as the environment
  does not change during the process.
\<close>

section \<open>Environment variables\<close>

definition eq_ignore_ascii_case :: "string \<Rightarrow> string \<Rightarrow> bool" where
  "eq_ignore_ascii_case s t \<longleftrightarrow> map lower_char s = map lower_char t"

definition slow_test_env :: "env \<Rightarrow> bool" where
  "slow_test_env ev \<longleftrightarrow> ev ''SLOW_TEST_ENV'' = Some ''true''"

definition debug_tracing :: "env \<Rightarrow> bool" where
  "debug_tracing ev \<longleftrightarrow>
     (case ev ''LOGOS_BLOCKCHAIN_TESTS_TRACING'' of
        None \<Rightarrow> False | Some v \<Rightarrow> eq_ignore_ascii_case v ''true'')"

definition nomos_log_dir :: "env \<Rightarrow> string option" where
  "nomos_log_dir ev = ev ''LOGOS_BLOCKCHAIN_LOG_DIR''"

definition nomos_log_level :: "env \<Rightarrow> string option" where
  "nomos_log_level ev = ev ''LOGOS_BLOCKCHAIN_LOG_LEVEL''"

definition nomos_log_filter :: "env \<Rightarrow> string option" where
  "nomos_log_filter ev = ev ''LOGOS_BLOCKCHAIN_LOG_FILTER''"

definition nomos_use_autonat :: "env \<Rightarrow> bool" where
  "nomos_use_autonat ev \<longleftrightarrow> ev ''LOGOS_BLOCKCHAIN_USE_AUTONAT'' \<noteq> None"

definition nomos_cfgsync_port :: "env \<Rightarrow> nat option" where
  "nomos_cfgsync_port ev = Option.bind (ev ''LOGOS_BLOCKCHAIN_CFGSYNC_PORT'') (parse_uint 65535)"

definition nomos_tests_keep_logs :: "env \<Rightarrow> bool" where
  "nomos_tests_keep_logs ev \<longleftrightarrow> ev ''LOGOS_BLOCKCHAIN_TESTS_KEEP_LOGS'' \<noteq> None"

definition nomos_testnet_image :: "env \<Rightarrow> string option" where
  "nomos_testnet_image ev = ev ''LOGOS_BLOCKCHAIN_TESTNET_IMAGE''"

definition nomos_testnet_image_pull_policy :: "env \<Rightarrow> string option" where
  "nomos_testnet_image_pull_policy ev = ev ''LOGOS_BLOCKCHAIN_TESTNET_IMAGE_PULL_POLICY''"

definition pol_proof_dev_mode :: "env \<Rightarrow> string option" where
  "pol_proof_dev_mode ev = ev ''POL_PROOF_DEV_MODE''"

definition rust_log :: "env \<Rightarrow> string option" where
  "rust_log ev = ev ''RUST_LOG''"

definition nomos_time_backend :: "env \<Rightarrow> string option" where
  "nomos_time_backend ev = ev ''LOGOS_BLOCKCHAIN_TIME_BACKEND''"

definition nomos_otlp_endpoint :: "env \<Rightarrow> string option" where
  "nomos_otlp_endpoint ev = ev ''LOGOS_BLOCKCHAIN_OTLP_ENDPOINT''"

definition nomos_otlp_metrics_endpoint :: "env \<Rightarrow> string option" where
  "nomos_otlp_metrics_endpoint ev = ev ''LOGOS_BLOCKCHAIN_OTLP_METRICS_ENDPOINT''"

section \<open>Timeouts and ports\<close>

definition env_duration :: "env \<Rightarrow> string \<Rightarrow> nat \<Rightarrow> duration" where
  "env_duration ev key dflt =
     (case Option.bind (ev key) (parse_uint u64_max) of
        None \<Rightarrow> from_secs dflt
      | Some secs \<Rightarrow> from_secs secs)"

definition dispersal_timeout :: "env \<Rightarrow> duration" where
  "dispersal_timeout ev = env_duration ev ''LOGOS_BLOCKCHAIN_DISPERSAL_TIMEOUT_SECS'' 20"

definition retry_cooldown :: "env \<Rightarrow> duration" where
  "retry_cooldown ev = env_duration ev ''LOGOS_BLOCKCHAIN_RETRY_COOLDOWN_SECS'' 3"

definition grace_period :: "env \<Rightarrow> duration" where
  "grace_period ev = env_duration ev ''LOGOS_BLOCKCHAIN_GRACE_PERIOD_SECS'' (20 * 60)"

definition prune_duration :: "env \<Rightarrow> duration" where
  "prune_duration ev = env_duration ev ''LOGOS_BLOCKCHAIN_PRUNE_DURATION_SECS'' 30"

definition prune_interval :: "env \<Rightarrow> duration" where
  "prune_interval ev = env_duration ev ''LOGOS_BLOCKCHAIN_PRUNE_INTERVAL_SECS'' 5"

definition share_duration :: "env \<Rightarrow> duration" where
  "share_duration ev = env_duration ev ''LOGOS_BLOCKCHAIN_SHARE_DURATION_SECS'' 5"

definition commitments_wait :: "env \<Rightarrow> duration" where
  "commitments_wait ev = env_duration ev ''LOGOS_BLOCKCHAIN_COMMITMENTS_WAIT_SECS'' 1"

definition sdp_trigger_delay :: "env \<Rightarrow> duration" where
  "sdp_trigger_delay ev = env_duration ev ''LOGOS_BLOCKCHAIN_SDP_TRIGGER_DELAY_SECS'' 5"

definition default_cfgsync_port :: nat where "default_cfgsync_port = 4400"

definition cfgsync_port :: "env \<Rightarrow> nat" where
  "cfgsync_port ev = (case nomos_cfgsync_port ev of None \<Rightarrow> default_cfgsync_port | Some p \<Rightarrow> p)"

text \<open>\<^verbatim>\<open>Duration::mul\<close> panics on overflow, hence the option.\<close>

definition adjust_timeout :: "env \<Rightarrow> duration \<Rightarrow> duration option" where
  "adjust_timeout ev d = (if slow_test_env ev then dur_mul d 2 else Some d)"

section \<open>Facts\<close>

lemma env_duration_le: "dflt \<le> u64_max \<Longrightarrow> env_duration ev key dflt \<le> from_secs u64_max"
  using parse_uint_bound by (auto simp: env_duration_def split: option.splits bind_splits)

lemma cfgsync_port_bound: "cfgsync_port ev < 2 ^ 16"
  using parse_uint_bound [of 65535]
  by (fastforce simp: cfgsync_port_def nomos_cfgsync_port_def default_cfgsync_port_def
      split: option.splits bind_splits)

lemma adjust_timeout_ge: "adjust_timeout ev d = Some d' \<Longrightarrow> d \<le> d'"
  by (auto simp: adjust_timeout_def dur_mul_def split: if_splits)

section \<open>Properties\<close>

text \<open>
  A timeout override takes effect exactly when the variable holds a decimal \<^verbatim>\<open>u64\<close>:
  setting it to the decimal form of any \<open>n \<le> u64_max\<close> gives \<open>n\<close> seconds, and an absent or
  unparsable value gives the default; the cfgsync port behaves alike over \<^verbatim>\<open>u16\<close>.  In a slow
  environment the adjusted timeout is twice as long, otherwise unchanged.
\<close>

theorem env_overrides:
  assumes "n \<le> u64_max" "p < 65536"
  shows "env_duration (ev(key \<mapsto> show_nat n)) key d = from_secs n \<and>
    (Option.bind (ev key) (parse_uint u64_max) = None \<longrightarrow> env_duration ev key d = from_secs d) \<and>
    cfgsync_port (ev(''LOGOS_BLOCKCHAIN_CFGSYNC_PORT'' \<mapsto> show_nat p)) = p \<and>
    cfgsync_port (ev(''LOGOS_BLOCKCHAIN_CFGSYNC_PORT'' := None)) = 4400 \<and>
    adjust_timeout (ev(''SLOW_TEST_ENV'' \<mapsto> ''true'')) (from_secs n) =
      (if 2 * n \<le> u64_max then Some (from_secs (2 * n)) else None) \<and>
    adjust_timeout (ev(''SLOW_TEST_ENV'' := None)) (from_secs n) = Some (from_secs n)"
proof -
  have "adjust_timeout (ev(''SLOW_TEST_ENV'' \<mapsto> ''true'')) (from_secs n) =
      (if 2 * n \<le> u64_max then Some (from_secs (2 * n)) else None)"
    by (auto simp: adjust_timeout_def slow_test_env_def duration_defs)
  with assms show ?thesis
    by (simp add: env_duration_def parse_show_nat cfgsync_port_def nomos_cfgsync_port_def
        default_cfgsync_port_def adjust_timeout_def slow_test_env_def)
qed

theorem env_overrides_witness:
  "env_duration [''LOGOS_BLOCKCHAIN_GRACE_PERIOD_SECS'' \<mapsto> show_nat 7] ''LOGOS_BLOCKCHAIN_GRACE_PERIOD_SECS'' 1200 = from_secs 7 \<and>
   cfgsync_port [''LOGOS_BLOCKCHAIN_CFGSYNC_PORT'' \<mapsto> show_nat 5000] = 5000"
  using env_overrides [of 7 5000 Map.empty "''LOGOS_BLOCKCHAIN_GRACE_PERIOD_SECS''" 1200] by simp

end
