(* ===== verification/Network_Layout.thy ===== *)
theory Network_Layout
  imports Os_State Env_Timeouts Ledger_Types
begin

text \<open>
  Who dials whom (\<^verbatim>\<open>configs/src/topology/configs/network.rs\<close>, \<^verbatim>\<open>runtime.rs\<close>) and how many peers each
  node should end up with (\<^verbatim>\<open>core/src/topology/generation.rs\<close>, \<^verbatim>\<open>utils.rs\<close>).  The address and key
  functions of the libp2p wrapper crate and its default settings are the fields of \<open>net_lib\<close>.
\<close>

section \<open>Swarm configuration\<close>

record net_lib =
  nl_multiaddr :: "u8 list \<Rightarrow> u16 \<Rightarrow> multiaddr"
  nl_parse_multiaddr :: "string \<Rightarrow> string + multiaddr"
  nl_secret_key :: "u8 list \<Rightarrow> string + ed_key"
  nl_peer_id :: "ed_key \<Rightarrow> nat"
  nl_generated_key :: ed_key
  nl_gossipsub_default :: nat
  nl_kademlia_default :: nat
  nl_identify_default :: nat
  nl_chain_sync_default :: duration

datatype libp2p_network_layout = Star | Chain | Full

record network_params =
  np_layout :: libp2p_network_layout

definition network_params_default :: network_params where
  "network_params_default = \<lparr>np_layout = Star\<rparr>"

datatype network_config_error =
  NetPortAllocationFailed
| NodeKeyFromBytes string
| LoopbackMultiaddr string

datatype nat_settings = NatDefault | NatStatic multiaddr

record swarm_config =
  sw_host :: "u8 list"
  sw_port :: u16
  sw_node_key :: ed_key
  sw_gossipsub :: nat
  sw_kademlia :: nat
  sw_identify :: nat
  sw_peer_response_timeout :: duration
  sw_nat :: nat_settings

record network_config =
  nc_initial_peers :: "multiaddr list"
  nc_swarm :: swarm_config

definition localhost :: "u8 list" where "localhost = [127, 0, 0, 1]"

definition node_address_from_port :: "net_lib \<Rightarrow> u16 \<Rightarrow> multiaddr" where
  "node_address_from_port nl port = nl_multiaddr nl localhost port"

definition default_swarm_config :: "net_lib \<Rightarrow> swarm_config" where
  "default_swarm_config nl =
     \<lparr>sw_host = [0, 0, 0, 0], sw_port = 60000, sw_node_key = nl_generated_key nl,
      sw_gossipsub = nl_gossipsub_default nl, sw_kademlia = nl_kademlia_default nl,
      sw_identify = nl_identify_default nl, sw_peer_response_timeout = nl_chain_sync_default nl,
      sw_nat = NatDefault\<rparr>"

definition nat_settings_for :: "net_lib \<Rightarrow> env \<Rightarrow> u16 \<Rightarrow> network_config_error + nat_settings" where
  "nat_settings_for nl ev port =
     (if nomos_use_autonat ev then Ok NatDefault
      else and_then
        (map_err LoopbackMultiaddr
           (nl_parse_multiaddr nl
              (''/ip4/127.0.0.1/udp/'' @ show_nat (unat port) @ ''/quic-v1'')))
        (\<lambda>addr. Ok (NatStatic addr)))"

definition swarm_config_for ::
  "net_lib \<Rightarrow> env \<Rightarrow> ed_key \<Rightarrow> u16 \<Rightarrow> network_config_error + swarm_config" where
  "swarm_config_for nl ev key port =
     and_then (nat_settings_for nl ev port) (\<lambda>nat_cfg.
       Ok ((default_swarm_config nl)
           \<lparr>sw_node_key := key, sw_port := port, sw_peer_response_timeout := from_secs 60,
            sw_nat := nat_cfg\<rparr>))"

definition node_address_with_peer :: "net_lib \<Rightarrow> swarm_config \<Rightarrow> multiaddr" where
  "node_address_with_peer nl sc =
     node_address_from_port nl (sw_port sc) @ [P2p (nl_peer_id nl (sw_node_key sc))]"

definition initial_peers_by_network_layout ::
  "net_lib \<Rightarrow> swarm_config list \<Rightarrow> network_params \<Rightarrow> multiaddr list list" where
  "initial_peers_by_network_layout nl scs params =
     (case scs of
        [] \<Rightarrow> []
      | first # _ \<Rightarrow>
          (case np_layout params of
             Star \<Rightarrow> [] # map (\<lambda>_. [node_address_with_peer nl first]) [1..<length scs]
           | Chain \<Rightarrow> [] # map (\<lambda>i. [node_address_with_peer nl (scs ! (i - 1))]) [1..<length scs]
           | Full \<Rightarrow> map (\<lambda>i. map (node_address_with_peer nl) (take i scs)) [0..<length scs]))"

definition create_network_configs ::
  "net_lib \<Rightarrow> env \<Rightarrow> node_id list \<Rightarrow> network_params \<Rightarrow>
   (network_config_error, network_config list) os_result" where
  "create_network_configs nl ev ids params =
     bind_os
       (collect_os (\<lambda>nid.
          bind_os (return_os (map_err NodeKeyFromBytes (nl_secret_key nl nid))) (\<lambda>key.
          bind_os (ok_or_os NetPortAllocationFailed get_available_udp_port) (\<lambda>port.
            return_os (swarm_config_for nl ev key port)))) ids)
       (\<lambda>scs. return_os (Ok
          (map (\<lambda>(sc, peers). \<lparr>nc_initial_peers = peers, nc_swarm = sc\<rparr>)
             (zip scs (initial_peers_by_network_layout nl scs params)))))"

definition build_network_config_for_node ::
  "net_lib \<Rightarrow> env \<Rightarrow> node_id \<Rightarrow> u16 \<Rightarrow> multiaddr list \<Rightarrow> network_config_error + network_config" where
  "build_network_config_for_node nl ev nid port peers =
     and_then (map_err NodeKeyFromBytes (nl_secret_key nl nid)) (\<lambda>key.
     and_then (swarm_config_for nl ev key port) (\<lambda>sc.
       Ok \<lparr>nc_initial_peers = peers, nc_swarm = sc\<rparr>))"

definition build_initial_peers :: "net_lib \<Rightarrow> network_params \<Rightarrow> u16 list \<Rightarrow> multiaddr list" where
  "build_initial_peers nl params peer_ports =
     (case np_layout params of
        Star \<Rightarrow> (case first_of peer_ports of None \<Rightarrow> [] | Some p \<Rightarrow> [node_address_from_port nl p])
      | Chain \<Rightarrow> (case last_of peer_ports of None \<Rightarrow> [] | Some p \<Rightarrow> [node_address_from_port nl p])
      | Full \<Rightarrow> map (node_address_from_port nl) peer_ports)"

section \<open>Expected peer counts\<close>

fun multiaddr_port :: "multiaddr \<Rightarrow> u16 option" where
  "multiaddr_port [] = None"
| "multiaddr_port (Udp p # _) = Some p"
| "multiaddr_port (Tcp p # _) = Some p"
| "multiaddr_port (_ # rest) = multiaddr_port rest"

text \<open>
  The port sets of the code are hash sets.  Here each is the list in which the set happens to be
  iterated; the counts turn out not to depend on that order.
\<close>

definition add_link :: "nat \<Rightarrow> nat \<Rightarrow> nat set list \<Rightarrow> nat set list option" where
  "add_link i j ex =
     (if i < length ex \<and> j < length ex
      then Some (let ex' = ex[i := insert j (ex ! i)] in ex'[j := insert i (ex' ! j)])
      else None)"

fun scan_ports :: "u16 list \<Rightarrow> nat \<Rightarrow> u16 list \<Rightarrow> nat set list \<Rightarrow> nat set list option" where
  "scan_ports listen idx [] ex = Some ex"
| "scan_ports listen idx (p # ps) ex =
     (case position (\<lambda>q. q = p) listen of
        None \<Rightarrow> scan_ports listen idx ps ex
      | Some peer \<Rightarrow>
          if peer = idx then scan_ports listen idx ps ex
          else Option.bind (add_link idx peer ex) (scan_ports listen idx ps))"

fun scan_nodes :: "u16 list \<Rightarrow> nat \<Rightarrow> u16 list list \<Rightarrow> nat set list \<Rightarrow> nat set list option" where
  "scan_nodes listen idx [] ex = Some ex"
| "scan_nodes listen idx (ps # pss) ex =
     Option.bind (scan_ports listen idx ps ex) (scan_nodes listen (Suc idx) pss)"

definition find_expected_peer_counts :: "u16 list \<Rightarrow> u16 list list \<Rightarrow> nat list option" where
  "find_expected_peer_counts listen initial =
     map_option (map card) (scan_nodes listen 0 initial (replicate (length initial) {}))"

text \<open>\<^verbatim>\<open>GeneratedTopology::listen_ports\<close> and \<^verbatim>\<open>initial_peer_ports\<close>.\<close>

definition listen_ports :: "network_config list \<Rightarrow> u16 list" where
  "listen_ports ncs = map (\<lambda>nc. sw_port (nc_swarm nc)) ncs"

definition initial_peer_ports :: "network_config list \<Rightarrow> u16 list list" where
  "initial_peer_ports ncs =
     map (\<lambda>nc. remdups (List.map_filter multiaddr_port (nc_initial_peers nc))) ncs"

section \<open>The link relation behind the counts\<close>

text \<open>Node \<open>i\<close> dials node \<open>j\<close> when one of its initial ports is the first listed port of \<open>j\<close>.\<close>

definition dials :: "u16 list \<Rightarrow> u16 list \<Rightarrow> nat set" where
  "dials listen ps = {j. \<exists>p \<in> set ps. position (\<lambda>q. q = p) listen = Some j}"

definition linked_peers :: "u16 list \<Rightarrow> u16 list list \<Rightarrow> nat \<Rightarrow> nat set" where
  "linked_peers listen initial i =
     {j. j < length initial \<and> j \<noteq> i \<and> (j \<in> dials listen (initial ! i) \<or> i \<in> dials listen (initial ! j))}"

lemma dials_Nil [simp]: "dials listen [] = {}"
  by (simp add: dials_def)

lemma dials_Cons: "dials listen (p # ps) = set_option (position (\<lambda>q. q = p) listen) \<union> dials listen ps"
  by (auto simp: dials_def)

lemma dials_bound: "j \<in> dials listen ps \<Longrightarrow> j < length listen"
  by (auto simp: dials_def dest: position_Some)

lemma add_link_nth:
  assumes "i < length ex" "j < length ex" "i \<noteq> j"
  obtains ex' where "add_link i j ex = Some ex'" "length ex' = length ex"
    "\<And>k. k < length ex \<Longrightarrow> ex' ! k = (if k = i then insert j (ex ! i) else if k = j then insert i (ex ! j) else ex ! k)"
  using assms by (simp add: add_link_def Let_def nth_list_update)

lemma scan_ports_result:
  assumes "length listen \<le> length ex" "i < length ex"
  shows "\<exists>ex'. scan_ports listen i ps ex = Some ex' \<and> length ex' = length ex \<and>
    (\<forall>k < length ex. ex' ! k = ex ! k \<union> (if k = i then dials listen ps - {i}
                                          else if k \<in> dials listen ps then {i} else {}))"
  using assms
proof (induction ps arbitrary: ex)
  case (Cons p ps)
  consider (none) "position (\<lambda>q. q = p) listen = None"
    | (self) "position (\<lambda>q. q = p) listen = Some i"
    | (peer) j where "position (\<lambda>q. q = p) listen = Some j" "j \<noteq> i" by fastforce
  then show ?case
  proof cases
    case none
    then have "dials listen (p # ps) = dials listen ps" by (simp add: dials_Cons)
    with Cons.IH [OF Cons.prems] none show ?thesis by (simp only: scan_ports.simps option.case)
  next
    case self
    from Cons.IH [OF Cons.prems] obtain ex' where
      "scan_ports listen i ps ex = Some ex'" "length ex' = length ex"
      "\<forall>k < length ex. ex' ! k = ex ! k \<union> (if k = i then dials listen ps - {i}
                                          else if k \<in> dials listen ps then {i} else {})" by blast
    with self show ?thesis by (simp add: dials_Cons)
  next
    case peer
    then have j: "j < length ex" using Cons.prems(1) position_Some [OF peer(1)] by simp
    obtain ex1 where ex1: "add_link i j ex = Some ex1" "length ex1 = length ex"
      "\<And>k. k < length ex \<Longrightarrow> ex1 ! k = (if k = i then insert j (ex ! i) else if k = j then insert i (ex ! j) else ex ! k)"
      using add_link_nth [OF Cons.prems(2) j] peer(2) by metis
    from Cons.IH [of ex1] Cons.prems ex1(2) obtain ex' where
      ex': "scan_ports listen i ps ex1 = Some ex'" "length ex' = length ex"
      "\<forall>k < length ex. ex' ! k = ex1 ! k \<union> (if k = i then dials listen ps - {i}
                                          else if k \<in> dials listen ps then {i} else {})" by auto
    have "ex' ! k = ex ! k \<union> (if k = i then dials listen (p # ps) - {i}
                                          else if k \<in> dials listen (p # ps) then {i} else {})"
      if k: "k < length ex" for k
      using ex'(3) k ex1(3) [OF k] peer by (auto simp: dials_Cons)
    with ex' ex1(1) peer show ?thesis by simp
  qed
qed simp

lemma scan_nodes_result:
  assumes "length listen \<le> length ex" "i + length pss \<le> length ex"
  shows "\<exists>ex'. scan_nodes listen i pss ex = Some ex' \<and> length ex' = length ex \<and>
    (\<forall>k < length ex. ex' ! k = ex ! k \<union>
       (if i \<le> k \<and> k < i + length pss then dials listen (pss ! (k - i)) - {k} else {}) \<union>
       {m. i \<le> m \<and> m < i + length pss \<and> m \<noteq> k \<and> k \<in> dials listen (pss ! (m - i))})"
  using assms
proof (induction pss arbitrary: i ex)
  case (Cons ps pss)
  have i: "i < length ex" using Cons.prems(2) by simp
  from scan_ports_result [OF Cons.prems(1) i, of ps] obtain ex1 where
    ex1: "scan_ports listen i ps ex = Some ex1" "length ex1 = length ex"
      "\<And>k. k < length ex \<Longrightarrow> ex1 ! k = ex ! k \<union> (if k = i then dials listen ps - {i}
                                          else if k \<in> dials listen ps then {i} else {})" by blast
  have "length listen \<le> length ex1" "Suc i + length pss \<le> length ex1"
    using Cons.prems ex1(2) by simp_all
  from Cons.IH [OF this] ex1(2) obtain ex' where
    ex': "scan_nodes listen (Suc i) pss ex1 = Some ex'" "length ex' = length ex"
      "\<And>k. k < length ex \<Longrightarrow> ex' ! k = ex1 ! k \<union>
       (if Suc i \<le> k \<and> k < Suc i + length pss then dials listen (pss ! (k - Suc i)) - {k} else {}) \<union>
       {m. Suc i \<le> m \<and> m < Suc i + length pss \<and> m \<noteq> k \<and> k \<in> dials listen (pss ! (m - Suc i))}"
    by auto
  have shift: "(ps # pss) ! (m - i) = (if m = i then ps else pss ! (m - Suc i))" if "i \<le> m" for m
    using that by (simp add: nth_Cons')
  have "ex' ! k = ex ! k \<union>
       (if i \<le> k \<and> k < i + length (ps # pss) then dials listen ((ps # pss) ! (k - i)) - {k} else {}) \<union>
       {m. i \<le> m \<and> m < i + length (ps # pss) \<and> m \<noteq> k \<and> k \<in> dials listen ((ps # pss) ! (m - i))}"
    (is "_ = _ \<union> ?out \<union> ?in") if k: "k < length ex" for k
  proof -
    have "?in = (if k \<noteq> i \<and> k \<in> dials listen ps then {i} else {}) \<union>
      {m. Suc i \<le> m \<and> m < Suc i + length pss \<and> m \<noteq> k \<and> k \<in> dials listen (pss ! (m - Suc i))}"
      by (auto simp: shift Suc_le_eq le_less split: if_splits)
    moreover have "?out = (if k = i then dials listen ps - {i} else {}) \<union>
       (if Suc i \<le> k \<and> k < Suc i + length pss then dials listen (pss ! (k - Suc i)) - {k} else {})"
      by (auto simp: shift)
    ultimately show ?thesis unfolding ex'(3) [OF k] ex1(3) [OF k] by auto
  qed
  with ex1(1) ex'(1,2) show ?case by simp
qed auto

lemma find_expected_peer_counts_eq:
  assumes "length listen \<le> length initial"
  shows "find_expected_peer_counts listen initial =
    Some (map (\<lambda>i. card (linked_peers listen initial i)) [0..<length initial])"
proof -
  from scan_nodes_result [of listen "replicate (length initial) {}" 0 initial] assms
  obtain ex' where ex': "scan_nodes listen 0 initial (replicate (length initial) {}) = Some ex'"
    "length ex' = length initial"
    "\<And>k. k < length initial \<Longrightarrow> ex' ! k = (dials listen (initial ! k) - {k}) \<union>
       {m. m < length initial \<and> m \<noteq> k \<and> k \<in> dials listen (initial ! m)}" by auto
  have "ex' ! k = linked_peers listen initial k" if "k < length initial" for k
    using ex'(3) [OF that] assms dials_bound [of _ listen "initial ! k"]
    by (fastforce simp: linked_peers_def)
  then have "ex' = map (linked_peers listen initial) [0..<length initial]"
    using ex'(2) by (intro nth_equalityI) simp_all
  with ex'(1) show ?thesis by (simp add: find_expected_peer_counts_def comp_def)
qed

section \<open>Layouts\<close>

text \<open>The nodes that node \<open>i\<close> dials under a layout, all of them earlier ones.\<close>

definition layout_dials :: "libp2p_network_layout \<Rightarrow> nat \<Rightarrow> nat list" where
  "layout_dials l i =
     (case l of
        Star \<Rightarrow> if i = 0 then [] else [0]
      | Chain \<Rightarrow> if i = 0 then [] else [i - 1]
      | Full \<Rightarrow> [0..<i])"

definition layout_counts :: "libp2p_network_layout \<Rightarrow> nat \<Rightarrow> nat \<Rightarrow> nat" where
  "layout_counts l n i =
     (case l of
        Star \<Rightarrow> if i = 0 then n - 1 else 1
      | Chain \<Rightarrow> (if i = 0 then 0 else 1) + (if Suc i < n then 1 else 0)
      | Full \<Rightarrow> n - 1)"

definition multiaddr_carries_port :: "net_lib \<Rightarrow> bool" where
  "multiaddr_carries_port nl \<longleftrightarrow> (\<forall>ip p. multiaddr_port (nl_multiaddr nl ip p) = Some p)"

lemma layout_dials_less: "j \<in> set (layout_dials l i) \<Longrightarrow> j < i"
  by (cases l) (auto simp: layout_dials_def split: if_splits)

lemma multiaddr_port_append: "multiaddr_port a = Some p \<Longrightarrow> multiaddr_port (a @ b) = Some p"
  by (induction a rule: multiaddr_port.induct) auto

lemma node_address_port:
  "multiaddr_carries_port nl \<Longrightarrow> multiaddr_port (node_address_with_peer nl sc) = Some (sw_port sc)"
  by (simp add: node_address_with_peer_def node_address_from_port_def multiaddr_carries_port_def
      multiaddr_port_append)

lemma initial_peers_layout:
  "initial_peers_by_network_layout nl scs params =
     map (\<lambda>i. map (\<lambda>j. node_address_with_peer nl (scs ! j)) (layout_dials (np_layout params) i)) [0..<length scs]"
proof (cases scs)
  case (Cons sc rest)
  have up: "[0..<length scs] = 0 # [1..<length scs]" using Cons by (simp add: upt_rec)
  have take: "map (node_address_with_peer nl) (take i scs) = map (\<lambda>j. node_address_with_peer nl (scs ! j)) [0..<i]"
    if "i < length scs" for i
    using that by (intro nth_equalityI) simp_all
  show ?thesis
  proof (cases "np_layout params")
    case Star
    with Cons show ?thesis
      unfolding up
      by (auto simp: initial_peers_by_network_layout_def layout_dials_def simp del: upt_Suc)
  next
    case Chain
    with Cons show ?thesis
      unfolding up
      by (auto simp: initial_peers_by_network_layout_def layout_dials_def simp del: upt_Suc)
  next
    case Full
    with Cons take show ?thesis
      by (auto simp: initial_peers_by_network_layout_def layout_dials_def simp del: upt_Suc)
  qed
qed (simp add: initial_peers_by_network_layout_def)

lemma create_network_configs_Ok:
  assumes "create_network_configs nl ev ids params s = (Ok ncs, s')"
  obtains scs where "length scs = length ids"
    "ncs = map (\<lambda>i. \<lparr>nc_initial_peers = map (\<lambda>j. node_address_with_peer nl (scs ! j)) (layout_dials (np_layout params) i),
                     nc_swarm = scs ! i\<rparr>) [0..<length scs]"
    "\<And>i. i < length ids \<Longrightarrow> nl_secret_key nl (ids ! i) = Ok (sw_node_key (scs ! i))"
proof -
  let ?f = "\<lambda>nid. bind_os (return_os (map_err NodeKeyFromBytes (nl_secret_key nl nid))) (\<lambda>key.
          bind_os (ok_or_os NetPortAllocationFailed get_available_udp_port) (\<lambda>port.
            return_os (swarm_config_for nl ev key port)))"
  obtain scs s1 where scs: "collect_os ?f ids s = (Ok scs, s1)"
    and ncs: "ncs = map (\<lambda>(sc, peers). \<lparr>nc_initial_peers = peers, nc_swarm = sc\<rparr>)
             (zip scs (initial_peers_by_network_layout nl scs params))"
    using assms by (auto simp: create_network_configs_def os_iffs)
  have len: "length scs = length ids" using collect_os_length [OF scs] .
  have "nl_secret_key nl (ids ! i) = Ok (sw_node_key (scs ! i))" if "i < length ids" for i
    using scs that
    by (rule collect_os_nth) (auto simp: os_iffs result_iffs swarm_config_for_def)
  moreover have "ncs = map (\<lambda>i. \<lparr>nc_initial_peers = map (\<lambda>j. node_address_with_peer nl (scs ! j)) (layout_dials (np_layout params) i),
                     nc_swarm = scs ! i\<rparr>) [0..<length scs]"
    unfolding ncs initial_peers_layout by (intro nth_equalityI) simp_all
  ultimately show ?thesis using that len by blast
qed

lemma dials_of_layout:
  assumes "distinct (map sw_port scs)" "multiaddr_carries_port nl" "i < length scs"
  shows "dials (map sw_port scs)
      (remdups (List.map_filter multiaddr_port
        (map (\<lambda>j. node_address_with_peer nl (scs ! j)) (layout_dials l i)))) = set (layout_dials l i)"
proof -
  have lt: "j < length scs" if "j \<in> set (layout_dials l i)" for j
    using layout_dials_less [OF that] assms(3) by simp
  have pos: "position (\<lambda>q. q = sw_port (scs ! j)) (map sw_port scs) = Some j" if "j < length scs" for j
    using position_distinct [OF assms(1), of j] that by simp
  have ports: "set (List.map_filter multiaddr_port (map (\<lambda>j. node_address_with_peer nl (scs ! j)) (layout_dials l i)))
      = (\<lambda>j. sw_port (scs ! j)) ` set (layout_dials l i)"
    using node_address_port [OF assms(2)] by (auto simp: List.map_filter_def)
  show ?thesis unfolding dials_def set_remdups ports using lt pos by auto
qed

lemma card_layout_peers:
  assumes "i < n"
  shows "card {j. j < n \<and> j \<noteq> i \<and> (j \<in> set (layout_dials l i) \<or> i \<in> set (layout_dials l j))} = layout_counts l n i"
    (is "card ?S = _")
proof (cases l)
  case Star
  show ?thesis
  proof (cases "i = 0")
    case True
    then have "?S = {1..<n}" using Star by (auto simp: layout_dials_def)
    with True Star show ?thesis by (simp add: layout_counts_def)
  next
    case False
    then have "?S = {0}" using Star assms by (auto simp: layout_dials_def)
    with False Star show ?thesis by (simp add: layout_counts_def)
  qed
next
  case Chain
  have "?S = (if i = 0 then {} else {i - 1}) \<union> (if Suc i < n then {Suc i} else {})"
    using Chain assms by (auto simp: layout_dials_def)
  with Chain show ?thesis by (auto simp: layout_counts_def)
next
  case Full
  have "?S = {0..<n} - {i}" using Full assms by (auto simp: layout_dials_def)
  with Full assms show ?thesis by (simp add: layout_counts_def)
qed

lemma linked_peers_layout:
  assumes "distinct (map sw_port scs)" "multiaddr_carries_port nl"
    and "ncs = map (\<lambda>i. \<lparr>nc_initial_peers = map (\<lambda>j. node_address_with_peer nl (scs ! j)) (layout_dials l i),
                       nc_swarm = scs ! i\<rparr>) [0..<length scs]"
    and "i < length scs"
  shows "linked_peers (listen_ports ncs) (initial_peer_ports ncs) i =
    {j. j < length scs \<and> j \<noteq> i \<and> (j \<in> set (layout_dials l i) \<or> i \<in> set (layout_dials l j))}"
proof -
  have listen: "listen_ports ncs = map sw_port scs"
    unfolding listen_ports_def assms(3) by (intro nth_equalityI) simp_all
  have initial: "dials (map sw_port scs) (initial_peer_ports ncs ! j) = set (layout_dials l j)"
    if "j < length scs" for j
    using dials_of_layout [OF assms(1,2) that] that by (simp add: initial_peer_ports_def assms(3))
  have "length (initial_peer_ports ncs) = length scs" by (simp add: initial_peer_ports_def assms(3))
  with assms(4) show ?thesis by (auto simp: linked_peers_def listen initial)
qed

lemma layout_reaches_first:
  "(i, 0) \<in> {(a, b). b \<in> set (layout_dials l a)}\<^sup>*"
proof (induction i rule: less_induct)
  case (less i)
  show ?case
  proof (cases "i = 0")
    case False
    then have "layout_dials l i \<noteq> []" by (cases l) (auto simp: layout_dials_def)
    then obtain j where j: "j \<in> set (layout_dials l i)" by (cases "layout_dials l i") auto
    from less [OF layout_dials_less [OF j]] j show ?thesis
      by (meson case_prodI converse_rtrancl_into_rtrancl mem_Collect_eq)
  qed simp
qed

section \<open>Properties\<close>

text \<open>
  Property C3.  The expected peer count of a node is the size of a symmetric relation: the other
  nodes it dials and the other nodes that dial it, where a port is resolved to the first node that
  listens on it, unknown ports and ports of the node itself are ignored and a pair that dials both
  ways counts once.  With at least as many port sets as listening ports the computation never
  indexes out of range, and the counts depend on the sets only, not on their iteration order.
\<close>

theorem expected_peer_counts_reference:
  assumes "length listen \<le> length initial"
  shows "find_expected_peer_counts listen initial =
      Some (map (\<lambda>i. card {j. j < length initial \<and> j \<noteq> i \<and>
          ((\<exists>p \<in> set (initial ! i). position (\<lambda>q. q = p) listen = Some j) \<or>
           (\<exists>p \<in> set (initial ! j). position (\<lambda>q. q = p) listen = Some i))}) [0..<length initial]) \<and>
    (\<forall>initial'. list_all2 (\<lambda>a b. set a = set b) initial initial' \<longrightarrow>
       find_expected_peer_counts listen initial' = find_expected_peer_counts listen initial)"
proof -
  have lp: "linked_peers listen ini i = {j. j < length ini \<and> j \<noteq> i \<and>
          ((\<exists>p \<in> set (ini ! i). position (\<lambda>q. q = p) listen = Some j) \<or>
           (\<exists>p \<in> set (ini ! j). position (\<lambda>q. q = p) listen = Some i))}" for ini i
    by (simp add: linked_peers_def dials_def)
  have same: "linked_peers listen initial' i = linked_peers listen initial i"
    if "list_all2 (\<lambda>a b. set a = set b) initial initial'" "i < length initial" for initial' i
    using that list_all2_lengthD [OF that(1)] list_all2_nthD [OF that(1)] by (auto simp: lp)
  have "find_expected_peer_counts listen initial' = find_expected_peer_counts listen initial"
    if l: "list_all2 (\<lambda>a b. set a = set b) initial initial'" for initial'
    using find_expected_peer_counts_eq [of listen initial] find_expected_peer_counts_eq [of listen initial']
      assms list_all2_lengthD [OF l] same [OF l] by simp
  with find_expected_peer_counts_eq [OF assms] show ?thesis unfolding lp by blast
qed

theorem expected_peer_counts_reference_witness:
  "find_expected_peer_counts [10, 20, 30] [[], [10], [20, 99]] = Some [1, 2, 1] \<and>
   find_expected_peer_counts [10, 20, 30] [[], [10], [99, 20]] = Some [1, 2, 1]"
proof -
  have "length [10, 20, 30 :: u16] \<le> length [[], [10], [20, 99 :: u16]]" by simp
  note ref = expected_peer_counts_reference [OF this, THEN conjunct2, rule_format]
  have eq: "find_expected_peer_counts [10, 20, 30] [[], [10], [99, 20]] =
      find_expected_peer_counts [10, 20, 30] [[], [10], [20, 99]]"
    by (rule ref) auto
  show ?thesis
    unfolding eq by (simp add: find_expected_peer_counts_def add_link_def Let_def)
qed

text \<open>
  Property C25.  For the configurations generated from any identifiers, when the allocated listening
  ports are pairwise different, the expected peer counts are those of the chosen layout: in a star
  the first node has all others and every other node one; in a chain the inner nodes have two and
  the ends one; in a full mesh every node has all others.  Every node dials earlier nodes only, and
  along these dials every node reaches the first one.
\<close>

theorem layout_expected_counts:
  assumes "multiaddr_carries_port nl"
    and "create_network_configs nl ev ids params s = (Ok ncs, s')"
    and "distinct (listen_ports ncs)"
  shows "length ncs = length ids \<and>
    find_expected_peer_counts (listen_ports ncs) (initial_peer_ports ncs) =
      Some (map (layout_counts (np_layout params) (length ids)) [0..<length ids]) \<and>
    (\<forall>i < length ids. dials (listen_ports ncs) (initial_peer_ports ncs ! i) \<subseteq> {..<i}) \<and>
    (\<forall>i < length ids. (i, 0) \<in> {(a, b). a < length ids \<and> b \<in> dials (listen_ports ncs) (initial_peer_ports ncs ! a)}\<^sup>*)"
  using assms(2)
proof (rule create_network_configs_Ok)
  fix scs
  let ?l = "np_layout params"
  assume len: "length scs = length ids"
    and ncs: "ncs = map (\<lambda>i. \<lparr>nc_initial_peers = map (\<lambda>j. node_address_with_peer nl (scs ! j)) (layout_dials ?l i),
                     nc_swarm = scs ! i\<rparr>) [0..<length scs]"
  have listen: "listen_ports ncs = map sw_port scs"
    unfolding listen_ports_def ncs by (intro nth_equalityI) simp_all
  note d = assms(3) [unfolded listen]
  have dl: "dials (listen_ports ncs) (initial_peer_ports ncs ! i) = set (layout_dials ?l i)" if "i < length ids" for i
    using dials_of_layout [OF d assms(1), of i ?l] that len by (simp add: initial_peer_ports_def ncs listen [symmetric])
  have "find_expected_peer_counts (listen_ports ncs) (initial_peer_ports ncs) =
      Some (map (layout_counts ?l (length ids)) [0..<length ids])"
    using find_expected_peer_counts_eq [of "listen_ports ncs" "initial_peer_ports ncs"]
      linked_peers_layout [OF d assms(1) ncs] card_layout_peers [of _ "length ids" ?l] len
    by (simp add: listen_ports_def initial_peer_ports_def ncs)
  moreover have "(i, 0) \<in> {(a, b). a < length ids \<and> b \<in> dials (listen_ports ncs) (initial_peer_ports ncs ! a)}\<^sup>*"
    if "i < length ids" for i
    using layout_reaches_first [of i ?l] that
  proof (induction rule: converse_rtrancl_induct)
    case (step a b)
    then have "b < a" using layout_dials_less by blast
    with step dl [of a] show ?case by (intro converse_rtrancl_into_rtrancl [of a b]) auto
  qed simp
  moreover have "dials (listen_ports ncs) (initial_peer_ports ncs ! i) \<subseteq> {..<i}" if "i < length ids" for i
    using dl [OF that] layout_dials_less by auto
  ultimately show ?thesis using len by (simp add: ncs)
qed

definition demo_net_lib :: net_lib where
  "demo_net_lib =
     \<lparr>nl_multiaddr = (\<lambda>ip p. [Ip4 ip, Udp p, QuicV1]),
      nl_parse_multiaddr = (\<lambda>s. Ok [OtherProtocol s]),
      nl_secret_key = (\<lambda>bs. Ok (length bs)), nl_peer_id = (\<lambda>k. k), nl_generated_key = 0,
      nl_gossipsub_default = 0, nl_kademlia_default = 0, nl_identify_default = 0,
      nl_chain_sync_default = 0\<rparr>"

definition demo_os :: os where
  "demo_os = \<lparr>os_udp = (\<lambda>k. Some (of_nat (9000 + k))), os_udp_calls = 0,
              os_tcp = (\<lambda>k. Some (of_nat (18000 + k))), os_tcp_calls = 0,
              os_rng = (\<lambda>k. replicate 32 (of_nat k)), os_rng_calls = 0, os_now = 1000\<rparr>"

lemma demo_net_lib_law [simp]: "multiaddr_carries_port demo_net_lib"
  by (simp add: multiaddr_carries_port_def demo_net_lib_def)

theorem layout_expected_counts_witness:
  "\<exists>ncs s'. create_network_configs demo_net_lib Map.empty [[1], [2], [3]] \<lparr>np_layout = Chain\<rparr> demo_os = (Ok ncs, s') \<and>
     find_expected_peer_counts (listen_ports ncs) (initial_peer_ports ncs) = Some [1, 2, 1]"
proof -
  have "\<exists>ncs s'. create_network_configs demo_net_lib Map.empty [[1], [2], [3]] \<lparr>np_layout = Chain\<rparr> demo_os = (Ok ncs, s') \<and>
      listen_ports ncs = [9000, 9001, 9002]"
    by (simp add: create_network_configs_def bind_os_def return_os_def ok_or_os_def get_available_udp_port_def
        swarm_config_for_def nat_settings_for_def nomos_use_autonat_def demo_net_lib_def demo_os_def
        initial_peers_by_network_layout_def listen_ports_def default_swarm_config_def upt_rec)
  then obtain ncs s' where ok: "create_network_configs demo_net_lib Map.empty [[1], [2], [3]] \<lparr>np_layout = Chain\<rparr> demo_os = (Ok ncs, s')"
    and ports: "listen_ports ncs = [9000, 9001, 9002]" by blast
  have "distinct (listen_ports ncs)" by (simp add: ports)
  from layout_expected_counts [OF demo_net_lib_law ok this] ok show ?thesis
    by (auto simp: layout_counts_def upt_rec)
qed

end
