(* ===== verification/Node_Configs.thy ===== *)
theory Node_Configs
  imports Genesis Network_Layout
begin

text \<open>
  The per-node configuration parts other than consensus and networking
  (\<^verbatim>\<open>configs/src/topology/configs/{blend,api,bootstrap,time,tracing}.rs\<close>, \<^verbatim>\<open>configs/src/nodes/kms.rs\<close>)
  and the shape checks on identifier and port vectors (\<^verbatim>\<open>configs/src/topology/invariants.rs\<close>).
\<close>

section \<open>Blend\<close>

record blend_core_settings =
  bc_listening_address :: multiaddr
  bc_core_peering_degree :: "nat \<times> nat"
  bc_minimum_messages_coefficient :: nat
  bc_normalization_constant :: f64
  bc_edge_node_connection_timeout :: duration
  bc_max_edge_node_incoming_connections :: nat
  bc_max_dial_attempts_per_peer :: nat
  bc_protocol_name :: string

record blend_edge_settings =
  be_max_dial_attempts_per_peer_per_message :: nat
  be_protocol_name :: string
  be_replication_factor :: nat

record general_blend_config =
  gb_backend_core :: blend_core_settings
  gb_backend_edge :: blend_edge_settings
  gb_private_key :: ed_key
  gb_secret_zk_key :: zk_key
  gb_signer :: ed_key

definition localhost_quic_address :: "u16 \<Rightarrow> multiaddr" where
  "localhost_quic_address port = [Ip4 localhost, Udp port, QuicV1]"

text \<open>
  The conversions of constants into non-zero and non-negative types cannot fail (the code marks
  their error branches unreachable), so they appear as the constants themselves.
\<close>

definition blend_config_for :: "crypto \<Rightarrow> node_id \<Rightarrow> u16 \<Rightarrow> general_blend_config" where
  "blend_config_for cr nid port =
     (let private_key = cr_ed_from_bytes cr nid
      in \<lparr>gb_backend_core =
            \<lparr>bc_listening_address = localhost_quic_address port,
             bc_core_peering_degree = (1, 3),
             bc_minimum_messages_coefficient = 1,
             bc_normalization_constant = round64 (103 / 100),
             bc_edge_node_connection_timeout = from_secs 1,
             bc_max_edge_node_incoming_connections = 300,
             bc_max_dial_attempts_per_peer = 3,
             bc_protocol_name = ''/blend/integration-tests''\<rparr>,
          gb_backend_edge =
            \<lparr>be_max_dial_attempts_per_peer_per_message = 1,
             be_protocol_name = ''/blend/integration-tests'',
             be_replication_factor = 1\<rparr>,
          gb_private_key = private_key,
          gb_secret_zk_key = cr_zk_from cr (le_nat (cr_ed_pk_bytes cr (cr_ed_pk cr private_key))),
          gb_signer = cr_ed_from_bytes cr nid\<rparr>)"

definition create_blend_configs ::
  "crypto \<Rightarrow> node_id list \<Rightarrow> u16 list \<Rightarrow> general_blend_config list" where
  "create_blend_configs cr ids ports = map (\<lambda>(nid, port). blend_config_for cr nid port) (zip ids ports)"

section \<open>HTTP API, bootstrap and time\<close>

type_synonym socket_addr = "u8 list \<times> u16"

record general_api_config =
  api_address :: socket_addr
  api_testing_http_address :: socket_addr

datatype api_config_error = ApiPortAllocationFailed

definition create_api_configs ::
  "node_id list \<Rightarrow> (api_config_error, general_api_config list) os_result" where
  "create_api_configs ids =
     collect_os (\<lambda>_.
       bind_os (ok_or_os ApiPortAllocationFailed get_available_tcp_port) (\<lambda>address_port.
       bind_os (ok_or_os ApiPortAllocationFailed get_available_tcp_port) (\<lambda>testing_port.
         return_os (Ok \<lparr>api_address = (localhost, address_port),
                        api_testing_http_address = (localhost, testing_port)\<rparr>)))) ids"

record general_bootstrap_config =
  gbs_prolonged_bootstrap_period :: duration

definition short_prolonged_bootstrap_period :: duration where
  "short_prolonged_bootstrap_period = from_secs 1"

definition create_bootstrap_configs :: "node_id list \<Rightarrow> duration \<Rightarrow> general_bootstrap_config list" where
  "create_bootstrap_configs ids period = map (\<lambda>_. \<lparr>gbs_prolonged_bootstrap_period = period\<rparr>) ids"

record general_time_config =
  gt_slot_duration :: duration
  gt_chain_start_time :: nat
  gt_ntp_server :: string
  gt_timeout :: duration
  gt_interface :: "u8 list"
  gt_update_interval :: duration

definition default_time_config :: "env \<Rightarrow> os \<Rightarrow> general_time_config" where
  "default_time_config ev s =
     (let parsed = Option.bind (ev ''CONSENSUS_SLOT_TIME'') (parse_uint u64_max);
          secs = (case parsed of None \<Rightarrow> 2 | Some v \<Rightarrow> if 0 < v then v else 2)
      in \<lparr>gt_slot_duration = from_secs secs,
          gt_chain_start_time = os_now s,
          gt_ntp_server = ''pool.ntp.org'',
          gt_timeout = from_secs 5,
          gt_interface = [0, 0, 0, 0],
          gt_update_interval = from_secs 16\<rparr>)"

section \<open>Tracing\<close>

text \<open>
  Endpoint and level parsing and the default settings come from the tracing crates and are the
  fields of \<open>trace_lib\<close>.
\<close>

type_synonym level = nat

datatype logger_layer =
  LokiLogger string string
| FileLogger string "string option"
| OtherLogger nat

datatype tracing_layer =
  OtlpTracing string f64 string
| NoTracing

datatype metrics_layer =
  OtlpMetrics string string
| NoMetrics

datatype console_layer = NoConsole | OtherConsole nat

datatype filter_layer =
  EnvFilter "string \<Rightarrow> string option"
| OtherFilter nat

record tracing_settings =
  ts_logger :: logger_layer
  ts_tracing :: tracing_layer
  ts_filter :: filter_layer
  ts_metrics :: metrics_layer
  ts_console :: console_layer
  ts_level :: level

record trace_lib =
  tl_parse_endpoint :: "string \<Rightarrow> string option"
  tl_parse_level :: "string \<Rightarrow> level option"
  tl_level_info :: level
  tl_level_debug :: level
  tl_default :: tracing_settings

definition trim :: "string \<Rightarrow> string" where
  "trim s = rev (dropWhile is_ascii_space (rev (dropWhile is_ascii_space s)))"

text \<open>\<^verbatim>\<open>split(c)\<close> and the two parts of \<^verbatim>\<open>splitn(2, c)\<close>.\<close>

fun split_on :: "char \<Rightarrow> string \<Rightarrow> string list" where
  "split_on c [] = [[]]"
| "split_on c (x # xs) =
     (if x = c then [] # split_on c xs
      else case split_on c xs of [] \<Rightarrow> [[x]] | y # ys \<Rightarrow> (x # y) # ys)"

definition split_once :: "char \<Rightarrow> string \<Rightarrow> string \<times> string option" where
  "split_once c s =
     (let pre = takeWhile (\<lambda>x. x \<noteq> c) s
      in (pre, if c \<in> set s then Some (drop (Suc (length pre)) s) else None))"

definition parse_filter_pair :: "string \<Rightarrow> (string \<times> string) option" where
  "parse_filter_pair pair =
     (case split_once (CHR ''='') pair of
        (t, None) \<Rightarrow> None
      | (t, Some l) \<Rightarrow>
          (let target = trim t; lvl = trim l
           in if target \<noteq> [] \<and> lvl \<noteq> [] then Some (target, lvl) else None))"

definition file_filter_override :: "env \<Rightarrow> (string \<Rightarrow> string option) option" where
  "file_filter_override ev =
     map_option (\<lambda>raw. fold (\<lambda>(k, v) mp. mp(k \<mapsto> v))
                         (List.map_filter parse_filter_pair (split_on (CHR '','') raw)) Map.empty)
       (nomos_log_filter ev)"

definition file_log_level :: "trace_lib \<Rightarrow> env \<Rightarrow> level" where
  "file_log_level tr ev =
     (case Option.bind (nomos_log_level ev) (tl_parse_level tr) of
        None \<Rightarrow> tl_level_info tr | Some l \<Rightarrow> l)"

definition local_debug_tracing :: "trace_lib \<Rightarrow> env \<Rightarrow> nat \<Rightarrow> tracing_settings" where
  "local_debug_tracing tr ev i =
     (let host = ''node-'' @ show_nat i
      in \<lparr>ts_logger = LokiLogger ''http://localhost:3100'' host,
          ts_tracing =
            (case Option.bind (nomos_otlp_endpoint ev) (tl_parse_endpoint tr) of
               None \<Rightarrow> NoTracing | Some e \<Rightarrow> OtlpTracing e (Fin (1 / 2)) host),
          ts_filter =
            EnvFilter (case file_filter_override ev of None \<Rightarrow> [''nomos'' \<mapsto> ''debug''] | Some f \<Rightarrow> f),
          ts_metrics =
            (case Option.bind (nomos_otlp_metrics_endpoint ev) (tl_parse_endpoint tr) of
               None \<Rightarrow> NoMetrics | Some e \<Rightarrow> OtlpMetrics e host),
          ts_console = NoConsole,
          ts_level = tl_level_debug tr\<rparr>)"

definition apply_file_logger_override ::
  "trace_lib \<Rightarrow> env \<Rightarrow> tracing_settings \<Rightarrow> nat \<Rightarrow> tracing_settings" where
  "apply_file_logger_override tr ev cfg i =
     (case nomos_log_dir ev of
        None \<Rightarrow> cfg
      | Some dir \<Rightarrow>
          cfg\<lparr>ts_logger := FileLogger dir (Some (''logos-blockchain-node-'' @ show_nat i)),
              ts_level := file_log_level tr ev\<rparr>)"

definition maybe_disable_otlp_layers :: "env \<Rightarrow> tracing_settings \<Rightarrow> tracing_settings" where
  "maybe_disable_otlp_layers ev cfg =
     (let c1 = (if nomos_otlp_endpoint ev = None then cfg\<lparr>ts_tracing := NoTracing\<rparr> else cfg)
      in if nomos_otlp_metrics_endpoint ev = None then c1\<lparr>ts_metrics := NoMetrics\<rparr> else c1)"

definition create_debug_configs :: "trace_lib \<Rightarrow> env \<Rightarrow> node_id list \<Rightarrow> tracing_settings list" where
  "create_debug_configs tr ev ids =
     map (\<lambda>i. maybe_disable_otlp_layers ev
                (apply_file_logger_override tr ev (local_debug_tracing tr ev i) i)) [0..<length ids]"

definition create_default_configs :: "trace_lib \<Rightarrow> env \<Rightarrow> node_id list \<Rightarrow> tracing_settings list" where
  "create_default_configs tr ev ids =
     map (\<lambda>i. maybe_disable_otlp_layers ev
                (apply_file_logger_override tr ev (tl_default tr) i)) [0..<length ids]"

definition create_tracing_configs :: "trace_lib \<Rightarrow> env \<Rightarrow> node_id list \<Rightarrow> tracing_settings list" where
  "create_tracing_configs tr ev ids =
     (if debug_tracing ev then create_debug_configs tr ev ids else create_default_configs tr ev ids)"

section \<open>Preloaded keys\<close>

datatype kms_key = EdKey ed_key | ZkSecret zk_key

type_synonym kms_config = "string \<Rightarrow> kms_key option"

fun key_id_for_preload_backend :: "crypto \<Rightarrow> kms_key \<Rightarrow> string" where
  "key_id_for_preload_backend cr (EdKey k) = cr_hex cr (cr_ed_pk_bytes cr (cr_ed_pk cr k))"
| "key_id_for_preload_backend cr (ZkSecret k) = cr_hex cr (cr_zk_pk_bytes cr (cr_zk_pk cr k))"

definition insert_absent :: "string \<Rightarrow> kms_key \<Rightarrow> kms_config \<Rightarrow> kms_config" where
  "insert_absent key_id k keys = (if keys key_id = None then keys(key_id \<mapsto> k) else keys)"

definition blend_keys :: "crypto \<Rightarrow> general_blend_config \<Rightarrow> kms_config" where
  "blend_keys cr bc =
     Map.empty(key_id_for_preload_backend cr (EdKey (gb_signer bc)) \<mapsto> EdKey (gb_signer bc),
               key_id_for_preload_backend cr (ZkSecret (gb_secret_zk_key bc)) \<mapsto> ZkSecret (gb_secret_zk_key bc))"

definition build_kms_config_for_node :: "crypto \<Rightarrow> general_blend_config \<Rightarrow> wallet_config \<Rightarrow> kms_config" where
  "build_kms_config_for_node cr bc wallet =
     fold (\<lambda>a. insert_absent (key_id_for_preload_backend cr (ZkSecret (wa_secret_key a))) (ZkSecret (wa_secret_key a)))
       (wc_accounts wallet) (blend_keys cr bc)"

definition build_kms_configs :: "crypto \<Rightarrow> general_blend_config list \<Rightarrow> kms_config list" where
  "build_kms_configs cr bcs = map (blend_keys cr) bcs"

text \<open>\<^verbatim>\<open>create_kms_configs\<close> of the core crate spells the key identifiers out.\<close>

definition kms_config_of :: "crypto \<Rightarrow> wallet_account list \<Rightarrow> general_blend_config \<Rightarrow> kms_config" where
  "kms_config_of cr accounts bc =
     fold (\<lambda>a. insert_absent (cr_hex cr (cr_zk_pk_bytes cr (wallet_public_key (cr_zk_pk cr) a)))
                 (ZkSecret (wa_secret_key a)))
       accounts
       (Map.empty(cr_hex cr (cr_ed_pk_bytes cr (cr_ed_pk cr (gb_signer bc))) \<mapsto> EdKey (gb_signer bc),
                  cr_hex cr (cr_zk_pk_bytes cr (cr_zk_pk cr (gb_secret_zk_key bc))) \<mapsto> ZkSecret (gb_secret_zk_key bc)))"

definition create_kms_configs ::
  "crypto \<Rightarrow> general_blend_config list \<Rightarrow> wallet_account list \<Rightarrow> kms_config list" where
  "create_kms_configs cr bcs accounts = map (kms_config_of cr accounts) bcs"

section \<open>Shape invariants\<close>

datatype topology_invariant_error =
  InvEmptyParticipants
| InvIdCountMismatch nat nat
| InvDaPortCountMismatch nat nat
| InvBlendPortCountMismatch nat nat

definition validate_node_vectors ::
  "nat \<Rightarrow> node_id list option \<Rightarrow> u16 list option \<Rightarrow> topology_invariant_error + unit" where
  "validate_node_vectors participants ids blend_ports =
     (if participants = 0 then Err InvEmptyParticipants
      else case ids of
        Some is \<Rightarrow>
          if length is \<noteq> participants then Err (InvIdCountMismatch (length is) participants)
          else (case blend_ports of
            Some ps \<Rightarrow> if length ps \<noteq> participants
                       then Err (InvBlendPortCountMismatch (length ps) participants) else Ok ()
          | None \<Rightarrow> Ok ())
      | None \<Rightarrow>
          (case blend_ports of
            Some ps \<Rightarrow> if length ps \<noteq> participants
                       then Err (InvBlendPortCountMismatch (length ps) participants) else Ok ()
          | None \<Rightarrow> Ok ()))"

definition validate_generated_vectors ::
  "nat \<Rightarrow> node_id list \<Rightarrow> u16 list \<Rightarrow> topology_invariant_error + unit" where
  "validate_generated_vectors participants ids blend_ports =
     (if participants = 0 then Err InvEmptyParticipants
      else if length ids \<noteq> participants then Err (InvIdCountMismatch (length ids) participants)
      else if length blend_ports \<noteq> participants
        then Err (InvBlendPortCountMismatch (length blend_ports) participants)
      else Ok ())"

section \<open>Facts\<close>

lemma length_create_blend_configs [simp]:
  "length (create_blend_configs cr ids ports) = min (length ids) (length ports)"
  by (simp add: create_blend_configs_def)

lemma create_blend_configs_nth:
  "i < length ids \<Longrightarrow> i < length ports \<Longrightarrow>
     create_blend_configs cr ids ports ! i = blend_config_for cr (ids ! i) (ports ! i)"
  by (simp add: create_blend_configs_def)

lemma length_create_bootstrap_configs [simp]: "length (create_bootstrap_configs ids p) = length ids"
  by (simp add: create_bootstrap_configs_def)

lemma length_create_tracing_configs [simp]: "length (create_tracing_configs tr ev ids) = length ids"
  by (simp add: create_tracing_configs_def create_debug_configs_def create_default_configs_def)

lemma length_create_kms_configs [simp]: "length (create_kms_configs cr bcs as) = length bcs"
  by (simp add: create_kms_configs_def)

lemma length_build_kms_configs [simp]: "length (build_kms_configs cr bcs) = length bcs"
  by (simp add: build_kms_configs_def)

lemma create_api_configs_length: "create_api_configs ids s = (Ok as, s') \<Longrightarrow> length as = length ids"
  by (simp add: create_api_configs_def collect_os_length)

lemma slot_duration_pos: "0 < gt_slot_duration (default_time_config ev s)"
  by (auto simp: default_time_config_def Let_def from_secs_def nanos_per_sec_def split: option.splits)

lemma validate_generated_vectors_Ok [simp]:
  "validate_generated_vectors n ids ports = Ok u \<longleftrightarrow> 0 < n \<and> length ids = n \<and> length ports = n"
  by (auto simp: validate_generated_vectors_def)

text \<open>The two key preloads agree, although one of them spells the identifiers out.\<close>

lemma kms_config_of_eq: "kms_config_of cr (wc_accounts w) bc = build_kms_config_for_node cr bc w"
  by (simp add: kms_config_of_def build_kms_config_for_node_def blend_keys_def wallet_public_key_def)

lemma insert_absent_keep: "keys k = Some v \<Longrightarrow> insert_absent i x keys k = Some v"
  by (auto simp: insert_absent_def)

lemma fold_insert_absent_keep:
  "keys k = Some v \<Longrightarrow> fold (\<lambda>a. insert_absent (f a) (g a)) xs keys k = Some v"
  by (induction xs arbitrary: keys) (simp_all add: insert_absent_keep)

lemma fold_insert_absent_dom:
  "dom (fold (\<lambda>a. insert_absent (f a) (g a)) xs keys) = dom keys \<union> f ` set xs"
  by (induction xs arbitrary: keys) (auto simp: insert_absent_def)

lemma fold_insert_absent_range:
  "fold (\<lambda>a. insert_absent (f a) (g a)) xs keys k = Some v \<Longrightarrow>
     keys k = Some v \<or> (\<exists>a \<in> set xs. k = f a \<and> v = g a)"
  by (induction xs arbitrary: keys) (fastforce simp: insert_absent_def split: if_splits)+

section \<open>Properties\<close>

text \<open>
  The keys preloaded for a node are exactly the signing and blend keys of its own
  blend configuration and the keys of all wallet accounts, each filed under the identifier derived
  from its own public key; an account never displaces a blend key.  The two code paths that build
  the map, one of which spells the identifiers out, agree.
\<close>

theorem preloaded_keys:
  "kms_config_of cr (wc_accounts w) bc = build_kms_config_for_node cr bc w \<and>
   dom (build_kms_config_for_node cr bc w) =
     key_id_for_preload_backend cr `
       ({EdKey (gb_signer bc), ZkSecret (gb_secret_zk_key bc)} \<union> (\<lambda>a. ZkSecret (wa_secret_key a)) ` set (wc_accounts w)) \<and>
   (\<forall>i k. build_kms_config_for_node cr bc w i = Some k \<longrightarrow> i = key_id_for_preload_backend cr k) \<and>
   (\<forall>i k. blend_keys cr bc i = Some k \<longrightarrow> build_kms_config_for_node cr bc w i = Some k)"
proof (intro conjI allI impI kms_config_of_eq)
  show "dom (build_kms_config_for_node cr bc w) = key_id_for_preload_backend cr `
       ({EdKey (gb_signer bc), ZkSecret (gb_secret_zk_key bc)} \<union> (\<lambda>a. ZkSecret (wa_secret_key a)) ` set (wc_accounts w))"
    unfolding build_kms_config_for_node_def fold_insert_absent_dom
    by (simp add: blend_keys_def image_image insert_commute)
next
  fix i k
  assume "build_kms_config_for_node cr bc w i = Some k"
  from fold_insert_absent_range [OF this [unfolded build_kms_config_for_node_def]]
  show "i = key_id_for_preload_backend cr k"
    by (auto simp: blend_keys_def split: if_splits)
next
  fix i k
  assume "blend_keys cr bc i = Some k"
  then show "build_kms_config_for_node cr bc w i = Some k"
    unfolding build_kms_config_for_node_def by (rule fold_insert_absent_keep)
qed

theorem preloaded_keys_witness:
  "let bc = blend_config_for demo_crypto (replicate 32 1) 4000;
       w = \<lparr>wc_accounts = [\<lparr>wa_label = ''a'', wa_secret_key = 9, wa_value = 5\<rparr>]\<rparr>;
       i = key_id_for_preload_backend demo_crypto (ZkSecret 9)
   in (\<exists>k. build_kms_config_for_node demo_crypto bc w i = Some k \<and> i = key_id_for_preload_backend demo_crypto k)"
proof -
  let ?bc = "blend_config_for demo_crypto (replicate 32 1) 4000"
  let ?w = "\<lparr>wc_accounts = [\<lparr>wa_label = ''a'', wa_secret_key = 9, wa_value = 5\<rparr>]\<rparr>"
  note p = preloaded_keys [of demo_crypto ?w ?bc]
  have "key_id_for_preload_backend demo_crypto (ZkSecret 9) \<in> dom (build_kms_config_for_node demo_crypto ?bc ?w)"
    unfolding p [THEN conjunct2, THEN conjunct1] by simp
  then obtain k where "build_kms_config_for_node demo_crypto ?bc ?w (key_id_for_preload_backend demo_crypto (ZkSecret 9)) = Some k"
    by blast
  with p show ?thesis unfolding Let_def by blast
qed

end
