(* ===== verification/General_Config.thy ===== *)
theory General_Config
  imports Node_Configs
begin

text \<open>
  Assembly of the per-node configuration: the standalone generators of
  \<^verbatim>\<open>configs/src/topology/configs/mod.rs\<close>, the parts shared with the topology builder (\<^verbatim>\<open>base.rs\<close>)
  and the configuration of a single node that joins a running network (\<^verbatim>\<open>runtime.rs\<close>).  The
  functions of other crates travel together in the record \<open>deps\<close>.
\<close>

record deps =
  dp_crypto :: crypto
  dp_net :: net_lib
  dp_trace :: trace_lib

record general_config =
  gc_api_config :: general_api_config
  gc_consensus_config :: general_consensus_config
  gc_bootstrapping_config :: general_bootstrap_config
  gc_network_config :: network_config
  gc_blend_config :: general_blend_config
  gc_tracing_config :: tracing_settings
  gc_time_config :: general_time_config
  gc_kms_config :: kms_config

section \<open>Shared parts\<close>

datatype base_config_error =
  BaseConsensus consensus_config_error
| BaseNetwork network_config_error

record base_configs =
  bs_consensus_configs :: "general_consensus_config list"
  bs_bootstrap_configs :: "general_bootstrap_config list"
  bs_network_configs :: "network_config list"
  bs_blend_configs :: "general_blend_config list"

definition build_base_configs ::
  "deps \<Rightarrow> env \<Rightarrow> node_id list \<Rightarrow> consensus_params \<Rightarrow> network_params \<Rightarrow> wallet_config \<Rightarrow> u16 list \<Rightarrow>
   (base_config_error, base_configs) os_result" where
  "build_base_configs d ev ids cparams nparams wallet blend_ports =
     bind_os (return_os (map_err BaseConsensus (create_consensus_configs (dp_crypto d) ids cparams wallet))) (\<lambda>cs.
     bind_os (map_err_os BaseNetwork (create_network_configs (dp_net d) ev ids nparams)) (\<lambda>ns.
       return_os (Ok
         \<lparr>bs_consensus_configs = cs,
          bs_bootstrap_configs = create_bootstrap_configs ids short_prolonged_bootstrap_period,
          bs_network_configs = ns,
          bs_blend_configs = create_blend_configs (dp_crypto d) ids blend_ports\<rparr>)))"

definition provider_of :: "general_blend_config \<Rightarrow> service_note \<Rightarrow> provider_info" where
  "provider_of bc sn =
     \<lparr>pi_service_type = BlendNetwork,
      pi_provider_sk = gb_signer bc,
      pi_zk_sk = gb_secret_zk_key bc,
      pi_locator = bc_listening_address (gb_backend_core bc),
      pi_note = sn\<rparr>"

definition apply_consensus_genesis_tx ::
  "genesis_tx \<Rightarrow> general_consensus_config list \<Rightarrow> general_consensus_config list" where
  "apply_consensus_genesis_tx g cs = map (\<lambda>c. c\<lparr>gcc_genesis_tx := g\<rparr>) cs"

section \<open>Standalone generation\<close>

datatype general_config_error =
  GenEmptyParticipants
| BlendCoreSubsetTooLarge nat nat
| GenPortAllocationFailed string
| GenInvariants topology_invariant_error
| GenConsensus consensus_config_error
| GenNetwork network_config_error
| GenApi api_config_error

definition validate_node_counts :: "nat \<Rightarrow> nat \<Rightarrow> general_config_error + unit" where
  "validate_node_counts n_nodes n_core =
     (if n_nodes = 0 then Err GenEmptyParticipants
      else if n_nodes < n_core then Err (BlendCoreSubsetTooLarge n_core n_nodes)
      else Ok ())"

text \<open>
  Identifiers start as repeated index bytes and are overwritten with random bytes one by one; each
  is followed by a port query.
\<close>

definition generate_ids_and_ports ::
  "nat \<Rightarrow> (general_config_error, node_id list \<times> u16 list) os_result" where
  "generate_ids_and_ports n =
     bind_os
       (collect_os (\<lambda>_ s.
          case fill_id s of (nid, s1) \<Rightarrow>
            bind_os (ok_or_os (GenPortAllocationFailed ''Blend'') get_available_udp_port)
              (\<lambda>port. return_os (Ok (nid, port))) s1) [0..<n])
       (\<lambda>ps. return_os (Ok (map fst ps, map snd ps)))"

definition collect_blend_core_providers ::
  "general_consensus_config \<Rightarrow> general_blend_config list \<Rightarrow> nat \<Rightarrow>
   general_config_error + provider_info list" where
  "collect_blend_core_providers first bcs n_core =
     collect_results (\<lambda>i.
       and_then (ok_or GenEmptyParticipants (get (gcc_blend_notes first) i)) (\<lambda>sn.
         Ok (provider_of (bcs ! i) sn))) [0..<min n_core (length bcs)]"

definition get_cloned_or_empty :: "'a list \<Rightarrow> nat \<Rightarrow> general_config_error + 'a" where
  "get_cloned_or_empty items i = ok_or GenEmptyParticipants (get items i)"

definition build_general_configs ::
  "nat \<Rightarrow> general_api_config list \<Rightarrow> general_consensus_config list \<Rightarrow> general_bootstrap_config list \<Rightarrow>
   network_config list \<Rightarrow> general_blend_config list \<Rightarrow> tracing_settings list \<Rightarrow> kms_config list \<Rightarrow>
   general_time_config \<Rightarrow> general_config_error + general_config list" where
  "build_general_configs n apis cons boots nets blends traces kmss time =
     collect_results (\<lambda>i.
       and_then (get_cloned_or_empty apis i) (\<lambda>api.
       and_then (get_cloned_or_empty cons i) (\<lambda>con.
       and_then (get_cloned_or_empty boots i) (\<lambda>boot.
       and_then (get_cloned_or_empty nets i) (\<lambda>net.
       and_then (get_cloned_or_empty blends i) (\<lambda>blend.
       and_then (get_cloned_or_empty traces i) (\<lambda>trace.
       and_then (get_cloned_or_empty kmss i) (\<lambda>kms.
         Ok \<lparr>gc_api_config = api, gc_consensus_config = con, gc_bootstrapping_config = boot,
             gc_network_config = net, gc_blend_config = blend, gc_tracing_config = trace,
             gc_time_config = time, gc_kms_config = kms\<rparr>))))))))
       [0..<n]"

definition create_general_configs_with_blend_core_subset ::
  "deps \<Rightarrow> env \<Rightarrow> nat \<Rightarrow> nat \<Rightarrow> network_params \<Rightarrow>
   (general_config_error, general_config list) os_result" where
  "create_general_configs_with_blend_core_subset d ev n_nodes n_core nparams =
     bind_os (return_os (validate_node_counts n_nodes n_core)) (\<lambda>_.
     bind_os (generate_ids_and_ports n_nodes) (\<lambda>(ids, blend_ports).
     bind_os (return_os (map_err GenInvariants (validate_generated_vectors n_nodes ids blend_ports))) (\<lambda>_.
     bind_os (return_os (map_err GenConsensus
        (create_consensus_configs (dp_crypto d) ids (default_for_participants ev n_nodes) wallet_config_default))) (\<lambda>cs.
     bind_os (map_err_os GenNetwork (create_network_configs (dp_net d) ev ids nparams)) (\<lambda>nets.
     bind_os (map_err_os GenApi (create_api_configs ids)) (\<lambda>apis s.
       let blends = create_blend_configs (dp_crypto d) ids blend_ports;
           traces = create_tracing_configs (dp_trace d) ev ids;
           time = default_time_config ev s
       in (case cs of
             [] \<Rightarrow> Err GenEmptyParticipants
           | first # _ \<Rightarrow>
               and_then (collect_blend_core_providers first blends n_core) (\<lambda>providers.
               and_then (map_err GenConsensus
                  (create_genesis_tx_with_declarations (dp_crypto d)
                     (mtx_ledger_tx (cr_genesis_mantle_tx (dp_crypto d) (gcc_genesis_tx first))) providers)) (\<lambda>genesis.
                 build_general_configs n_nodes apis (apply_consensus_genesis_tx genesis cs)
                   (create_bootstrap_configs ids short_prolonged_bootstrap_period) nets blends traces
                   (build_kms_configs (dp_crypto d) blends) time)), s)))))))"

definition create_general_configs_with_network ::
  "deps \<Rightarrow> env \<Rightarrow> nat \<Rightarrow> network_params \<Rightarrow> (general_config_error, general_config list) os_result" where
  "create_general_configs_with_network d ev n nparams =
     create_general_configs_with_blend_core_subset d ev n n nparams"

definition create_general_configs ::
  "deps \<Rightarrow> env \<Rightarrow> nat \<Rightarrow> (general_config_error, general_config list) os_result" where
  "create_general_configs d ev n = create_general_configs_with_network d ev n network_params_default"

section \<open>A node joining a running network\<close>

definition build_consensus_config_for_node ::
  "deps \<Rightarrow> node_id \<Rightarrow> consensus_params \<Rightarrow> wallet_config \<Rightarrow> general_consensus_config \<Rightarrow>
   general_config_error + general_consensus_config" where
  "build_consensus_config_for_node d nid cparams wallet base =
     and_then (map_err GenConsensus (create_consensus_configs (dp_crypto d) [nid] cparams wallet)) (\<lambda>cs.
     and_then (ok_or GenEmptyParticipants (first_of cs)) (\<lambda>c.
       Ok (c\<lparr>gcc_genesis_tx := gcc_genesis_tx base,
             gcc_utxos := gcc_utxos base,
             gcc_blend_notes := gcc_blend_notes base,
             gcc_wallet_accounts := gcc_wallet_accounts base\<rparr>)))"

definition build_general_config_for_node ::
  "deps \<Rightarrow> env \<Rightarrow> node_id \<Rightarrow> u16 \<Rightarrow> multiaddr list \<Rightarrow> u16 \<Rightarrow> consensus_params \<Rightarrow> wallet_config \<Rightarrow>
   general_consensus_config \<Rightarrow> general_time_config \<Rightarrow> (general_config_error, general_config) os_result" where
  "build_general_config_for_node d ev nid network_port peers blend_port cparams wallet base time =
     bind_os (return_os (build_consensus_config_for_node d nid cparams wallet base)) (\<lambda>con.
     bind_os (return_os (ok_or GenEmptyParticipants
        (first_of (create_bootstrap_configs [nid] short_prolonged_bootstrap_period)))) (\<lambda>boot.
     bind_os (return_os (ok_or GenEmptyParticipants
        (first_of (create_blend_configs (dp_crypto d) [nid] [blend_port])))) (\<lambda>blend.
     bind_os (return_os (map_err GenNetwork
        (build_network_config_for_node (dp_net d) ev nid network_port peers))) (\<lambda>net.
     bind_os (map_err_os GenApi (create_api_configs [nid])) (\<lambda>apis.
     bind_os (return_os (ok_or GenEmptyParticipants (first_of apis))) (\<lambda>api.
     bind_os (return_os (ok_or GenEmptyParticipants
        (first_of (create_tracing_configs (dp_trace d) ev [nid])))) (\<lambda>trace.
       return_os (Ok
         \<lparr>gc_api_config = api, gc_consensus_config = con, gc_bootstrapping_config = boot,
          gc_network_config = net, gc_blend_config = blend, gc_tracing_config = trace,
          gc_time_config = time,
          gc_kms_config = build_kms_config_for_node (dp_crypto d) blend wallet\<rparr>))))))))"

section \<open>Providers\<close>

text \<open>
  Three places pair blend configurations with blend notes.  What they have in common is all the
  genesis declarations need: provider \<open>i\<close> is blend configuration \<open>i\<close> with note \<open>i\<close>.
\<close>

definition pairs_notes ::
  "service_note list \<Rightarrow> general_blend_config list \<Rightarrow> provider_info list \<Rightarrow> bool" where
  "pairs_notes notes bcs ps \<longleftrightarrow>
     length ps \<le> length bcs \<and> length ps \<le> length notes \<and>
     (\<forall>i < length ps. ps ! i = provider_of (bcs ! i) (notes ! i))"

text \<open>Operation \<open>i + 1\<close> declares this blend node and locks an output owned by the given key.\<close>

definition declares_node :: "crypto \<Rightarrow> mantle_tx \<Rightarrow> nat \<Rightarrow> general_blend_config \<Rightarrow> zk_key \<Rightarrow> bool" where
  "declares_node cr mtx i bc sk \<longleftrightarrow>
     (let outs = ltx_outputs (mtx_ledger_tx mtx) in
      \<exists>d k. mtx_ops mtx ! Suc i = SDPDeclare d \<and>
        dm_provider_id d = cr_ed_pk cr (gb_signer bc) \<and>
        dm_zk_id d = cr_zk_pk cr (gb_secret_zk_key bc) \<and>
        dm_locators d = [bc_listening_address (gb_backend_core bc)] \<and>
        k < length outs \<and> note_pk (outs ! k) = cr_zk_pk cr sk \<and>
        dm_locked_note_id d =
          cr_utxo_id cr \<lparr>utxo_tx_hash = cr_ledger_hash cr (mtx_ledger_tx mtx),
                         utxo_output_index = k, utxo_note = outs ! k\<rparr>)"

locale provider_collector =
  fixes collect :: "general_consensus_config \<Rightarrow> general_blend_config list \<Rightarrow> 'e + provider_info list"
  assumes collect_pairs: "collect c bcs = Ok ps \<Longrightarrow> pairs_notes (gcc_blend_notes c) bcs ps"
begin

lemma collect_notes: "collect c bcs = Ok ps \<Longrightarrow> list_all (\<lambda>p. pi_note p \<in> set (gcc_blend_notes c)) ps"
  using collect_pairs by (fastforce simp: pairs_notes_def list_all_length provider_of_def)

lemma collected_genesis:
  assumes "genesis_wraps cr" "create_consensus_configs cr ids params wallet = Ok cs" "c \<in> set cs"
    and "collect c bcs = Ok ps"
    and "create_genesis_tx_with_declarations cr
           (mtx_ledger_tx (cr_genesis_mantle_tx cr (gcc_genesis_tx c))) ps = Ok g"
  shows "length (mtx_ops (cr_genesis_mantle_tx cr g)) = Suc (length ps) \<and>
    (\<forall>i < length ps. declares_node cr (cr_genesis_mantle_tx cr g) i (bcs ! i) (sn_sk (gcc_blend_notes c ! i)))"
proof -
  note lock = genesis_declarations_lock_outputs [OF assms(1-3) collect_notes [OF assms(4)] assms(5)]
  have ps: "ps ! i = provider_of (bcs ! i) (gcc_blend_notes c ! i)" if "i < length ps" for i
    using collect_pairs [OF assms(4)] that by (simp add: pairs_notes_def)
  have "declares_node cr (cr_genesis_mantle_tx cr g) i (bcs ! i) (sn_sk (gcc_blend_notes c ! i))"
    if "i < length ps" for i
    using lock [unfolded Let_def, THEN conjunct2, rule_format, OF that]
    by (simp add: declares_node_def Let_def ps [OF that] provider_of_def provider_id_def provider_zk_id_def)
  with lock show ?thesis by (simp add: Let_def)
qed

end

lemma collect_blend_core_providers_pairs:
  assumes "collect_blend_core_providers c bcs n = Ok ps"
  shows "pairs_notes (gcc_blend_notes c) bcs ps" "length ps = min n (length bcs)"
proof -
  note c = assms [unfolded collect_blend_core_providers_def]
  show len: "length ps = min n (length bcs)" using collect_results_length [OF c] by simp
  have nth: "i < length (gcc_blend_notes c) \<and> ps ! i = provider_of (bcs ! i) (gcc_blend_notes c ! i)"
    if "i < length ps" for i
    using collect_results_nth [OF c, of i] that len by (auto simp: result_iffs)
  have "length ps \<le> length (gcc_blend_notes c)"
  proof (cases "length ps")
    case (Suc k)
    with nth [of k] show ?thesis by simp
  qed simp
  with len nth show "pairs_notes (gcc_blend_notes c) bcs ps" by (simp add: pairs_notes_def)
qed

interpretation core_providers: provider_collector "\<lambda>c bcs. collect_blend_core_providers c bcs n" for n
  by unfold_locales (rule collect_blend_core_providers_pairs)

section \<open>Facts\<close>

lemma consensus_lengths:
  assumes "create_consensus_configs cr ids params wallet = Ok cs"
  shows "length cs = length ids" "c \<in> set cs \<Longrightarrow> length (gcc_blend_notes c) = length ids"
  using assms by (auto elim!: create_consensus_configs_Ok)

lemma blend_notes_shared:
  "create_consensus_configs cr ids params wallet = Ok cs \<Longrightarrow> c \<in> set cs \<Longrightarrow> c' \<in> set cs \<Longrightarrow>
     gcc_blend_notes c = gcc_blend_notes c'"
  by (auto elim!: create_consensus_configs_Ok)

lemma generate_ids_and_ports_Ok:
  assumes "generate_ids_and_ports n s = (Ok (ids, ports), s')"
  shows "length ids = n" "length ports = n"
  using assms collect_os_length by (fastforce simp: generate_ids_and_ports_def os_iffs)+

lemma get_cloned_or_empty_Ok [simp]: "get_cloned_or_empty xs i = Ok x \<longleftrightarrow> i < length xs \<and> x = xs ! i"
  by (auto simp: get_cloned_or_empty_def result_iffs)

lemma build_general_configs_Ok:
  assumes "build_general_configs n apis cons boots nets blends traces kmss time = Ok gs"
  shows "length gs = n"
    "i < n \<Longrightarrow> gc_consensus_config (gs ! i) = cons ! i \<and> gc_blend_config (gs ! i) = blends ! i \<and>
       gc_network_config (gs ! i) = nets ! i \<and> gc_api_config (gs ! i) = apis ! i \<and>
       gc_kms_config (gs ! i) = kmss ! i \<and> i < length cons \<and> i < length blends \<and> i < length kmss"
proof -
  note c = assms [unfolded build_general_configs_def]
  show "length gs = n" using collect_results_length [OF c] by simp
  show "gc_consensus_config (gs ! i) = cons ! i \<and> gc_blend_config (gs ! i) = blends ! i \<and>
       gc_network_config (gs ! i) = nets ! i \<and> gc_api_config (gs ! i) = apis ! i \<and>
       gc_kms_config (gs ! i) = kmss ! i \<and> i < length cons \<and> i < length blends \<and> i < length kmss" if "i < n"
    using collect_results_nth [OF c, of i] that
    by (auto simp: and_then_eq_Ok dest!: sym [of _ "gs ! i"])
qed

lemma create_general_configs_Ok:
  assumes "create_general_configs_with_blend_core_subset d ev n k np s = (Ok gs, s')"
  obtains ids ports cs first rest ps g nets apis traces time where
    "0 < n" "k \<le> n" "length ids = n" "length ports = n"
    "create_consensus_configs (dp_crypto d) ids (default_for_participants ev n) wallet_config_default = Ok cs"
    "cs = first # rest"
    "collect_blend_core_providers first (create_blend_configs (dp_crypto d) ids ports) k = Ok ps"
    "create_genesis_tx_with_declarations (dp_crypto d)
       (mtx_ledger_tx (cr_genesis_mantle_tx (dp_crypto d) (gcc_genesis_tx first))) ps = Ok g"
    "build_general_configs n apis (apply_consensus_genesis_tx g cs)
       (create_bootstrap_configs ids short_prolonged_bootstrap_period) nets
       (create_blend_configs (dp_crypto d) ids ports) traces
       (build_kms_configs (dp_crypto d) (create_blend_configs (dp_crypto d) ids ports)) time = Ok gs"
proof -
  from assms obtain ids ports s1 cs nets s2 apis where
    counts: "validate_node_counts n k = Ok ()"
    and gen: "generate_ids_and_ports n s = (Ok (ids, ports), s1)"
    and cs: "create_consensus_configs (dp_crypto d) ids (default_for_participants ev n) wallet_config_default = Ok cs"
    and fin: "(case cs of
             [] \<Rightarrow> Err GenEmptyParticipants
           | first # _ \<Rightarrow>
               and_then (collect_blend_core_providers first (create_blend_configs (dp_crypto d) ids ports) k) (\<lambda>providers.
               and_then (map_err GenConsensus
                  (create_genesis_tx_with_declarations (dp_crypto d)
                     (mtx_ledger_tx (cr_genesis_mantle_tx (dp_crypto d) (gcc_genesis_tx first))) providers)) (\<lambda>genesis.
                 build_general_configs n apis (apply_consensus_genesis_tx genesis cs)
                   (create_bootstrap_configs ids short_prolonged_bootstrap_period) nets
                   (create_blend_configs (dp_crypto d) ids ports)
                   (create_tracing_configs (dp_trace d) ev ids)
                   (build_kms_configs (dp_crypto d) (create_blend_configs (dp_crypto d) ids ports))
                   (default_time_config ev s')))) = Ok gs"
    unfolding create_general_configs_with_blend_core_subset_def Let_def
    by (auto simp: os_iffs map_err_eq_Ok)
  from counts have n: "0 < n" "k \<le> n" by (auto simp: validate_node_counts_def split: if_splits)
  from fin show ?thesis
    by (cases cs) (auto simp: result_iffs intro: that [OF n generate_ids_and_ports_Ok [OF gen] cs])
qed

text \<open>Every call into another crate that the build makes succeeds.\<close>

definition deps_succeed :: "deps \<Rightarrow> bool" where
  "deps_succeed d \<longleftrightarrow>
     (\<forall>bs. is_ok (nl_secret_key (dp_net d) bs)) \<and> (\<forall>a. is_ok (nl_parse_multiaddr (dp_net d) a)) \<and>
     is_ok (cr_ed_pk_from_bytes (dp_crypto d) (replicate 32 0)) \<and>
     (\<forall>t. is_ok (cr_genesis_from_tx (dp_crypto d) t)) \<and>
     (\<forall>ks h. is_ok (cr_multi_sign (dp_crypto d) ks h)) \<and>
     cr_nonneg_f64 (dp_crypto d) (Fin 1) \<noteq> None"

lemma is_ok_and_then [simp]: "is_ok (and_then r f) \<longleftrightarrow> (\<exists>x. r = Inr x \<and> is_ok (f x))"
  by (cases r) auto

lemma is_ok_map_err [simp]: "is_ok (map_err h r) \<longleftrightarrow> is_ok r"
  by (cases r) auto

lemma genesis_inscription_Ok: "deps_succeed d \<Longrightarrow> \<exists>ins. build_genesis_inscription (dp_crypto d) = Ok ins"
  by (auto simp: build_genesis_inscription_def deps_succeed_def is_ok_iff)

lemma genesis_tx_Ok: "deps_succeed d \<Longrightarrow> \<exists>g. build_genesis_tx (dp_crypto d) mtx proofs = Ok g"
  unfolding build_genesis_tx_def deps_succeed_def is_ok_iff map_err_eq_Ok by blast

lemma create_consensus_configs_is_ok:
  assumes "deps_succeed d"
  shows "is_ok (create_consensus_configs (dp_crypto d) ids cp w)"
proof -
  obtain ins where ins: "build_genesis_inscription (dp_crypto d) = Ok ins"
    using genesis_inscription_Ok [OF assms] by blast
  have "\<exists>g. create_genesis_tx (dp_crypto d) us = Ok g" for us
    using genesis_tx_Ok [OF assms] by (simp add: create_genesis_tx_def ins)
  moreover have "\<exists>l. build_ledger_config (dp_crypto d) cp = Ok l"
    using assms by (auto simp: build_ledger_config_def deps_succeed_def)
  ultimately show ?thesis by (simp add: create_consensus_configs_def Let_def)
qed

lemma create_genesis_with_declarations_is_ok:
  assumes "deps_succeed d"
  shows "is_ok (create_genesis_tx_with_declarations (dp_crypto d) ltx ps)"
proof -
  have "\<exists>proofs. build_genesis_ops_proofs (dp_crypto d) h ps = Ok proofs" for h
  proof -
    have "\<forall>p :: provider_info. \<exists>x. and_then (map_err DeclarationSignature (cr_multi_sign (dp_crypto d) [sn_sk (pi_note p), pi_zk_sk p] h))
        (\<lambda>z. Ok (ZkAndEd25519Sigs z (cr_ed_sign (dp_crypto d) (pi_provider_sk p) h))) = Ok x"
      using assms by (auto simp: deps_succeed_def is_ok_iff map_err_eq_Ok and_then_eq_Ok)
    then obtain f where "\<And>p :: provider_info. and_then (map_err DeclarationSignature (cr_multi_sign (dp_crypto d) [sn_sk (pi_note p), pi_zk_sk p] h))
        (\<lambda>z. Ok (ZkAndEd25519Sigs z (cr_ed_sign (dp_crypto d) (pi_provider_sk p) h))) = Ok (f p)" by metis
    then show ?thesis
      using collect_results_total [of ps "\<lambda>p. Ok (f p) :: consensus_config_error + op_proof" f] by (simp add: build_genesis_ops_proofs_def)
  qed
  with genesis_inscription_Ok [OF assms] genesis_tx_Ok [OF assms] show ?thesis
    by (fastforce simp: create_genesis_tx_with_declarations_def Let_def is_ok_iff and_then_eq_Ok)
qed

lemma swarm_config_is_ok: "deps_succeed d \<Longrightarrow> is_ok (swarm_config_for (dp_net d) ev k p)"
  by (auto simp: swarm_config_for_def nat_settings_for_def deps_succeed_def is_ok_iff map_err_eq_Ok and_then_eq_Ok)

lemma base_configs_succeed: "deps_succeed d \<Longrightarrow> succeeds (build_base_configs d ev ids cp np w ports)"
  unfolding build_base_configs_def create_network_configs_def
  by (intro succeeds_bind succeeds_return succeeds_map_err succeeds_collect succeeds_udp)
    (auto simp: create_consensus_configs_is_ok swarm_config_is_ok, simp add: deps_succeed_def)

lemma api_configs_succeed: "succeeds (create_api_configs ids)"
  unfolding create_api_configs_def by (intro succeeds_collect succeeds_bind succeeds_tcp succeeds_return) simp

definition demo_deps :: deps where
  "demo_deps =
     \<lparr>dp_crypto = demo_crypto, dp_net = demo_net_lib,
      dp_trace = \<lparr>tl_parse_endpoint = Some, tl_parse_level = (\<lambda>_. None), tl_level_info = 3, tl_level_debug = 4,
        tl_default = \<lparr>ts_logger = OtherLogger 0, ts_tracing = NoTracing, ts_filter = OtherFilter 0,
          ts_metrics = NoMetrics, ts_console = NoConsole, ts_level = 3\<rparr>\<rparr>\<rparr>"

lemma demo_deps_sel [simp]: "dp_crypto demo_deps = demo_crypto" "dp_net demo_deps = demo_net_lib"
  by (simp_all add: demo_deps_def)

lemma demo_deps_succeed [simp]: "deps_succeed demo_deps"
  by (simp add: deps_succeed_def demo_net_lib_def)

lemma demo_os_ports [simp]: "ports_available demo_os"
  by (simp add: ports_available_def demo_os_def)

section \<open>Properties\<close>

text \<open>
  Configurations generated with a blend core subset of size \<open>k\<close> out of \<open>n\<close> nodes (both
  checked first) come one per node and share one genesis transaction, which declares exactly the
  first \<open>k\<close> nodes, in order, each under the keys and address of its own blend configuration and
  locking an existing output owned by its own blend note; every node preloads exactly the two keys
  of its blend configuration.
\<close>

theorem general_configs_core_subset:
  assumes "genesis_wraps (dp_crypto d)"
    and "create_general_configs_with_blend_core_subset d ev n k np s = (Ok gs, s')"
  shows "0 < n \<and> k \<le> n \<and> length gs = n \<and>
    (\<exists>g. length (mtx_ops (cr_genesis_mantle_tx (dp_crypto d) g)) = Suc k \<and>
      (\<forall>i < n. gcc_genesis_tx (gc_consensus_config (gs ! i)) = g \<and>
         gc_kms_config (gs ! i) = blend_keys (dp_crypto d) (gc_blend_config (gs ! i))) \<and>
      (\<forall>i < k. declares_node (dp_crypto d) (cr_genesis_mantle_tx (dp_crypto d) g) i (gc_blend_config (gs ! i))
         (sn_sk (gcc_blend_notes (gc_consensus_config (gs ! i)) ! i))))"
  using assms(2)
proof (rule create_general_configs_Ok)
  fix ids ports cs rest ps g nets apis traces time and first :: general_consensus_config
  let ?bcs = "create_blend_configs (dp_crypto d) ids ports"
  assume n: "0 < n" "k \<le> n" "length ids = n" "length ports = n"
    and cs: "create_consensus_configs (dp_crypto d) ids (default_for_participants ev n) wallet_config_default = Ok cs"
    "cs = first # rest"
    and ps: "collect_blend_core_providers first ?bcs k = Ok ps"
    and g: "create_genesis_tx_with_declarations (dp_crypto d)
       (mtx_ledger_tx (cr_genesis_mantle_tx (dp_crypto d) (gcc_genesis_tx first))) ps = Ok g"
    and gs: "build_general_configs n apis (apply_consensus_genesis_tx g cs)
       (create_bootstrap_configs ids short_prolonged_bootstrap_period) nets ?bcs traces
       (build_kms_configs (dp_crypto d) ?bcs) time = Ok gs"
  have mem: "first \<in> set cs" by (simp add: cs(2))
  note decl = core_providers.collected_genesis [OF assms(1) cs(1) mem ps g]
  have k: "length ps = k" using collect_blend_core_providers_pairs(2) [OF ps] n by simp
  note node = build_general_configs_Ok [OF gs]
  have "length cs = n" using cs(1) n(3) by (auto elim!: create_consensus_configs_Ok)
  then have same: "gcc_blend_notes (cs ! i) = gcc_blend_notes first" if "i < n" for i
    using that by (intro blend_notes_shared [OF cs(1) _ mem]) simp
  have "gcc_genesis_tx (gc_consensus_config (gs ! i)) = g \<and>
      gc_kms_config (gs ! i) = blend_keys (dp_crypto d) (gc_blend_config (gs ! i)) \<and>
      gc_blend_config (gs ! i) = ?bcs ! i \<and> gcc_blend_notes (gc_consensus_config (gs ! i)) = gcc_blend_notes first"
    if "i < n" for i
    using node(2) [OF that] same [OF that] by (simp add: apply_consensus_genesis_tx_def build_kms_configs_def)
  with decl k n node(1) show ?thesis by (intro conjI exI [of _ g]) auto
qed

text \<open>
  A node configured to join a running network takes over the network's genesis
  transaction, outputs, blend notes and wallet accounts unchanged, keeps leader and funding keys
  derived from its own identifier, listens and dials as told, and preloads its blend keys and all
  wallet keys.
\<close>

theorem joining_node_config:
  assumes "build_general_config_for_node d ev nid port peers bport cp w base time s = (Ok gc, s')"
  shows "let c = gc_consensus_config gc in
    gcc_genesis_tx c = gcc_genesis_tx base \<and> gcc_utxos c = gcc_utxos base \<and>
    gcc_blend_notes c = gcc_blend_notes base \<and> gcc_wallet_accounts c = gcc_wallet_accounts base \<and>
    gcc_leader_sk c = role_key (dp_crypto d) prefix_ld nid \<and>
    gcc_funding_sk c = role_key (dp_crypto d) prefix_sdp nid \<and>
    nc_initial_peers (gc_network_config gc) = peers \<and> sw_port (nc_swarm (gc_network_config gc)) = port \<and>
    nl_secret_key (dp_net d) nid = Ok (sw_node_key (nc_swarm (gc_network_config gc))) \<and>
    gc_blend_config gc = blend_config_for (dp_crypto d) nid bport \<and>
    gc_kms_config gc = build_kms_config_for_node (dp_crypto d) (gc_blend_config gc) w \<and>
    gc_time_config gc = time"
proof -
  from assms obtain con net api trace boot where gc: "gc =
      \<lparr>gc_api_config = api, gc_consensus_config = con, gc_bootstrapping_config = boot,
       gc_network_config = net, gc_blend_config = blend_config_for (dp_crypto d) nid bport,
       gc_tracing_config = trace, gc_time_config = time,
       gc_kms_config = build_kms_config_for_node (dp_crypto d) (blend_config_for (dp_crypto d) nid bport) w\<rparr>"
    and con: "build_consensus_config_for_node d nid cp w base = Ok con"
    and net: "build_network_config_for_node (dp_net d) ev nid port peers = Ok net"
    by (auto simp: build_general_config_for_node_def os_iffs result_iffs create_blend_configs_def)
  from con have "gcc_genesis_tx con = gcc_genesis_tx base \<and> gcc_utxos con = gcc_utxos base \<and>
    gcc_blend_notes con = gcc_blend_notes base \<and> gcc_wallet_accounts con = gcc_wallet_accounts base \<and>
    gcc_leader_sk con = role_key (dp_crypto d) prefix_ld nid \<and>
    gcc_funding_sk con = role_key (dp_crypto d) prefix_sdp nid"
    by (auto simp: build_consensus_config_for_node_def result_iffs elim!: create_consensus_configs_Ok)
  moreover from net have "nc_initial_peers net = peers \<and> sw_port (nc_swarm net) = port \<and>
      nl_secret_key (dp_net d) nid = Ok (sw_node_key (nc_swarm net))"
    by (auto simp: build_network_config_for_node_def swarm_config_for_def result_iffs)
  ultimately show ?thesis by (simp add: gc Let_def)
qed

lemma demo_joining_consensus:
  "\<exists>c. build_consensus_config_for_node demo_deps nid cp w base = Ok c"
proof -
  obtain cs where cs: "create_consensus_configs demo_crypto [nid] cp w = Ok cs"
    using create_consensus_configs_is_ok [of demo_deps "[nid]" cp w] by (auto simp: is_ok_iff)
  then have "length cs = 1" by (auto elim!: create_consensus_configs_Ok)
  with cs show ?thesis by (cases cs) (auto simp: build_consensus_config_for_node_def)
qed

lemma demo_joining_Ok:
  "\<exists>gc s'. build_general_config_for_node demo_deps Map.empty nid port peers bport cp w base time demo_os = (Ok gc, s')"
proof -
  obtain c where "build_consensus_config_for_node demo_deps nid cp w base = Ok c"
    using demo_joining_consensus by blast
  moreover obtain n where "build_network_config_for_node demo_net_lib Map.empty nid port peers = Ok n"
    by (simp add: build_network_config_for_node_def swarm_config_for_def nat_settings_for_def
        nomos_use_autonat_def demo_net_lib_def)
  moreover have "\<exists>api s'. create_api_configs [nid] demo_os = (Ok [api], s')"
    by (simp add: create_api_configs_def bind_os_def ok_or_os_def return_os_def get_available_tcp_port_def demo_os_def)
  moreover obtain t where "first_of (create_tracing_configs (dp_trace demo_deps) Map.empty [nid]) = Some t"
    by (cases "create_tracing_configs (dp_trace demo_deps) Map.empty [nid]")
      (auto dest: arg_cong [of _ _ length])
  ultimately show ?thesis
    by (auto simp: build_general_config_for_node_def bind_os_def return_os_def map_err_os_def
        create_bootstrap_configs_def create_blend_configs_def)
qed

theorem joining_node_config_witness:
  "\<exists>gc s'. build_general_config_for_node demo_deps Map.empty (replicate 32 9) 4100 [] 4200 demo_params
       wallet_config_default \<lparr>gcc_leader_pk = 1, gcc_leader_sk = 2, gcc_ledger_config = undefined,
         gcc_genesis_tx = undefined, gcc_utxos = [], gcc_blend_notes = [], gcc_wallet_accounts = [],
         gcc_funding_sk = 3\<rparr> (default_time_config Map.empty demo_os) demo_os = (Ok gc, s') \<and>
     sw_port (nc_swarm (gc_network_config gc)) = 4100 \<and> gcc_utxos (gc_consensus_config gc) = []"
proof -
  obtain gc s' where gc: "build_general_config_for_node demo_deps Map.empty (replicate 32 9) 4100 [] 4200 demo_params
       wallet_config_default \<lparr>gcc_leader_pk = 1, gcc_leader_sk = 2, gcc_ledger_config = undefined,
         gcc_genesis_tx = undefined, gcc_utxos = [], gcc_blend_notes = [], gcc_wallet_accounts = [],
         gcc_funding_sk = 3\<rparr> (default_time_config Map.empty demo_os) demo_os = (Ok gc, s')"
    using demo_joining_Ok by blast
  from joining_node_config [OF gc] gc show ?thesis by (simp add: Let_def)
qed

lemma network_configs_succeed:
  "deps_succeed d \<Longrightarrow> succeeds (create_network_configs (dp_net d) ev ids np)"
  unfolding create_network_configs_def
  by (intro succeeds_bind succeeds_return succeeds_collect succeeds_udp)
    (auto simp: swarm_config_is_ok, simp add: deps_succeed_def)

lemma generate_succeeds: "succeeds (generate_ids_and_ports n)"
proof -
  have "succeeds (\<lambda>s. case fill_id s of (nid, s1) \<Rightarrow>
      bind_os (ok_or_os (GenPortAllocationFailed ''Blend'') get_available_udp_port)
        (\<lambda>port. return_os (Ok (nid, port))) s1)"
    by (intro succeeds_fill succeeds_bind succeeds_udp succeeds_return) simp
  then show ?thesis
    unfolding generate_ids_and_ports_def by (intro succeeds_bind succeeds_collect succeeds_return) auto
qed

lemma core_subset_finish_Ok:
  assumes "deps_succeed d" "k \<le> n" "length ids = n" "length ports = n" "length nets = n" "length apis = n"
    and cs: "create_consensus_configs (dp_crypto d) ids cp w = Ok (first # rest)"
  shows "\<exists>ps g gs. collect_blend_core_providers first (create_blend_configs (dp_crypto d) ids ports) k = Ok ps \<and>
    create_genesis_tx_with_declarations (dp_crypto d)
       (mtx_ledger_tx (cr_genesis_mantle_tx (dp_crypto d) (gcc_genesis_tx first))) ps = Ok g \<and>
    build_general_configs n apis (apply_consensus_genesis_tx g (first # rest))
       (create_bootstrap_configs ids short_prolonged_bootstrap_period) nets
       (create_blend_configs (dp_crypto d) ids ports) (create_tracing_configs (dp_trace d) ev ids)
       (build_kms_configs (dp_crypto d) (create_blend_configs (dp_crypto d) ids ports)) time = Ok gs"
proof -
  let ?bcs = "create_blend_configs (dp_crypto d) ids ports"
  have len: "length (first # rest) = n" "length (gcc_blend_notes first) = n"
    using consensus_lengths [OF cs] assms(3) by simp_all
  have "collect_blend_core_providers first ?bcs k =
      Ok (map (\<lambda>i. provider_of (?bcs ! i) (gcc_blend_notes first ! i)) [0..<min k (length ?bcs)])"
    unfolding collect_blend_core_providers_def
    by (rule collect_results_total) (use assms len in \<open>simp add: get_def\<close>)
  moreover obtain g where "create_genesis_tx_with_declarations (dp_crypto d)
       (mtx_ledger_tx (cr_genesis_mantle_tx (dp_crypto d) (gcc_genesis_tx first)))
       (map (\<lambda>i. provider_of (?bcs ! i) (gcc_blend_notes first ! i)) [0..<min k (length ?bcs)]) = Ok g"
    using create_genesis_with_declarations_is_ok [OF assms(1)] unfolding is_ok_iff by blast
  moreover have "\<exists>gs. build_general_configs n apis cons boots nets ?bcs traces kmss time = Ok gs"
    if "length cons = n" "length boots = n" "length traces = n" "length kmss = n" for cons boots traces kmss
    unfolding build_general_configs_def
    by (subst collect_results_total) (use assms that in \<open>auto simp: get_cloned_or_empty_def get_def\<close>)
  ultimately show ?thesis
    using len assms by (fastforce simp: apply_consensus_genesis_tx_def)
qed

lemma core_subset_Ok:
  assumes "deps_succeed d" "ports_available s" "0 < n" "k \<le> n"
  shows "\<exists>gs s'. create_general_configs_with_blend_core_subset d ev n k np s = (Ok gs, s')"
proof -
  obtain ids ports s1 where gen: "generate_ids_and_ports n s = (Ok (ids, ports), s1)" "ports_available s1"
    using generate_succeeds assms(2) unfolding succeeds_def by (metis surj_pair)
  obtain nets s2 where net: "create_network_configs (dp_net d) ev ids np s1 = (Ok nets, s2)" "ports_available s2"
    using network_configs_succeed [OF assms(1)] gen(2) unfolding succeeds_def by blast
  obtain apis s3 where api: "create_api_configs ids s2 = (Ok apis, s3)"
    using api_configs_succeed net(2) unfolding succeeds_def by blast
  note len = generate_ids_and_ports_Ok [OF gen(1)] create_api_configs_length [OF api]
  have nets: "length nets = n" using net(1) len by (auto elim!: create_network_configs_Ok)
  obtain cs where cs: "create_consensus_configs (dp_crypto d) ids (default_for_participants ev n) wallet_config_default = Ok cs"
    using create_consensus_configs_is_ok [OF assms(1)] unfolding is_ok_iff by blast
  then have "length cs = n" using len(1) by (auto elim!: create_consensus_configs_Ok)
  then obtain first rest where f: "cs = first # rest" using assms(3) by (cases cs) auto
  have apis: "length apis = n" using len by simp
  from core_subset_finish_Ok [OF assms(1,4) len(1,2) nets apis cs [unfolded f], of ev "default_time_config ev s3"]
  show ?thesis
    using gen(1) net(1) api cs f assms(3,4) len
    by (auto simp: create_general_configs_with_blend_core_subset_def bind_os_def return_os_def map_err_os_def
        validate_node_counts_def validate_generated_vectors_def Let_def)
qed

theorem general_configs_core_subset_witness:
  "\<exists>gs s'. create_general_configs_with_blend_core_subset demo_deps Map.empty 3 2 network_params_default demo_os = (Ok gs, s') \<and>
     length gs = 3 \<and>
     length (mtx_ops (cr_genesis_mantle_tx demo_crypto (gcc_genesis_tx (gc_consensus_config (gs ! 0))))) = 3"
proof -
  obtain gs s' where gs: "create_general_configs_with_blend_core_subset demo_deps Map.empty 3 2 network_params_default demo_os = (Ok gs, s')"
    using core_subset_Ok [of demo_deps demo_os 3 2 Map.empty network_params_default] by auto
  have "genesis_wraps (dp_crypto demo_deps)" by simp
  note c = general_configs_core_subset [OF this gs]
  from c obtain g where "length gs = 3" "length (mtx_ops (cr_genesis_mantle_tx demo_crypto g)) = Suc 2"
    "gcc_genesis_tx (gc_consensus_config (gs ! 0)) = g"
    unfolding demo_deps_sel(1) by (metis zero_less_numeral)
  with gs show ?thesis by auto
qed

end
