(* ===== verification/Topology.thy ===== *)
theory Topology
  imports General_Config
begin

text \<open>
  The topology builder (\<^verbatim>\<open>core/src/topology/config.rs\<close>, \<^verbatim>\<open>utils.rs\<close>) and the generated topology it
  returns (\<^verbatim>\<open>core/src/topology/generation.rs\<close>).
\<close>

section \<open>Configuration and builder\<close>

datatype topology_resolve_error =
  ResIdCountMismatch nat nat
| ResPortCountMismatch string nat nat
| ResPortAllocationFailed string

datatype topology_build_error =
  TopEmptyParticipants
| TopInvariants topology_invariant_error
| TopResolve topology_resolve_error
| TopBase base_config_error
| TopApi api_config_error
| TopGenesis consensus_config_error
| TopMissingConsensusConfig
| TopVectorLenMismatch string nat nat

record topology_config =
  tc_n_nodes :: nat
  tc_consensus_params :: consensus_params
  tc_network_params :: network_params
  tc_wallet_config :: wallet_config

definition topology_config_empty :: "env \<Rightarrow> topology_config" where
  "topology_config_empty ev =
     \<lparr>tc_n_nodes = 0, tc_consensus_params = default_for_participants ev 1,
      tc_network_params = network_params_default, tc_wallet_config = wallet_config_default\<rparr>"

definition with_node_numbers :: "env \<Rightarrow> nat \<Rightarrow> topology_config" where
  "with_node_numbers ev nodes =
     \<lparr>tc_n_nodes = nodes, tc_consensus_params = default_for_participants ev nodes,
      tc_network_params = network_params_default, tc_wallet_config = wallet_config_default\<rparr>"

definition two_nodes :: "env \<Rightarrow> topology_config" where
  "two_nodes ev =
     \<lparr>tc_n_nodes = 2, tc_consensus_params = default_for_participants ev 2,
      tc_network_params = network_params_default, tc_wallet_config = wallet_config_default\<rparr>"

record topology_builder =
  tb_config :: topology_config
  tb_ids :: "node_id list option"
  tb_blend_ports :: "u16 list option"

definition topology_builder_new :: "topology_config \<Rightarrow> topology_builder" where
  "topology_builder_new cfg = \<lparr>tb_config = cfg, tb_ids = None, tb_blend_ports = None\<rparr>"

definition with_ids :: "node_id list \<Rightarrow> topology_builder \<Rightarrow> topology_builder" where
  "with_ids ids b = b\<lparr>tb_ids := Some ids\<rparr>"

definition with_blend_ports :: "u16 list \<Rightarrow> topology_builder \<Rightarrow> topology_builder" where
  "with_blend_ports ports b = b\<lparr>tb_blend_ports := Some ports\<rparr>"

definition with_node_count :: "nat \<Rightarrow> topology_builder \<Rightarrow> topology_builder" where
  "with_node_count n b = b\<lparr>tb_config := (tb_config b)\<lparr>tc_n_nodes := n\<rparr>\<rparr>"

definition with_network_layout :: "libp2p_network_layout \<Rightarrow> topology_builder \<Rightarrow> topology_builder" where
  "with_network_layout l b = b\<lparr>tb_config := (tb_config b)\<lparr>tc_network_params := (tc_network_params (tb_config b))\<lparr>np_layout := l\<rparr>\<rparr>\<rparr>"

definition with_wallet_config :: "wallet_config \<Rightarrow> topology_builder \<Rightarrow> topology_builder" where
  "with_wallet_config w b = b\<lparr>tb_config := (tb_config b)\<lparr>tc_wallet_config := w\<rparr>\<rparr>"

section \<open>Resolving identifiers and ports\<close>

fun fill_ids :: "nat \<Rightarrow> os \<Rightarrow> node_id list \<times> os" where
  "fill_ids 0 s = ([], s)"
| "fill_ids (Suc n) s =
     (case fill_id s of (nid, s1) \<Rightarrow> case fill_ids n s1 of (ids, s2) \<Rightarrow> (nid # ids, s2))"

definition resolve_ids ::
  "node_id list option \<Rightarrow> nat \<Rightarrow> (topology_resolve_error, node_id list) os_result" where
  "resolve_ids ids count s =
     (case ids of
        Some is \<Rightarrow>
          (if length is \<noteq> count then Err (ResIdCountMismatch count (length is)) else Ok is, s)
      | None \<Rightarrow> (case fill_ids count s of (generated, s') \<Rightarrow> (Ok generated, s')))"

definition resolve_ports ::
  "u16 list option \<Rightarrow> nat \<Rightarrow> string \<Rightarrow> (topology_resolve_error, u16 list) os_result" where
  "resolve_ports ports count label =
     bind_os
       (case ports of
          Some ps \<Rightarrow> return_os (Ok ps)
        | None \<Rightarrow> collect_os (\<lambda>_. ok_or_os (ResPortAllocationFailed label) get_available_udp_port) [0..<count])
       (\<lambda>resolved. return_os
          (if length resolved \<noteq> count then Err (ResPortCountMismatch label count (length resolved))
           else Ok resolved))"

definition resolve_and_validate_vectors ::
  "node_id list option \<Rightarrow> u16 list option \<Rightarrow> nat \<Rightarrow> (topology_build_error, node_id list \<times> u16 list) os_result" where
  "resolve_and_validate_vectors ids ports n =
     bind_os (map_err_os TopResolve (resolve_ids ids n)) (\<lambda>is.
     bind_os (map_err_os TopResolve (resolve_ports ports n ''Blend'')) (\<lambda>ps.
       return_os (Ok (is, ps))))"

section \<open>Build\<close>

record generated_node_config =
  gn_index :: nat
  gn_id :: node_id
  gn_general :: general_config
  gn_blend_port :: u16

record generated_topology =
  gt_config :: topology_config
  gt_nodes :: "generated_node_config list"

definition participant_count :: "topology_config \<Rightarrow> topology_build_error + nat" where
  "participant_count cfg = (if tc_n_nodes cfg = 0 then Err TopEmptyParticipants else Ok (tc_n_nodes cfg))"

definition get_cloned :: "string \<Rightarrow> 'a list \<Rightarrow> nat \<Rightarrow> nat \<Rightarrow> topology_build_error + 'a" where
  "get_cloned label items i expected = ok_or (TopVectorLenMismatch label expected (length items)) (get items i)"

definition collect_provider_infos ::
  "general_consensus_config \<Rightarrow> general_blend_config list \<Rightarrow> topology_build_error + provider_info list" where
  "collect_provider_infos first bcs =
     collect_results (\<lambda>i.
       and_then (get_cloned ''blend_notes'' (gcc_blend_notes first) i (length bcs)) (\<lambda>sn.
         Ok (provider_of (bcs ! i) sn))) [0..<length bcs]"

definition create_consensus_genesis_tx ::
  "crypto \<Rightarrow> general_consensus_config \<Rightarrow> provider_info list \<Rightarrow> topology_build_error + genesis_tx" where
  "create_consensus_genesis_tx cr first providers =
     map_err TopGenesis
       (create_genesis_tx_with_declarations cr
          (mtx_ledger_tx (cr_genesis_mantle_tx cr (gcc_genesis_tx first))) providers)"

definition build_node_descriptors ::
  "nat \<Rightarrow> node_id list \<Rightarrow> u16 list \<Rightarrow> general_consensus_config list \<Rightarrow> general_bootstrap_config list \<Rightarrow>
   network_config list \<Rightarrow> general_blend_config list \<Rightarrow> general_api_config list \<Rightarrow> tracing_settings list \<Rightarrow>
   kms_config list \<Rightarrow> general_time_config \<Rightarrow> topology_build_error + generated_node_config list" where
  "build_node_descriptors n ids blend_ports cons boots nets blends apis traces kmss time =
     collect_results (\<lambda>i.
       and_then (get_cloned ''consensus_configs'' cons i n) (\<lambda>con.
       and_then (get_cloned ''bootstrap_configs'' boots i n) (\<lambda>boot.
       and_then (get_cloned ''network_configs'' nets i n) (\<lambda>net.
       and_then (get_cloned ''blend_configs'' blends i n) (\<lambda>blend.
       and_then (get_cloned ''api_configs'' apis i n) (\<lambda>api.
       and_then (get_cloned ''tracing_configs'' traces i n) (\<lambda>trace.
       and_then (get_cloned ''kms_configs'' kmss i n) (\<lambda>kms.
       and_then (get_cloned ''ids'' ids i n) (\<lambda>nid.
       and_then (get_cloned ''blend_ports'' blend_ports i n) (\<lambda>port.
         Ok \<lparr>gn_index = i, gn_id = nid,
             gn_general =
               \<lparr>gc_api_config = api, gc_consensus_config = con, gc_bootstrapping_config = boot,
                gc_network_config = net, gc_blend_config = blend, gc_tracing_config = trace,
                gc_time_config = time, gc_kms_config = kms\<rparr>,
             gn_blend_port = port\<rparr>))))))))))
       [0..<n]"

definition build ::
  "deps \<Rightarrow> env \<Rightarrow> topology_builder \<Rightarrow> (topology_build_error, generated_topology) os_result" where
  "build d ev b =
     (let cfg = tb_config b in
      bind_os (return_os (participant_count cfg)) (\<lambda>n.
      bind_os (resolve_and_validate_vectors (tb_ids b) (tb_blend_ports b) n) (\<lambda>(ids, blend_ports).
      bind_os (map_err_os TopBase
         (build_base_configs d ev ids (tc_consensus_params cfg) (tc_network_params cfg)
            (tc_wallet_config cfg) blend_ports)) (\<lambda>base.
      bind_os (map_err_os TopApi (create_api_configs ids)) (\<lambda>apis s.
        (and_then (ok_or TopMissingConsensusConfig (first_of (bs_consensus_configs base))) (\<lambda>first.
         and_then (collect_provider_infos first (bs_blend_configs base)) (\<lambda>providers.
         and_then (create_consensus_genesis_tx (dp_crypto d) first providers) (\<lambda>genesis.
         and_then (build_node_descriptors n ids blend_ports
            (apply_consensus_genesis_tx genesis (bs_consensus_configs base))
            (bs_bootstrap_configs base) (bs_network_configs base) (bs_blend_configs base) apis
            (create_tracing_configs (dp_trace d) ev ids)
            (create_kms_configs (dp_crypto d) (bs_blend_configs base) (wc_accounts (tc_wallet_config cfg)))
            (default_time_config ev s)) (\<lambda>nodes.
           Ok \<lparr>gt_config = cfg, gt_nodes = nodes\<rparr>)))), s))))))"

section \<open>Generated topology\<close>

definition network_port :: "generated_node_config \<Rightarrow> u16" where
  "network_port n = sw_port (nc_swarm (gc_network_config (gn_general n)))"

definition api_port :: "generated_node_config \<Rightarrow> u16" where
  "api_port n = snd (api_address (gc_api_config (gn_general n)))"

definition testing_http_port :: "generated_node_config \<Rightarrow> u16" where
  "testing_http_port n = snd (api_testing_http_address (gc_api_config (gn_general n)))"

definition slot_duration :: "generated_topology \<Rightarrow> duration option" where
  "slot_duration t = map_option (\<lambda>n. gt_slot_duration (gc_time_config (gn_general n))) (first_of (gt_nodes t))"

definition topology_wallet_accounts :: "generated_topology \<Rightarrow> wallet_account list" where
  "topology_wallet_accounts t = wc_accounts (tc_wallet_config (gt_config t))"

definition topology_labels :: "generated_topology \<Rightarrow> string list" where
  "topology_labels t =
     map (\<lambda>(i, n). ''node#'' @ show_nat i @ ''@'' @ show_nat (unat (network_port n)))
       (enumerate 0 (gt_nodes t))"

definition topology_listen_ports :: "generated_topology \<Rightarrow> u16 list" where
  "topology_listen_ports t = map network_port (gt_nodes t)"

definition topology_initial_peer_ports :: "generated_topology \<Rightarrow> u16 list list" where
  "topology_initial_peer_ports t =
     map (\<lambda>n. remdups (List.map_filter multiaddr_port (nc_initial_peers (gc_network_config (gn_general n)))))
       (gt_nodes t)"

text \<open>The assertion that endpoints match the topology panics, hence the option.\<close>

definition collect_node_endpoints :: "generated_topology \<Rightarrow> string list \<Rightarrow> string list option" where
  "collect_node_endpoints t endpoints =
     (if length (gt_nodes t) = length endpoints then Some endpoints else None)"

section \<open>Facts\<close>

lemma length_fill_ids: "fill_ids n s = (ids, s') \<Longrightarrow> length ids = n"
  by (induction n arbitrary: s ids) (auto split: prod.splits)

lemma resolve_ids_Ok:
  "resolve_ids ids n s = (Ok is, s') \<Longrightarrow> length is = n \<and> (\<forall>given. ids = Some given \<longrightarrow> is = given)"
  by (auto simp: resolve_ids_def length_fill_ids split: option.splits if_splits prod.splits)

lemma resolve_ports_Ok:
  "resolve_ports ports n l s = (Ok ps, s') \<Longrightarrow> length ps = n \<and> (\<forall>given. ports = Some given \<longrightarrow> ps = given)"
  by (auto simp: resolve_ports_def os_iffs split: if_splits option.splits)

lemma resolve_vectors_Ok:
  assumes "resolve_and_validate_vectors ids ports n s = (Ok (is, ps), s')"
  shows "length is = n" "length ps = n"
    "ids = Some given \<Longrightarrow> is = given" "ports = Some given' \<Longrightarrow> ps = given'"
  using assms resolve_ids_Ok resolve_ports_Ok
  by (fastforce simp: resolve_and_validate_vectors_def os_iffs)+

lemma get_cloned_Ok [simp]: "i < length xs \<Longrightarrow> get_cloned l xs i n = Ok (xs ! i)"
  by (simp add: get_cloned_def get_def)

lemma collect_provider_infos_Ok:
  assumes "length bcs \<le> length (gcc_blend_notes c)"
  shows "collect_provider_infos c bcs =
    Ok (map (\<lambda>i. provider_of (bcs ! i) (gcc_blend_notes c ! i)) [0..<length bcs])"
  unfolding collect_provider_infos_def by (rule collect_results_total) (use assms in simp)

lemma collect_provider_infos_pairs:
  assumes "collect_provider_infos c bcs = Ok ps"
  shows "pairs_notes (gcc_blend_notes c) bcs ps" "length ps = length bcs"
proof -
  note c = assms [unfolded collect_provider_infos_def]
  show len: "length ps = length bcs" using collect_results_length [OF c] by simp
  have nth: "i < length (gcc_blend_notes c) \<and> ps ! i = provider_of (bcs ! i) (gcc_blend_notes c ! i)"
    if "i < length ps" for i
    using collect_results_nth [OF c, of i] that len by (auto simp: get_cloned_def result_iffs)
  have "length ps \<le> length (gcc_blend_notes c)"
  proof (cases "length ps")
    case (Suc k)
    with nth [of k] show ?thesis by simp
  qed simp
  with len nth show "pairs_notes (gcc_blend_notes c) bcs ps" by (simp add: pairs_notes_def)
qed

interpretation topology_providers: provider_collector collect_provider_infos
  by unfold_locales (rule collect_provider_infos_pairs)

lemma build_node_descriptors_Ok:
  assumes "length ids = n" "length ports = n" "length cons = n" "length boots = n" "length nets = n"
    "length blends = n" "length apis = n" "length traces = n" "length kmss = n"
  shows "build_node_descriptors n ids ports cons boots nets blends apis traces kmss time =
    Ok (map (\<lambda>i. \<lparr>gn_index = i, gn_id = ids ! i,
             gn_general =
               \<lparr>gc_api_config = apis ! i, gc_consensus_config = cons ! i, gc_bootstrapping_config = boots ! i,
                gc_network_config = nets ! i, gc_blend_config = blends ! i, gc_tracing_config = traces ! i,
                gc_time_config = time, gc_kms_config = kmss ! i\<rparr>,
             gn_blend_port = ports ! i\<rparr>) [0..<n])"
  unfolding build_node_descriptors_def by (rule collect_results_total) (use assms in simp)

text \<open>
  What the pieces have produced by the time the node descriptors are assembled: every vector has
  one entry per participant, so assembly cannot fail any more.
\<close>

definition parts_ready ::
  "deps \<Rightarrow> env \<Rightarrow> topology_builder \<Rightarrow> node_id list \<Rightarrow> u16 list \<Rightarrow> base_configs \<Rightarrow> general_api_config list \<Rightarrow> bool" where
  "parts_ready d ev b ids ports base apis \<longleftrightarrow>
     (let n = tc_n_nodes (tb_config b) in
      0 < n \<and> length ids = n \<and> length ports = n \<and> length apis = n \<and>
      length (bs_network_configs base) = n \<and>
      bs_bootstrap_configs base = create_bootstrap_configs ids short_prolonged_bootstrap_period \<and>
      bs_blend_configs base = create_blend_configs (dp_crypto d) ids ports \<and>
      create_consensus_configs (dp_crypto d) ids (tc_consensus_params (tb_config b))
        (tc_wallet_config (tb_config b)) = Ok (bs_consensus_configs base) \<and>
      (\<forall>i < n. nl_secret_key (dp_net d) (ids ! i) = Ok (sw_node_key (nc_swarm (bs_network_configs base ! i)))) \<and>
      (\<forall>given. tb_ids b = Some given \<longrightarrow> ids = given) \<and>
      (\<forall>given. tb_blend_ports b = Some given \<longrightarrow> ports = given))"

definition finish ::
  "deps \<Rightarrow> env \<Rightarrow> topology_builder \<Rightarrow> node_id list \<Rightarrow> u16 list \<Rightarrow> base_configs \<Rightarrow> general_api_config list \<Rightarrow>
   os \<Rightarrow> topology_build_error + generated_topology" where
  "finish d ev b ids ports base apis s =
     and_then (ok_or TopMissingConsensusConfig (first_of (bs_consensus_configs base))) (\<lambda>first.
     and_then (collect_provider_infos first (bs_blend_configs base)) (\<lambda>providers.
     and_then (create_consensus_genesis_tx (dp_crypto d) first providers) (\<lambda>genesis.
     and_then (build_node_descriptors (tc_n_nodes (tb_config b)) ids ports
        (apply_consensus_genesis_tx genesis (bs_consensus_configs base))
        (bs_bootstrap_configs base) (bs_network_configs base) (bs_blend_configs base) apis
        (create_tracing_configs (dp_trace d) ev ids)
        (create_kms_configs (dp_crypto d) (bs_blend_configs base) (wc_accounts (tc_wallet_config (tb_config b))))
        (default_time_config ev s)) (\<lambda>nodes.
       Ok \<lparr>gt_config = tb_config b, gt_nodes = nodes\<rparr>))))"

lemma build_base_configs_Ok:
  assumes "build_base_configs d ev ids cp np w ports s = (Ok base, s')"
  shows "create_consensus_configs (dp_crypto d) ids cp w = Ok (bs_consensus_configs base)"
    "bs_bootstrap_configs base = create_bootstrap_configs ids short_prolonged_bootstrap_period"
    "bs_blend_configs base = create_blend_configs (dp_crypto d) ids ports"
    "create_network_configs (dp_net d) ev ids np s = (Ok (bs_network_configs base), s')"
  using assms by (auto simp: build_base_configs_def os_iffs result_iffs)

lemma create_network_configs_keys:
  assumes "create_network_configs nl ev ids np s = (Ok nets, s')"
  shows "length nets = length ids"
    and "i < length ids \<Longrightarrow> nl_secret_key nl (ids ! i) = Ok (sw_node_key (nc_swarm (nets ! i)))"
  using assms by (auto elim!: create_network_configs_Ok)

lemma build_stages:
  assumes "0 < tc_n_nodes (tb_config b)"
  shows "build d ev b =
    bind_os (resolve_and_validate_vectors (tb_ids b) (tb_blend_ports b) (tc_n_nodes (tb_config b))) (\<lambda>(ids, ports).
    bind_os (map_err_os TopBase (build_base_configs d ev ids (tc_consensus_params (tb_config b))
       (tc_network_params (tb_config b)) (tc_wallet_config (tb_config b)) ports)) (\<lambda>base.
    bind_os (map_err_os TopApi (create_api_configs ids)) (\<lambda>apis s. (finish d ev b ids ports base apis s, s))))"
  using assms
  by (auto simp: fun_eq_iff build_def participant_count_def Let_def bind_os_def [of "return_os _"]
      return_os_def finish_def)

lemma resolve_vectors_Err:
  "resolve_and_validate_vectors ids ports n s = (Err e, s') \<Longrightarrow> \<exists>e'. e = TopResolve e'"
  by (auto simp: resolve_and_validate_vectors_def os_iffs)

lemma stages_ready:
  assumes "0 < tc_n_nodes (tb_config b)"
    "resolve_and_validate_vectors (tb_ids b) (tb_blend_ports b) (tc_n_nodes (tb_config b)) s = (Ok (ids, ports), s1)"
    "build_base_configs d ev ids (tc_consensus_params (tb_config b)) (tc_network_params (tb_config b))
       (tc_wallet_config (tb_config b)) ports s1 = (Ok base, s2)"
    "create_api_configs ids s2 = (Ok apis, s')"
  shows "parts_ready d ev b ids ports base apis"
  using assms(1) resolve_vectors_Ok [OF assms(2)] build_base_configs_Ok [OF assms(3)]
    create_network_configs_keys [OF build_base_configs_Ok(4) [OF assms(3)]] create_api_configs_length [OF assms(4)]
  by (auto simp: parts_ready_def Let_def)

lemma build_cases:
  assumes "build d ev b s = (r, s')"
  obtains (failed) e where "r = Err e" "\<And>l a c. e \<noteq> TopVectorLenMismatch l a c" "e \<noteq> TopMissingConsensusConfig"
      "e = TopEmptyParticipants \<longleftrightarrow> tc_n_nodes (tb_config b) = 0"
    | (parts) ids ports base apis where "parts_ready d ev b ids ports base apis"
        "r = finish d ev b ids ports base apis s'"
proof (cases "tc_n_nodes (tb_config b) = 0")
  case True
  then have "r = Err TopEmptyParticipants"
    using assms by (simp add: build_def participant_count_def bind_os_def return_os_def Let_def)
  with True show ?thesis by (intro failed) auto
next
  case False
  note stages = assms [unfolded build_stages [OF False [THEN neq0_conv [THEN iffD1]]]]
  consider (err) e where "r = Err e" "(\<exists>x. e = TopResolve x) \<or> (\<exists>x. e = TopBase x) \<or> (\<exists>x. e = TopApi x)"
    | (fin) ids ports base apis s1 s2 where
        "resolve_and_validate_vectors (tb_ids b) (tb_blend_ports b) (tc_n_nodes (tb_config b)) s = (Ok (ids, ports), s1)"
        "build_base_configs d ev ids (tc_consensus_params (tb_config b)) (tc_network_params (tb_config b))
           (tc_wallet_config (tb_config b)) ports s1 = (Ok base, s2)"
        "create_api_configs ids s2 = (Ok apis, s')" "r = finish d ev b ids ports base apis s'"
    using stages by (cases r) (auto simp: os_iffs dest: resolve_vectors_Err)
  then show ?thesis
  proof cases
    case err
    with False show ?thesis by (intro failed) auto
  next
    case fin
    from stages_ready [OF _ fin(1-3)] False fin(4) show ?thesis by (intro parts) auto
  qed
qed

definition node_at ::
  "deps \<Rightarrow> env \<Rightarrow> topology_builder \<Rightarrow> node_id list \<Rightarrow> u16 list \<Rightarrow> base_configs \<Rightarrow> general_api_config list \<Rightarrow>
   os \<Rightarrow> genesis_tx \<Rightarrow> nat \<Rightarrow> generated_node_config" where
  "node_at d ev b ids ports base apis s g i =
     \<lparr>gn_index = i, gn_id = ids ! i,
      gn_general =
        \<lparr>gc_api_config = apis ! i,
         gc_consensus_config = (bs_consensus_configs base ! i)\<lparr>gcc_genesis_tx := g\<rparr>,
         gc_bootstrapping_config = bs_bootstrap_configs base ! i,
         gc_network_config = bs_network_configs base ! i, gc_blend_config = bs_blend_configs base ! i,
         gc_tracing_config = create_tracing_configs (dp_trace d) ev ids ! i,
         gc_time_config = default_time_config ev s,
         gc_kms_config = create_kms_configs (dp_crypto d) (bs_blend_configs base)
           (wc_accounts (tc_wallet_config (tb_config b))) ! i\<rparr>,
      gn_blend_port = ports ! i\<rparr>"

lemma finish_eq:
  assumes ready: "parts_ready d ev b ids ports base apis"
  obtains first rest where "bs_consensus_configs base = first # rest"
    "length (bs_blend_configs base) \<le> length (gcc_blend_notes first)"
    "finish d ev b ids ports base apis s =
      and_then (create_consensus_genesis_tx (dp_crypto d) first
        (map (\<lambda>i. provider_of (bs_blend_configs base ! i) (gcc_blend_notes first ! i)) [0..<tc_n_nodes (tb_config b)])) (\<lambda>g.
      Ok \<lparr>gt_config = tb_config b,
          gt_nodes = map (node_at d ev b ids ports base apis s g) [0..<tc_n_nodes (tb_config b)]\<rparr>)"
proof -
  let ?n = "tc_n_nodes (tb_config b)"
  have cons: "create_consensus_configs (dp_crypto d) ids (tc_consensus_params (tb_config b))
        (tc_wallet_config (tb_config b)) = Ok (bs_consensus_configs base)"
    and n: "0 < ?n" "length ids = ?n" "length ports = ?n" "length apis = ?n" "length (bs_network_configs base) = ?n"
      "length (bs_bootstrap_configs base) = ?n" "length (bs_blend_configs base) = ?n"
    using ready by (simp_all add: parts_ready_def Let_def)
  note len = consensus_lengths [OF cons]
  obtain first rest where f: "bs_consensus_configs base = first # rest"
    using len(1) n by (cases "bs_consensus_configs base") auto
  have nts: "length (bs_blend_configs base) \<le> length (gcc_blend_notes first)" using len(2) [of first] f n by simp
  have desc: "build_node_descriptors ?n ids ports (apply_consensus_genesis_tx g (bs_consensus_configs base))
      (bs_bootstrap_configs base) (bs_network_configs base) (bs_blend_configs base) apis
      (create_tracing_configs (dp_trace d) ev ids)
      (create_kms_configs (dp_crypto d) (bs_blend_configs base) (wc_accounts (tc_wallet_config (tb_config b))))
      (default_time_config ev s) = Ok (map (node_at d ev b ids ports base apis s g) [0..<?n])" for g
    by (subst build_node_descriptors_Ok)
      (use n len in \<open>simp_all add: apply_consensus_genesis_tx_def node_at_def\<close>)
  have "first_of (bs_consensus_configs base) = Some first" by (simp add: f)
  with collect_provider_infos_Ok [OF nts] show ?thesis
    by (intro that [OF f nts]) (simp add: finish_def desc n(7))
qed

lemma build_Ok:
  assumes "build d ev b s = (Ok t, s')"
  obtains ids ports base apis first rest g where
    "parts_ready d ev b ids ports base apis" "bs_consensus_configs base = first # rest"
    "create_consensus_genesis_tx (dp_crypto d) first
        (map (\<lambda>i. provider_of (bs_blend_configs base ! i) (gcc_blend_notes first ! i)) [0..<tc_n_nodes (tb_config b)]) = Ok g"
    "t = \<lparr>gt_config = tb_config b,
          gt_nodes = map (node_at d ev b ids ports base apis s' g) [0..<tc_n_nodes (tb_config b)]\<rparr>"
  using assms
proof (cases rule: build_cases)
  case (parts ids ports base apis)
  show ?thesis
    by (rule finish_eq [OF parts(1), of s']) (use parts(2) in \<open>auto simp: result_iffs intro: that [OF parts(1)]\<close>)
qed simp

definition vector_fits :: "'a list option \<Rightarrow> nat \<Rightarrow> bool" where
  "vector_fits v n \<longleftrightarrow> (case v of None \<Rightarrow> True | Some xs \<Rightarrow> length xs = n)"

lemma fill_ids_ports: "fill_ids n s = (ids, s') \<Longrightarrow> ports_available s \<Longrightarrow> ports_available s'"
  by (induction n arbitrary: s ids) (auto simp: fill_id_def ports_available_def split: prod.splits)

lemma resolve_succeeds:
  assumes "vector_fits ids n" "vector_fits ports n"
  shows "succeeds (resolve_and_validate_vectors ids ports n)"
proof -
  have "succeeds (resolve_ids ids n)"
    using assms(1) fill_ids_ports
    by (fastforce simp: succeeds_def resolve_ids_def vector_fits_def split: option.splits prod.splits)
  moreover have "succeeds (resolve_ports ports n l)" for l
  proof (cases ports)
    case None
    let ?f = "\<lambda>_ :: nat. ok_or_os (ResPortAllocationFailed l) get_available_udp_port"
    have "succeeds (collect_os ?f [0..<n])" by (intro succeeds_collect succeeds_udp)
    then show ?thesis
      unfolding succeeds_def resolve_ports_def None using collect_os_length [of ?f]
      by (fastforce simp: bind_os_def return_os_def)
  next
    case (Some ps)
    with assms(2) show ?thesis
      by (auto simp: succeeds_def resolve_ports_def bind_os_def return_os_def vector_fits_def)
  qed
  ultimately show ?thesis
    unfolding resolve_and_validate_vectors_def by (auto intro!: succeeds_bind succeeds_map_err succeeds_return)
qed

section \<open>Properties\<close>

text \<open>
  Property C22.  A topology that is built is complete and consistent: it keeps the configuration and
  has one descriptor per node, in order, for the identifiers and blend ports the caller gave; every
  node carries the same genesis transaction, with one declaration per node and nothing else beside
  the inscription.  The declaration of node \<open>i\<close> names the signing and blend keys of node \<open>i\<close>'s own
  blend configuration and the address that node listens on at its own blend port, and locks an
  existing output of that genesis transaction, owned by the key of the node's blend note; the
  node's networking key and leader key come from its own identifier.
\<close>

theorem topology_build_consistent:
  assumes "genesis_wraps (dp_crypto d)" "build d ev b s = (Ok t, s')"
  shows "gt_config t = tb_config b \<and> length (gt_nodes t) = tc_n_nodes (tb_config b) \<and> 0 < tc_n_nodes (tb_config b) \<and>
    (\<exists>g. length (mtx_ops (cr_genesis_mantle_tx (dp_crypto d) g)) = Suc (length (gt_nodes t)) \<and>
      (\<forall>i < length (gt_nodes t). let n = gt_nodes t ! i; c = gc_consensus_config (gn_general n);
           bc = gc_blend_config (gn_general n) in
         gn_index n = i \<and> gcc_genesis_tx c = g \<and>
         declares_node (dp_crypto d) (cr_genesis_mantle_tx (dp_crypto d) g) i bc
           (role_key (dp_crypto d) prefix_bn (gn_id n)) \<and>
         bc_listening_address (gb_backend_core bc) = localhost_quic_address (gn_blend_port n) \<and>
         gb_signer bc = cr_ed_from_bytes (dp_crypto d) (gn_id n) \<and>
         nl_secret_key (dp_net d) (gn_id n) = Ok (sw_node_key (nc_swarm (gc_network_config (gn_general n)))) \<and>
         gcc_leader_sk c = role_key (dp_crypto d) prefix_ld (gn_id n) \<and>
         (\<forall>ids. tb_ids b = Some ids \<longrightarrow> gn_id n = ids ! i) \<and>
         (\<forall>ports. tb_blend_ports b = Some ports \<longrightarrow> gn_blend_port n = ports ! i)))"
  using assms(2)
proof (rule build_Ok)
  fix ids ports and base :: base_configs and apis rest g and first :: general_consensus_config
  let ?n = "tc_n_nodes (tb_config b)" and ?cr = "dp_crypto d"
  let ?ps = "map (\<lambda>i. provider_of (bs_blend_configs base ! i) (gcc_blend_notes first ! i)) [0..<?n]"
  assume ready: "parts_ready d ev b ids ports base apis" and f: "bs_consensus_configs base = first # rest"
    and g: "create_consensus_genesis_tx ?cr first ?ps = Ok g"
    and t: "t = \<lparr>gt_config = tb_config b, gt_nodes = map (node_at d ev b ids ports base apis s' g) [0..<?n]\<rparr>"
  have cons: "create_consensus_configs ?cr ids (tc_consensus_params (tb_config b)) (tc_wallet_config (tb_config b))
      = Ok (bs_consensus_configs base)" and mem: "first \<in> set (bs_consensus_configs base)"
    and n: "0 < ?n" "length ids = ?n" "length ports = ?n"
    and blends: "bs_blend_configs base = create_blend_configs ?cr ids ports"
    using ready f by (simp_all add: parts_ready_def Let_def)
  have coll: "collect_provider_infos first (bs_blend_configs base) = Ok ?ps"
    using collect_provider_infos_Ok [of "bs_blend_configs base" first] consensus_lengths(2) [OF cons mem] n
    by (simp add: blends)
  note decl = topology_providers.collected_genesis [OF assms(1) cons mem coll]
  have own: "sn_sk (gcc_blend_notes first ! i) = role_key ?cr prefix_bn (ids ! i) \<and>
      gcc_leader_sk (bs_consensus_configs base ! i) = role_key ?cr prefix_ld (ids ! i)" if "i < ?n" for i
    using cons that n mem by (elim create_consensus_configs_Ok) (auto simp: service_note_at_def)
  have "length (mtx_ops (cr_genesis_mantle_tx ?cr g)) = Suc ?n \<and> (\<forall>i < ?n.
      declares_node ?cr (cr_genesis_mantle_tx ?cr g) i (bs_blend_configs base ! i) (role_key ?cr prefix_bn (ids ! i)))"
    using decl [of g] g own by (simp add: create_consensus_genesis_tx_def result_iffs)
  moreover have "bs_blend_configs base ! i = blend_config_for ?cr (ids ! i) (ports ! i)" if "i < ?n" for i
    using that n by (simp add: blends create_blend_configs_nth)
  ultimately show ?thesis
    using n ready own unfolding t by (intro conjI exI [of _ g])
      (simp_all add: Let_def parts_ready_def blend_config_for_def node_at_def)
qed

definition demo_builder :: topology_builder where
  "demo_builder =
     with_blend_ports [4000, 4001] (with_ids demo_ids (topology_builder_new
       \<lparr>tc_n_nodes = 2, tc_consensus_params = demo_params, tc_network_params = network_params_default,
        tc_wallet_config = wallet_config_default\<rparr>))"

lemma demo_builder_sel [simp]:
  "tb_config demo_builder = \<lparr>tc_n_nodes = 2, tc_consensus_params = demo_params, tc_network_params = network_params_default,
        tc_wallet_config = wallet_config_default\<rparr>"
  "tb_ids demo_builder = Some demo_ids" "tb_blend_ports demo_builder = Some [4000, 4001]"
  by (simp_all add: demo_builder_def with_blend_ports_def with_ids_def topology_builder_new_def)

lemma finish_is_ok:
  assumes "deps_succeed d" "parts_ready d ev b ids ports base apis"
  shows "is_ok (finish d ev b ids ports base apis s)"
  by (rule finish_eq [OF assms(2), of s])
    (use create_genesis_with_declarations_is_ok [OF assms(1)] in
      \<open>auto simp: create_consensus_genesis_tx_def is_ok_iff map_err_eq_Ok and_then_eq_Ok\<close>)

lemma build_is_ok:
  assumes "deps_succeed d" "ports_available s" and n: "0 < tc_n_nodes (tb_config b)"
    and fits: "vector_fits (tb_ids b) (tc_n_nodes (tb_config b))" "vector_fits (tb_blend_ports b) (tc_n_nodes (tb_config b))"
  shows "\<exists>t s'. build d ev b s = (Ok t, s')"
proof -
  obtain ids ports s1 where v: "resolve_and_validate_vectors (tb_ids b) (tb_blend_ports b) (tc_n_nodes (tb_config b)) s
      = (Ok (ids, ports), s1)" "ports_available s1"
    using resolve_succeeds [OF fits] assms(2) unfolding succeeds_def by (metis surj_pair)
  obtain base s2 where base: "build_base_configs d ev ids (tc_consensus_params (tb_config b)) (tc_network_params (tb_config b))
       (tc_wallet_config (tb_config b)) ports s1 = (Ok base, s2)" "ports_available s2"
    using base_configs_succeed [OF assms(1)] v(2) unfolding succeeds_def by blast
  obtain apis s3 where api: "create_api_configs ids s2 = (Ok apis, s3)"
    using api_configs_succeed base(2) unfolding succeeds_def by blast
  have "build d ev b s = (finish d ev b ids ports base apis s3, s3)"
    unfolding build_stages [OF n] using v(1) base(1) api by (simp add: bind_os_def map_err_os_def)
  with finish_is_ok [OF assms(1) stages_ready [OF n v(1) base(1) api], of s3] show ?thesis
    by (auto simp: is_ok_iff)
qed

lemma resolve_misfit:
  assumes "resolve_and_validate_vectors ids ports n s = (Ok (is, ps), s')"
  shows "vector_fits ids n" "vector_fits ports n"
  using resolve_vectors_Ok [OF assms] by (auto simp: vector_fits_def split: option.splits)

theorem topology_build_consistent_witness:
  "\<exists>t s'. build demo_deps Map.empty demo_builder demo_os = (Ok t, s') \<and> length (gt_nodes t) = 2 \<and>
     gcc_genesis_tx (gc_consensus_config (gn_general (gt_nodes t ! 0))) =
     gcc_genesis_tx (gc_consensus_config (gn_general (gt_nodes t ! 1)))"
proof -
  obtain t s' where t: "build demo_deps Map.empty demo_builder demo_os = (Ok t, s')"
    using build_is_ok [of demo_deps demo_os demo_builder Map.empty] by (auto simp: vector_fits_def demo_ids_def)
  have "genesis_wraps (dp_crypto demo_deps)" by simp
  note c = topology_build_consistent [OF this t]
  from c have len: "length (gt_nodes t) = 2" by simp
  with c have "gcc_genesis_tx (gc_consensus_config (gn_general (gt_nodes t ! 0))) =
     gcc_genesis_tx (gc_consensus_config (gn_general (gt_nodes t ! 1)))"
    unfolding Let_def by (metis one_less_numeral_iff semiring_norm(76) zero_less_numeral)
  with t len show ?thesis by blast
qed



end
