(* ===== verification/Run_Metrics.thy ===== *)
theory Run_Metrics
  imports Topology
begin

text \<open>
  Timing figures of a run (\<^verbatim>\<open>core/src/scenario/runtime/context.rs\<close>): the expected number of blocks
  and the block interval hint, computed in binary64.  \<^verbatim>\<open>Duration::mul_f64\<close> panics on values
  outside the duration type, hence the option.
\<close>

record run_metrics =
  rm_run_duration :: duration
  rm_expected_blocks :: nat
  rm_block_interval_hint :: "duration option"

definition f64_u64_max :: f64 where
  "f64_u64_max = Fin (2 ^ 64)"

definition calculate_expected_blocks :: "duration \<Rightarrow> duration option \<Rightarrow> f64 \<Rightarrow> nat" where
  "calculate_expected_blocks run_duration slot coeff =
     (case slot of
        None \<Rightarrow> 0
      | Some sd \<Rightarrow>
          (let slot_secs = as_secs_f64 sd;
               run_secs = as_secs_f64 run_duration;
               expected = f64_mul (f64_div run_secs slot_secs) coeff
           in f64_to_u64 (f64_clamp (Fin 0) f64_u64_max (f64_ceil expected))))"

definition from_topology :: "generated_topology \<Rightarrow> duration \<Rightarrow> run_metrics option" where
  "from_topology t run_duration =
     (let slot = slot_duration t;
          coeff = cp_active_slot_coeff (tc_consensus_params (gt_config t));
          expected = calculate_expected_blocks run_duration slot coeff;
          hint = (case slot of
                    None \<Rightarrow> Some None
                  | Some sd \<Rightarrow> map_option Some (mul_f64 sd (f64_clamp (Fin 0) (Fin 1) coeff)))
      in map_option (\<lambda>h.
           \<lparr>rm_run_duration = run_duration, rm_expected_blocks = expected, rm_block_interval_hint = h\<rparr>) hint)"

definition run_metrics_new :: "generated_topology \<Rightarrow> duration \<Rightarrow> run_metrics option" where
  "run_metrics_new t run_duration = from_topology t run_duration"

section \<open>Order on binary64\<close>

lemma f64_le_trans: "f64_le a b \<Longrightarrow> f64_le b c \<Longrightarrow> f64_le a c"
  by (cases a; cases b; cases c) (auto simp: f64_le_def)

lemma f64_le_refl: "a \<noteq> NaN \<Longrightarrow> f64_le a a"
  by (simp add: f64_le_def)

lemma f64_le_Fin [simp]: "f64_le (Fin x) (Fin y) \<longleftrightarrow> x \<le> y"
  by (auto simp: f64_le_def)

lemma f64_le_PInf [simp]: "f64_le a PInf \<longleftrightarrow> a \<noteq> NaN"
  by (cases a) (auto simp: f64_le_def)

lemma f64_PInf_le [simp]: "f64_le PInf a \<longleftrightarrow> a = PInf"
  by (cases a) (auto simp: f64_le_def)

lemma f64_le_NaN [simp]: "\<not> f64_le a NaN" "\<not> f64_le NaN a"
  by (cases a; simp add: f64_le_def)+

text \<open>Non-negative values, on which the operations below are monotone.\<close>

definition nonneg :: "f64 \<Rightarrow> bool" where
  "nonneg a \<longleftrightarrow> f64_le (Fin 0) a"

lemma nonneg_cases:
  assumes "nonneg a"
  obtains (fin) x where "a = Fin x" "0 \<le> x" | (inf) "a = PInf"
  using assms by (cases a) (auto simp: nonneg_def f64_le_def)

lemma nonneg_simps [simp]: "nonneg (Fin x) \<longleftrightarrow> 0 \<le> x" "nonneg PInf"
  by (simp_all add: nonneg_def)

lemma nonneg_round [simp]: "0 \<le> x \<Longrightarrow> nonneg (round64 x)"
  using round64_nonneg [of x] by auto

lemma round64_not_NaN [simp]: "0 \<le> x \<Longrightarrow> round64 x \<noteq> NaN"
  using round64_nonneg [of x] by auto

lemma nonneg_mono: "nonneg a \<Longrightarrow> f64_le a b \<Longrightarrow> nonneg b"
  unfolding nonneg_def by (rule f64_le_trans)

lemma f64_div_mono:
  assumes "nonneg a" "f64_le a b" "0 < y"
  shows "f64_le (f64_div a (Fin y)) (f64_div b (Fin y)) \<and> nonneg (f64_div a (Fin y))"
  using assms(1)
proof (cases rule: nonneg_cases)
  case (fin x)
  then have x: "0 \<le> x / y" using assms(3) by simp
  from nonneg_mono [OF assms(1,2)] show ?thesis
  proof (cases rule: nonneg_cases)
    case (fin z)
    with \<open>a = Fin x\<close> assms(2,3) have "x / y \<le> z / y" by (simp add: divide_right_mono)
    with fin \<open>a = Fin x\<close> x assms(3) show ?thesis by (simp add: round64_mono)
  next
    case inf
    with fin x assms(3) show ?thesis by (simp add: signed_inf_def)
  qed
next
  case inf
  with assms show ?thesis by (simp add: signed_inf_def)
qed

lemma f64_mul_mono:
  assumes "nonneg a" "f64_le a b" "0 < c"
  shows "f64_le (f64_mul a (Fin c)) (f64_mul b (Fin c)) \<and> nonneg (f64_mul a (Fin c))"
  using assms(1)
proof (cases rule: nonneg_cases)
  case (fin x)
  then have x: "0 \<le> x * c" using assms(3) by simp
  from nonneg_mono [OF assms(1,2)] show ?thesis
  proof (cases rule: nonneg_cases)
    case (fin z)
    with \<open>a = Fin x\<close> assms(2,3) have "x * c \<le> z * c" by (simp add: mult_right_mono)
    with fin \<open>a = Fin x\<close> x show ?thesis by (simp add: round64_mono)
  next
    case inf
    with fin x assms(3) show ?thesis by (simp add: signed_inf_def)
  qed
next
  case inf
  with assms show ?thesis by (simp add: signed_inf_def)
qed

lemma ceil_clamp_mono:
  assumes "nonneg a" "f64_le a b"
  shows "f64_to_u64 (f64_clamp (Fin 0) f64_u64_max (f64_ceil a)) \<le>
         f64_to_u64 (f64_clamp (Fin 0) f64_u64_max (f64_ceil b))"
proof -
  have fin_eq: "f64_to_u64 (f64_clamp (Fin 0) f64_u64_max (f64_ceil (Fin x))) = min u64_max (nat \<lceil>x\<rceil>)" if "0 \<le> x" for x
  proof -
    have "\<lfloor>2 ^ 64 :: rat\<rfloor> = 2 ^ 64" by (metis floor_of_int of_int_numeral of_int_power)
    with that show ?thesis
      by (auto simp: f64_clamp_def f64_u64_max_def not_less le_nat_iff le_ceiling_iff min_def)
  qed
  have inf_eq: "f64_to_u64 (f64_clamp (Fin 0) f64_u64_max (f64_ceil PInf)) = u64_max"
    by (simp add: f64_clamp_def f64_u64_max_def)
  from assms(1) show ?thesis
  proof (cases rule: nonneg_cases)
    case (fin x)
    note x = this
    from nonneg_mono [OF assms] show ?thesis
    proof (cases rule: nonneg_cases)
      case (fin z)
      with x assms(2) have "nat \<lceil>x\<rceil> \<le> nat \<lceil>z\<rceil>" by (simp add: ceiling_mono nat_mono)
      with x fin show ?thesis by (simp add: fin_eq del: f64_ceil.simps f64_to_u64.simps)
    next
      case inf
      with x show ?thesis by (simp add: fin_eq inf_eq del: f64_ceil.simps f64_to_u64.simps)
    qed
  next
    case inf
    with assms(2) show ?thesis by simp
  qed
qed

lemma as_secs_f64_eq:
  assumes "d < from_secs (2 ^ 53)"
  obtains f where "0 \<le> f" "f \<le> 1" "round64 (of_nat (d mod nanos_per_sec) / 1000000000) = Fin f"
    "as_secs_f64 d = round64 (of_nat (d div nanos_per_sec) + f)"
proof -
  have n: "d mod nanos_per_sec < 2 ^ 53" by (rule less_trans [of _ nanos_per_sec]) (simp_all add: nanos_per_sec_def)
  have s: "d div nanos_per_sec < 2 ^ 53"
    using assms by (simp add: from_secs_def less_mult_imp_div_less)
  let ?q = "of_nat (d mod nanos_per_sec) / 1000000000 :: rat"
  have "(of_nat (d mod nanos_per_sec) :: rat) \<le> of_nat 1000000000"
    unfolding of_nat_le_iff by (simp add: nanos_per_sec_def less_imp_le)
  then have q: "0 \<le> ?q" "?q \<le> 1" by simp_all
  have one: "round64 1 = Fin 1" using round64_exact_nat [of 1] by simp
  from round64_mono [OF q] one round64_nonneg [OF q(1)] obtain f where f: "round64 ?q = Fin f" "0 \<le> f" "f \<le> 1"
    by (auto simp: f64_le_def)
  from s n f show ?thesis
    by (intro that [of f]) (simp_all add: as_secs_f64_def f64_of_nat_def round64_exact_nat)
qed

lemma as_secs_f64_mono:
  assumes "d \<le> d'" "d' < from_secs (2 ^ 53)"
  shows "f64_le (as_secs_f64 d) (as_secs_f64 d') \<and> nonneg (as_secs_f64 d)"
proof -
  let ?s = "\<lambda>d. of_nat (d div nanos_per_sec) :: rat"
  obtain f where f: "0 \<le> f" "f \<le> 1" "round64 (of_nat (d mod nanos_per_sec) / 1000000000) = Fin f"
    "as_secs_f64 d = round64 (?s d + f)" using as_secs_f64_eq [of d] assms by auto
  obtain g where g: "0 \<le> g" "round64 (of_nat (d' mod nanos_per_sec) / 1000000000) = Fin g"
    "as_secs_f64 d' = round64 (?s d' + g)" using as_secs_f64_eq [OF assms(2)] by metis
  have "?s d + f \<le> ?s d' + g"
  proof (cases "d div nanos_per_sec = d' div nanos_per_sec")
    case True
    then have "d mod nanos_per_sec \<le> d' mod nanos_per_sec"
      using assms(1) by (metis add_le_cancel_left div_mult_mod_eq)
    then have "(of_nat (d mod nanos_per_sec) / 1000000000 :: rat) \<le> of_nat (d' mod nanos_per_sec) / 1000000000"
      by (simp add: divide_right_mono)
    from round64_mono [OF _ this] f(3) g(2) have "f \<le> g" by simp
    with True show ?thesis by simp
  next
    case False
    then have "Suc (d div nanos_per_sec) \<le> d' div nanos_per_sec"
      using div_le_mono [OF assms(1), of nanos_per_sec] by simp
    then have "?s d + 1 \<le> ?s d'" by (metis of_nat_Suc of_nat_le_iff add.commute)
    with f(2) g(1) show ?thesis by linarith
  qed
  then show ?thesis using f(1,4) g(3) by (simp add: round64_mono)
qed

section \<open>Properties\<close>


lemma as_secs_f64_whole: "n < 2 ^ 53 \<Longrightarrow> as_secs_f64 (from_secs n) = Fin (of_nat n)"
  by (simp add: as_secs_f64_def from_secs_def nanos_per_sec_def f64_of_nat_def round64_exact_nat)



lemma build_slot_duration:
  assumes "build d ev b s = (Ok t, s')"
  shows "gt_config t = tb_config b \<and> slot_duration t = Some (gt_slot_duration (default_time_config ev s'))"
  using assms
proof (rule build_Ok)
  fix ids ports and base :: base_configs and apis g
  assume "parts_ready d ev b ids ports base apis"
    and t: "t = \<lparr>gt_config = tb_config b,
          gt_nodes = map (node_at d ev b ids ports base apis s' g) [0..<tc_n_nodes (tb_config b)]\<rparr>"
  then have "0 < tc_n_nodes (tb_config b)" by (simp add: parts_ready_def Let_def)
  then show ?thesis by (simp add: t slot_duration_def upt_rec node_at_def)
qed

definition half_active_builder :: topology_builder where
  "half_active_builder =
     topology_builder_new \<lparr>tc_n_nodes = 2, tc_consensus_params = demo_params\<lparr>cp_active_slot_coeff := Fin (1 / 2)\<rparr>,
       tc_network_params = network_params_default, tc_wallet_config = wallet_config_default\<rparr>"


end
