(* ===== verification/Tx_Workload.thy ===== *)
theory Tx_Workload
  imports Run_Metrics Block_Feed
begin

text \<open>
  The transaction workload and its inclusion expectation
  (\<^verbatim>\<open>workflows/src/workloads/transaction/{workload,expectation}.rs\<close>, \<^verbatim>\<open>workloads/util.rs\<close>).  Node
  answers are functions of attempt and client, shuffling is a family of list functions indexed by
  call, and the readings of the shared counter are indexed by poll; the transaction builder of the
  node crate is the record \<open>tx_lib\<close>.
\<close>

section \<open>Accounts\<close>

record wallet_input =
  wi_account :: wallet_account
  wi_utxo :: utxo

record tx_workload =
  tw_txs_per_block :: nat
  tw_user_limit :: "nat option"
  tw_accounts :: "wallet_input list"

definition tx_workload_new :: "nat \<Rightarrow> tx_workload" where
  "tx_workload_new rate = \<lparr>tw_txs_per_block = rate, tw_user_limit = None, tw_accounts = []\<rparr>"

definition with_rate :: "nat \<Rightarrow> tx_workload option" where
  "with_rate rate = (if rate = 0 then None else Some (tx_workload_new rate))"

definition with_user_limit :: "nat option \<Rightarrow> tx_workload \<Rightarrow> tx_workload" where
  "with_user_limit l w = w\<lparr>tw_user_limit := l\<rparr>"

definition tx_workload_default :: tx_workload where
  "tx_workload_default = tx_workload_new 1"

text \<open>Collecting into a hash map: a later entry replaces an earlier one with the same key.\<close>

definition wallet_utxo_map :: "crypto \<Rightarrow> generated_node_config \<Rightarrow> zk_pk \<Rightarrow> utxo option" where
  "wallet_utxo_map cr node =
     (let ltx = mtx_ledger_tx (cr_genesis_mantle_tx cr (gcc_genesis_tx (gc_consensus_config (gn_general node))));
          h = cr_ledger_hash cr ltx
      in map_of (rev (map (\<lambda>(idx, n). (note_pk n, \<lparr>utxo_tx_hash = h, utxo_output_index = idx, utxo_note = n\<rparr>))
           (enumerate 0 (ltx_outputs ltx)))))"

definition match_account_to_utxo ::
  "crypto \<Rightarrow> (zk_pk \<Rightarrow> utxo option) \<Rightarrow> wallet_account \<Rightarrow> wallet_input option" where
  "match_account_to_utxo cr utxos a =
     map_option (\<lambda>u. \<lparr>wi_account = a, wi_utxo = u\<rparr>) (utxos (wallet_public_key (cr_zk_pk cr) a))"

definition apply_user_limit :: "'a list \<Rightarrow> nat option \<Rightarrow> 'a list" where
  "apply_user_limit items limit =
     (case limit of None \<Rightarrow> items | Some l \<Rightarrow> take (min l (length items)) items)"

definition limited_user_count :: "nat option \<Rightarrow> nat \<Rightarrow> nat" where
  "limited_user_count limit available = (case limit of None \<Rightarrow> available | Some l \<Rightarrow> min l available)"

definition tx_init :: "crypto \<Rightarrow> generated_topology \<Rightarrow> tx_workload \<Rightarrow> string + tx_workload" where
  "tx_init cr t w =
     (let wallet_accounts = topology_wallet_accounts t in
      if wallet_accounts = [] then
        Err ''Transaction workload initialization failed: no seeded wallet accounts configured''
      else case first_of (gt_nodes t) of
        None \<Rightarrow> Err ''transaction workload requires at least one node in the topology''
      | Some node \<Rightarrow>
          (let matched = List.map_filter (match_account_to_utxo cr (wallet_utxo_map cr node)) wallet_accounts;
               accounts = apply_user_limit matched (tw_user_limit w)
           in if accounts = [] then
                Err ''Transaction workload initialization failed: could not match any wallet accounts to genesis UTXOs''
              else Ok (w\<lparr>tw_accounts := accounts\<rparr>)))"

section \<open>Submission plan\<close>

record submission_plan =
  sp_transaction_count :: nat
  sp_submission_interval :: duration

definition max_submission_interval :: duration where
  "max_submission_interval = from_secs 1"

definition submission_plan_for :: "nat \<Rightarrow> run_metrics \<Rightarrow> nat \<Rightarrow> (string + submission_plan) option" where
  "submission_plan_for rate m available =
     (if available = 0 then
        Some (Err ''Transaction workload planning failed: no accounts available for transaction scheduling'')
      else
        let run_secs = as_secs_f64 (rm_run_duration m);
            block_secs = as_secs_f64 (case rm_block_interval_hint m of None \<Rightarrow> rm_run_duration m | Some h \<Rightarrow> h);
            estimated = f64_div run_secs block_secs;
            target = f64_to_u64 (f64_clamp (Fin 0) f64_u64_max (f64_floor (f64_mul estimated (f64_of_nat rate))));
            actual = min target available
        in if actual = 0 then
             Some (Err ''Transaction workload planning failed: calculated zero transactions to submit based on run duration and target rate'')
           else map_option (\<lambda>interval.
                  Ok \<lparr>sp_transaction_count = actual,
                      sp_submission_interval =
                        (if max_submission_interval < interval then max_submission_interval else interval)\<rparr>)
                (from_secs_f64 (f64_div run_secs (f64_of_nat actual))))"

record submission =
  sb_plan :: "wallet_input list"
  sb_interval :: duration

definition submission_new :: "tx_workload \<Rightarrow> run_metrics \<Rightarrow> (string + submission) option" where
  "submission_new w m =
     (if tw_accounts w = [] then
        Some (Err ''Transaction workload submission failed: no available accounts for transaction creation'')
      else map_option (\<lambda>r. and_then r (\<lambda>plan.
             Ok \<lparr>sb_plan = take (sp_transaction_count plan) (tw_accounts w),
                 sb_interval = sp_submission_interval plan\<rparr>))
           (submission_plan_for (tw_txs_per_block w) m (length (tw_accounts w))))"

section \<open>Submitting\<close>

record tx_lib =
  xl_build :: "utxo list \<Rightarrow> ledger_note list \<Rightarrow> mantle_tx"
  xl_signed_new :: "mantle_tx \<Rightarrow> op_proof list \<Rightarrow> zk_sig \<Rightarrow> string + signed_mantle_tx"

definition build_wallet_transaction :: "crypto \<Rightarrow> tx_lib \<Rightarrow> wallet_input \<Rightarrow> string + signed_mantle_tx" where
  "build_wallet_transaction cr xl input =
     (let mtx = xl_build xl [wi_utxo input]
                  [\<lparr>note_value = note_value (utxo_note (wi_utxo input)),
                    note_pk = wallet_public_key (cr_zk_pk cr) (wi_account input)\<rparr>]
      in and_then (map_err (\<lambda>e. ''Transaction workload signing failed: could not sign transaction: '' @ e)
              (cr_multi_sign cr [wa_secret_key (wi_account input)] (cr_mantle_hash cr mtx))) (\<lambda>sig.
         map_err (\<lambda>e. ''Transaction workload construction failed: invalid transaction structure: '' @ e)
           (xl_signed_new xl mtx [] sig)))"

definition submit_retries :: nat where "submit_retries = 5"

text \<open>One pass over the clients: the first acceptance ends it, an error is remembered.\<close>

fun try_clients :: "(nat \<Rightarrow> string + unit) \<Rightarrow> nat list \<Rightarrow> string option \<Rightarrow> (string option + unit)" where
  "try_clients answer [] last_err = Err last_err"
| "try_clients answer (c # cs) last_err =
     (case answer c of Inr _ \<Rightarrow> Ok () | Inl e \<Rightarrow> try_clients answer cs (Some e))"

fun try_attempts ::
  "(nat \<Rightarrow> nat list \<Rightarrow> nat list) \<Rightarrow> (nat \<Rightarrow> nat \<Rightarrow> string + unit) \<Rightarrow> nat list \<Rightarrow> nat list \<Rightarrow>
   string option \<Rightarrow> (string option + unit)" where
  "try_attempts shuffle answer clients [] last_err = Err last_err"
| "try_attempts shuffle answer clients (a # as) last_err =
     (let clients' = shuffle (Suc a) clients in
      case try_clients (answer a) clients' last_err of
        Inr _ \<Rightarrow> Ok ()
      | Inl e \<Rightarrow> try_attempts shuffle answer clients' as e)"

definition submit_transaction_via_cluster ::
  "(nat \<Rightarrow> nat list \<Rightarrow> nat list) \<Rightarrow> (nat \<Rightarrow> nat \<Rightarrow> string + unit) \<Rightarrow> nat \<Rightarrow> string + unit" where
  "submit_transaction_via_cluster shuffle answer n_clients =
     map_err (\<lambda>e. case e of None \<Rightarrow> ''cluster client exhausted all nodes'' | Some m \<Rightarrow> m)
       (try_attempts shuffle answer (shuffle 0 [0..<n_clients]) [0..<submit_retries] None)"

text \<open>
  Executing a plan: inputs are submitted in order until one fails; the result, the accepted inputs
  and the total time slept.
\<close>

fun execute :: "(wallet_input \<Rightarrow> string + unit) \<Rightarrow> duration \<Rightarrow> wallet_input list \<Rightarrow>
    (string + unit) \<times> wallet_input list \<times> duration" where
  "execute submit interval [] = (Ok (), [], 0)"
| "execute submit interval (x # xs) =
     (case submit x of
        Inl e \<Rightarrow> (Err e, [], 0)
      | Inr _ \<Rightarrow>
          (case execute submit interval xs of
             (r, done_inputs, slept) \<Rightarrow> (r, x # done_inputs, (if 0 < interval then interval else 0) + slept)))"

definition submit_wallet_transaction ::
  "crypto \<Rightarrow> tx_lib \<Rightarrow> (signed_mantle_tx \<Rightarrow> string + unit) \<Rightarrow> wallet_input \<Rightarrow> string + unit" where
  "submit_wallet_transaction cr xl cluster input =
     and_then (build_wallet_transaction cr xl input) cluster"

definition tx_start ::
  "crypto \<Rightarrow> tx_lib \<Rightarrow> (signed_mantle_tx \<Rightarrow> string + unit) \<Rightarrow> tx_workload \<Rightarrow> run_metrics \<Rightarrow>
   ((string + unit) \<times> wallet_input list \<times> duration) option" where
  "tx_start cr xl cluster w m =
     map_option (\<lambda>r. case r of
         Inl e \<Rightarrow> (Err e, [], 0)
       | Inr sb \<Rightarrow> execute (submit_wallet_transaction cr xl cluster) (sb_interval sb) (sb_plan sb))
       (submission_new w m)"

section \<open>Inclusion expectation\<close>

datatype tx_expectation_error =
  MissingAccounts
| NoPlannedTransactions
| NotCaptured
| InsufficientInclusions nat nat
| PlanFailed string

record tx_inclusion =
  ti_txs_per_block :: nat
  ti_user_limit :: "nat option"
  ti_capture_expected :: "nat option"

definition tx_inclusion_new :: "nat \<Rightarrow> nat option \<Rightarrow> tx_inclusion" where
  "tx_inclusion_new rate limit =
     \<lparr>ti_txs_per_block = rate, ti_user_limit = limit, ti_capture_expected = None\<rparr>"

definition tx_expectations :: "tx_workload \<Rightarrow> tx_inclusion list" where
  "tx_expectations w = [tx_inclusion_new (tw_txs_per_block w) (tw_user_limit w)]"

definition build_capture_plan ::
  "crypto \<Rightarrow> tx_inclusion \<Rightarrow> generated_topology \<Rightarrow> run_metrics \<Rightarrow>
   (tx_expectation_error + (submission_plan \<times> zk_pk set)) option" where
  "build_capture_plan cr ti t m =
     (let accounts = topology_wallet_accounts t in
      if accounts = [] then Some (Err MissingAccounts)
      else map_option (\<lambda>r. and_then (map_err PlanFailed r) (\<lambda>plan.
             Ok (plan, set (map (\<lambda>a. cr_zk_pk cr (wa_secret_key a))
                              (take (sp_transaction_count plan) accounts)))))
           (submission_plan_for (ti_txs_per_block ti) m (limited_user_count (ti_user_limit ti) (length accounts))))"

text \<open>\<^verbatim>\<open>start_capture\<close>: the new expectation state and the accounts the capture task tracks.\<close>

definition start_capture ::
  "crypto \<Rightarrow> generated_topology \<Rightarrow> run_metrics \<Rightarrow> tx_inclusion \<Rightarrow>
   (tx_expectation_error + (tx_inclusion \<times> zk_pk set option)) option" where
  "start_capture cr t m ti =
     (if ti_capture_expected ti \<noteq> None then Some (Ok (ti, None))
      else map_option (\<lambda>r. and_then r (\<lambda>(plan, tracked).
             if sp_transaction_count plan = 0 then Err NoPlannedTransactions
             else Ok (ti\<lparr>ti_capture_expected := Some (sp_transaction_count plan)\<rparr>, Some tracked)))
           (build_capture_plan cr ti t m))"

datatype feed_event = FeedRecord block_record | FeedLagged nat | FeedClosed

definition tx_tracked :: "zk_pk set \<Rightarrow> block_tx \<Rightarrow> bool" where
  "tx_tracked tracked tx \<longleftrightarrow> list_ex (\<lambda>n. note_pk n \<in> tracked) (ltx_outputs (btx_ledger tx))"

definition capture_tx_outputs :: "zk_pk set \<Rightarrow> block \<Rightarrow> nat \<Rightarrow> nat" where
  "capture_tx_outputs tracked b observed =
     fold (\<lambda>tx n. if tx_tracked tracked tx then n + 1 else n) (blk_transactions b) observed"

fun capture_loop :: "zk_pk set \<Rightarrow> feed_event list \<Rightarrow> nat \<Rightarrow> nat" where
  "capture_loop tracked [] observed = observed"
| "capture_loop tracked (FeedRecord r # es) observed =
     capture_loop tracked es
       (if blk_parent (rec_block r) = replicate 32 0 then observed
        else capture_tx_outputs tracked (rec_block r) observed)"
| "capture_loop tracked (FeedLagged k # es) observed = capture_loop tracked es observed"
| "capture_loop tracked (FeedClosed # es) observed = observed"

definition catchup_poll_interval :: duration where "catchup_poll_interval = from_secs 1"
definition max_catchup_wait :: duration where "max_catchup_wait = from_secs 60"

text \<open>Waiting for the counter: \<open>obs k\<close> is its value at the \<open>k\<close>-th reading.\<close>

function catch_up_wait :: "(nat \<Rightarrow> nat) \<Rightarrow> nat \<Rightarrow> nat \<Rightarrow> duration \<Rightarrow> nat" where
  "catch_up_wait obs required k remaining =
     (if obs k < required \<and> 0 < remaining
      then catch_up_wait obs required (Suc k) (dur_saturating_sub remaining catchup_poll_interval)
      else obs k)"
  by auto
termination
  by (relation "measure (\<lambda>(_, _, _, r). r)")
    (auto simp: dur_saturating_sub_def catchup_poll_interval_def from_secs_def nanos_per_sec_def)

declare catch_up_wait.simps [simp del]

definition required_inclusions :: "nat \<Rightarrow> nat" where
  "required_inclusions expected = f64_to_u64 (f64_ceil (f64_mul (f64_of_nat expected) (Fin (1 / 2))))"

definition evaluate_inclusion ::
  "(nat \<Rightarrow> nat) \<Rightarrow> generated_topology \<Rightarrow> run_metrics \<Rightarrow> tx_inclusion \<Rightarrow> (tx_expectation_error + unit) option" where
  "evaluate_inclusion obs t m ti =
     (case ti_capture_expected ti of
        None \<Rightarrow> Some (Err NotCaptured)
      | Some expected \<Rightarrow>
          (let required = required_inclusions expected;
               judge = (\<lambda>observed. if required \<le> observed then Ok ()
                                   else Err (InsufficientInclusions observed required))
           in if obs 0 < required then
                (let security = cp_security_param (tc_consensus_params (gt_config t));
                     hinted = (case rm_block_interval_hint m of
                                 None \<Rightarrow> Some max_catchup_wait
                               | Some h \<Rightarrow> mul_f64 h (f64_of_nat security))
                 in map_option (\<lambda>w. judge (catch_up_wait obs required 0 (min w max_catchup_wait))) hinted)
              else Some (judge (obs 0))))"

section \<open>Facts on accounts\<close>

lemma wallet_utxo_map_distinct:
  fixes cr :: crypto and node :: generated_node_config
  defines "ltx \<equiv> mtx_ledger_tx (cr_genesis_mantle_tx cr (gcc_genesis_tx (gc_consensus_config (gn_general node))))"
  assumes "distinct (map note_pk (ltx_outputs ltx))" "k < length (ltx_outputs ltx)"
  shows "wallet_utxo_map cr node (note_pk (ltx_outputs ltx ! k)) =
    Some \<lparr>utxo_tx_hash = cr_ledger_hash cr ltx, utxo_output_index = k, utxo_note = ltx_outputs ltx ! k\<rparr>"
proof -
  let ?entry = "\<lambda>(idx, n). (note_pk n, \<lparr>utxo_tx_hash = cr_ledger_hash cr ltx, utxo_output_index = idx, utxo_note = n\<rparr>)"
  let ?es = "map ?entry (enumerate 0 (ltx_outputs ltx))"
  have keys: "map fst ?es = map note_pk (ltx_outputs ltx)"
    by (intro nth_equalityI) (simp_all add: nth_enumerate_eq)
  have "?es ! k \<in> set ?es" using assms(3) by (intro nth_mem) simp
  moreover have "?es ! k = ?entry (k, ltx_outputs ltx ! k)" using assms(3) by (simp add: nth_enumerate_eq)
  ultimately have "(note_pk (ltx_outputs ltx ! k),
      \<lparr>utxo_tx_hash = cr_ledger_hash cr ltx, utxo_output_index = k, utxo_note = ltx_outputs ltx ! k\<rparr>) \<in> set (rev ?es)"
    by (simp only: set_rev prod.case)
  moreover have "distinct (map fst (rev ?es))" unfolding rev_map [symmetric] keys using assms(2) by simp
  ultimately show ?thesis
    unfolding wallet_utxo_map_def Let_def ltx_def [symmetric] by (rule map_of_is_SomeI [rotated])
qed

lemma length_apply_user_limit: "length (apply_user_limit xs l) = limited_user_count l (length xs)"
  by (cases l) (simp_all add: apply_user_limit_def limited_user_count_def)

lemma apply_user_limit_take: "apply_user_limit xs l = take (limited_user_count l (length xs)) xs"
  by (cases l) (simp_all add: apply_user_limit_def limited_user_count_def)

lemma limited_user_count_le: "limited_user_count l n \<le> n"
  by (cases l) (simp_all add: limited_user_count_def)

text \<open>The genesis outputs every node of a built topology carries.\<close>

lemma build_genesis_outputs:
  assumes "genesis_wraps (dp_crypto d)" "build d ev b s = (Ok t, s')"
  obtains ids node where "first_of (gt_nodes t) = Some node" "length ids = tc_n_nodes (tb_config b)"
    "mtx_ledger_tx (cr_genesis_mantle_tx (dp_crypto d) (gcc_genesis_tx (gc_consensus_config (gn_general node)))) =
       \<lparr>ltx_inputs = [], ltx_outputs = genesis_outputs (dp_crypto d) ids (tc_wallet_config (tb_config b))\<rparr>"
    "topology_wallet_accounts t = wc_accounts (tc_wallet_config (tb_config b))"
    "\<And>given. tb_ids b = Some given \<Longrightarrow> ids = given"
  using assms(2)
proof (rule build_Ok)
  fix ids ports and base :: base_configs and apis rest g and first :: general_consensus_config
  let ?n = "tc_n_nodes (tb_config b)" and ?cr = "dp_crypto d"
  assume ready: "parts_ready d ev b ids ports base apis" and f: "bs_consensus_configs base = first # rest"
    and g: "create_consensus_genesis_tx ?cr first
        (map (\<lambda>i. provider_of (bs_blend_configs base ! i) (gcc_blend_notes first ! i)) [0..<?n]) = Ok g"
    and t: "t = \<lparr>gt_config = tb_config b, gt_nodes = map (node_at d ev b ids ports base apis s' g) [0..<?n]\<rparr>"
  have n: "0 < ?n" "length ids = ?n" and cons: "create_consensus_configs ?cr ids (tc_consensus_params (tb_config b))
      (tc_wallet_config (tb_config b)) = Ok (bs_consensus_configs base)" and mem: "first \<in> set (bs_consensus_configs base)"
    and given: "\<And>given. tb_ids b = Some given \<Longrightarrow> ids = given"
    using ready f by (simp_all add: parts_ready_def Let_def)
  have "mtx_ledger_tx (cr_genesis_mantle_tx ?cr g) = mtx_ledger_tx (cr_genesis_mantle_tx ?cr (gcc_genesis_tx first))"
    using g create_genesis_tx_with_declarations_Ok [OF assms(1)]
    by (force simp: create_consensus_genesis_tx_def map_err_eq_Ok)
  with consensus_genesis_outputs [OF assms(1) cons mem] n given show ?thesis
    by (intro that [of "node_at d ev b ids ports base apis s' g 0" ids])
      (simp_all add: t upt_rec node_at_def topology_wallet_accounts_def)
qed

lemma matched_accounts:
  fixes cr :: crypto and node :: generated_node_config
  defines "ltx \<equiv> mtx_ledger_tx (cr_genesis_mantle_tx cr (gcc_genesis_tx (gc_consensus_config (gn_general node))))"
  assumes outs: "ltx_outputs ltx = genesis_outputs cr ids wallet" and d: "distinct (map note_pk (ltx_outputs ltx))"
  shows "List.map_filter (match_account_to_utxo cr (wallet_utxo_map cr node)) (wc_accounts wallet) =
    map (\<lambda>i. \<lparr>wi_account = wc_accounts wallet ! i,
              wi_utxo = \<lparr>utxo_tx_hash = cr_ledger_hash cr ltx, utxo_output_index = 3 * length ids + i,
                         utxo_note = \<lparr>note_value = wa_value (wc_accounts wallet ! i),
                                      note_pk = wallet_public_key (cr_zk_pk cr) (wc_accounts wallet ! i)\<rparr>\<rparr>\<rparr>)
      [0..<length (wc_accounts wallet)]"
    (is "_ = map ?input _")
proof -
  have len: "length (concat (map (node_notes cr) ids)) = 3 * length ids" by (induction ids) simp_all
  have at: "3 * length ids + i < length (ltx_outputs ltx) \<and>
      ltx_outputs ltx ! (3 * length ids + i) = \<lparr>note_value = wa_value (wc_accounts wallet ! i),
        note_pk = wallet_public_key (cr_zk_pk cr) (wc_accounts wallet ! i)\<rparr>" if "i < length (wc_accounts wallet)" for i
    using that len by (simp add: outs genesis_outputs_def nth_append)
  have "match_account_to_utxo cr (wallet_utxo_map cr node) (wc_accounts wallet ! i) = Some (?input i)"
    if "i < length (wc_accounts wallet)" for i
    using wallet_utxo_map_distinct [of cr node "3 * length ids + i"] d at [OF that]
    unfolding ltx_def [symmetric] by (simp add: match_account_to_utxo_def)
  then have "List.map_filter (match_account_to_utxo cr (wallet_utxo_map cr node))
      (map ((!) (wc_accounts wallet)) [0..<length (wc_accounts wallet)]) = map ?input [0..<length (wc_accounts wallet)]"
    by (simp add: List.map_filter_def comp_def)
  then show ?thesis by (simp add: map_nth)
qed

section \<open>Facts on plans\<close>

lemma submission_plan_Ok:
  assumes "submission_plan_for rate m n = Some (Ok p)"
  shows "0 < sp_transaction_count p" "sp_transaction_count p \<le> n" "sp_submission_interval p \<le> from_secs 1"
  using assms by (auto simp: submission_plan_for_def Let_def max_submission_interval_def split: if_splits)

section \<open>Facts on submission\<close>

lemma try_clients_Ok: "try_clients answer cs e = Ok () \<longleftrightarrow> (\<exists>c \<in> set cs. is_ok (answer c))"
  by (induction cs arbitrary: e) (auto split: sum.splits)

lemma try_clients_Err:
  "try_clients answer cs e = Inl e' \<Longrightarrow>
     e' = (if cs = [] then e else case answer (last cs) of Inl m \<Rightarrow> Some m | Inr _ \<Rightarrow> None)"
  by (induction cs arbitrary: e) (auto split: sum.splits if_splits)

lemma try_attempts_Ok:
  assumes "\<And>k xs. set (shuffle k xs) = set xs"
  shows "try_attempts shuffle answer cs as e = Ok () \<longleftrightarrow> (\<exists>a \<in> set as. \<exists>c \<in> set cs. is_ok (answer a c))"
proof (induction as arbitrary: cs e)
  case (Cons a as)
  show ?case
  proof (cases "try_clients (answer a) (shuffle (Suc a) cs) e")
    case (Inl e')
    with try_clients_Ok [of "answer a" "shuffle (Suc a) cs" e] have "\<forall>c \<in> set cs. \<not> is_ok (answer a c)"
      by (simp add: assms)
    with Inl Cons.IH [of "shuffle (Suc a) cs" e'] show ?thesis by (auto simp: Let_def assms)
  next
    case (Inr u)
    then have "try_clients (answer a) (shuffle (Suc a) cs) e = Ok ()" by simp
    then have "\<exists>c \<in> set cs. is_ok (answer a c)" unfolding try_clients_Ok assms .
    with Inr show ?thesis by (auto simp: Let_def)
  qed
qed simp

lemma execute_spec:
  "execute submit i xs = (r, done_inputs, slept) \<Longrightarrow>
     done_inputs = takeWhile (\<lambda>x. is_ok (submit x)) xs \<and> slept = length done_inputs * i \<and>
     (r = Ok () \<longleftrightarrow> done_inputs = xs) \<and>
     (\<forall>e. r = Err e \<longrightarrow> length done_inputs < length xs \<and> submit (xs ! length done_inputs) = Err e)"
proof (induction xs arbitrary: r done_inputs slept)
  case (Cons x xs)
  show ?case
  proof (cases "submit x")
    case (Inl e)
    with Cons.prems have "r = Err e" "done_inputs = []" "slept = 0" by auto
    with Inl show ?thesis by simp
  next
    case (Inr u)
    obtain r' d' s' where rec: "execute submit i xs = (r', d', s')" by (cases "execute submit i xs")
    with Cons.prems Inr have "r = r'" "done_inputs = x # d'" "slept = (if 0 < i then i else 0) + s'" by auto
    with Cons.IH [OF rec] Inr show ?thesis by auto
  qed
qed auto

section \<open>Facts on inclusion\<close>

lemma capture_tx_outputs_eq:
  "capture_tx_outputs tracked b n = n + length (filter (tx_tracked tracked) (blk_transactions b))"
proof -
  have "fold (\<lambda>tx n. if tx_tracked tracked tx then n + 1 else n) txs n = n + length (filter (tx_tracked tracked) txs)"
    for txs n by (induction txs arbitrary: n) auto
  then show ?thesis by (simp add: capture_tx_outputs_def)
qed

text \<open>The blocks a capture task looks at: those received before the feed closed, children of genesis excepted.\<close>

definition captured_blocks :: "feed_event list \<Rightarrow> block list" where
  "captured_blocks es =
     filter (\<lambda>b. blk_parent b \<noteq> replicate 32 0)
       (List.map_filter (\<lambda>e. case e of FeedRecord r \<Rightarrow> Some (rec_block r) | _ \<Rightarrow> None)
          (takeWhile (\<lambda>e. e \<noteq> FeedClosed) es))"

lemma capture_loop_eq:
  "capture_loop tracked es n =
     n + sum_list (map (\<lambda>b. length (filter (tx_tracked tracked) (blk_transactions b))) (captured_blocks es))"
  by (induction tracked es n rule: capture_loop.induct)
    (auto simp: captured_blocks_def List.map_filter_def capture_tx_outputs_eq)

lemma required_inclusions_eq: "e < 2 ^ 53 \<Longrightarrow> required_inclusions e = (e + 1) div 2"
proof -
  assume e: "e < 2 ^ 53"
  have "\<lceil>of_nat e / 2 :: rat\<rceil> = int ((e + 1) div 2)"
  proof (cases "even e")
    case True
    then obtain k where "e = 2 * k" by blast
    then show ?thesis by simp
  next
    case False
    then obtain k where "e = 2 * k + 1" using oddE by blast
    then show ?thesis by (simp add: ceiling_unique add_divide_distrib)
  qed
  moreover have "(e + 1) div 2 \<le> u64_max" using e by simp
  ultimately show ?thesis
    using e by (simp add: required_inclusions_def f64_of_nat_def round64_exact_nat round64_exact_half)
qed

text \<open>The wait reads the counter until it suffices or the budget of whole polls is used up.\<close>

definition polls :: "duration \<Rightarrow> nat" where
  "polls remaining = (remaining + (from_secs 1 - 1)) div from_secs 1"

lemma polls_step:
  assumes r: "0 < r"
  shows "polls r = Suc (polls (dur_saturating_sub r catchup_poll_interval))"
proof -
  define n where "n = from_secs 1"
  have pos: "0 < n" by (simp add: n_def from_secs_def nanos_per_sec_def)
  have "(r + (n - 1)) div n = Suc ((r - n + (n - 1)) div n)"
  proof (cases "n \<le> r")
    case True
    then have "r + (n - 1) = (r - 1) + n" "r - n + (n - 1) = r - 1" using pos by simp_all
    then show ?thesis using pos by (simp only: div_add_self2 Suc_eq_plus1)
  next
    case False
    then have "(r + (n - 1)) div n = 1" using r pos by (intro div_nat_eqI) simp_all
    with False pos show ?thesis by simp
  qed
  then show ?thesis
    by (simp only: polls_def dur_saturating_sub_def catchup_poll_interval_def n_def)
qed

lemma polls_0 [simp]: "polls 0 = 0"
  by (simp add: polls_def from_secs_def nanos_per_sec_def)

lemma catch_up_wait_spec:
  assumes "mono obs"
  shows "required \<le> catch_up_wait obs required k r \<longleftrightarrow> required \<le> obs (k + polls r)"
  using assms
proof (induction obs required k r rule: catch_up_wait.induct)
  case (1 obs required k r)
  show ?case
  proof (cases "obs k < required \<and> 0 < r")
    case True
    with 1 polls_step [of r] show ?thesis by (simp add: catch_up_wait.simps [of obs required k r])
  next
    case False
    moreover have "required \<le> obs (k + polls r)" if "required \<le> obs k"
      using that monoD [OF "1.prems", of k "k + polls r"] by simp
    ultimately show ?thesis by (auto simp: catch_up_wait.simps [of obs required k r])
  qed
qed

lemma polls_bound: "r \<le> from_secs 60 \<Longrightarrow> polls r \<le> 60"
  unfolding polls_def
  by (rule order_trans [OF div_le_mono [of _ "from_secs 60 + (from_secs 1 - 1)"]])
    (simp_all add: from_secs_def nanos_per_sec_def)

section \<open>Properties\<close>

text \<open>
  Property C29.  On a topology made by the builder whose genesis outputs belong to pairwise different
  keys, initialising the transaction workload succeeds when there are wallet accounts and the user
  limit, if set, is positive.  It prepares the first accounts of the wallet up to the limit, in
  order, each with the very genesis output that funds it: an existing output of the shared genesis
  ledger transaction with the account's key and balance, a different one for every account.
\<close>

theorem tx_accounts_own_genesis_outputs:
  assumes "genesis_wraps (dp_crypto d)" "build d ev b s = (Ok t, s')"
    and "wc_accounts (tc_wallet_config (tb_config b)) \<noteq> []" "tw_user_limit w \<noteq> Some 0"
  shows "\<exists>node ltx. first_of (gt_nodes t) = Some node \<and>
    ltx = mtx_ledger_tx (cr_genesis_mantle_tx (dp_crypto d) (gcc_genesis_tx (gc_consensus_config (gn_general node)))) \<and>
    (distinct (map note_pk (ltx_outputs ltx)) \<longrightarrow>
      (\<exists>w'. tx_init (dp_crypto d) t w = Ok w' \<and>
        map wi_account (tw_accounts w') =
          take (limited_user_count (tw_user_limit w) (length (topology_wallet_accounts t))) (topology_wallet_accounts t) \<and>
        tw_accounts w' \<noteq> [] \<and> distinct (map (\<lambda>i. utxo_output_index (wi_utxo i)) (tw_accounts w')) \<and>
        (\<forall>i \<in> set (tw_accounts w'). \<exists>k < length (ltx_outputs ltx).
           wi_utxo i = \<lparr>utxo_tx_hash = cr_ledger_hash (dp_crypto d) ltx, utxo_output_index = k,
                        utxo_note = ltx_outputs ltx ! k\<rparr> \<and>
           ltx_outputs ltx ! k = \<lparr>note_value = wa_value (wi_account i),
             note_pk = wallet_public_key (cr_zk_pk (dp_crypto d)) (wi_account i)\<rparr>)))"
  using assms(1,2)
proof (rule build_genesis_outputs)
  fix ids and node :: generated_node_config
  let ?cr = "dp_crypto d" and ?w = "tc_wallet_config (tb_config b)"
  let ?ltx = "mtx_ledger_tx (cr_genesis_mantle_tx ?cr (gcc_genesis_tx (gc_consensus_config (gn_general node))))"
  assume node: "first_of (gt_nodes t) = Some node"
    and ltx: "?ltx = \<lparr>ltx_inputs = [], ltx_outputs = genesis_outputs ?cr ids ?w\<rparr>"
    and acc: "topology_wallet_accounts t = wc_accounts ?w"
  let ?n = "limited_user_count (tw_user_limit w) (length (wc_accounts ?w))"
  let ?input = "\<lambda>i. \<lparr>wi_account = wc_accounts ?w ! i,
        wi_utxo = \<lparr>utxo_tx_hash = cr_ledger_hash ?cr ?ltx, utxo_output_index = 3 * length ids + i,
          utxo_note = \<lparr>note_value = wa_value (wc_accounts ?w ! i),
             note_pk = wallet_public_key (cr_zk_pk ?cr) (wc_accounts ?w ! i)\<rparr>\<rparr>\<rparr>"
  have n: "0 < ?n" "?n \<le> length (wc_accounts ?w)"
    using assms(3,4) limited_user_count_le by (auto simp: limited_user_count_def split: option.splits)
  have outs: "3 * length ids + i < length (ltx_outputs ?ltx) \<and>
      ltx_outputs ?ltx ! (3 * length ids + i) = utxo_note (wi_utxo (?input i))" if "i < length (wc_accounts ?w)" for i
  proof -
    have "length (concat (map (node_notes ?cr) ids)) = 3 * length ids" by (induction ids) simp_all
    with that show ?thesis by (simp add: ltx genesis_outputs_def nth_append)
  qed
  have init: "tx_init ?cr t w = Ok (w\<lparr>tw_accounts := map ?input [0..<?n]\<rparr>)" if "distinct (map note_pk (ltx_outputs ?ltx))"
    using matched_accounts [of ?cr node ids ?w] that n assms(3)
    by (simp add: tx_init_def Let_def acc node ltx apply_user_limit_take take_map min_def)
  have accs: "map wi_account (map ?input [0..<?n]) = take ?n (wc_accounts ?w)"
    using n(2) by (intro nth_equalityI) simp_all
  have dist: "distinct (map (\<lambda>i. utxo_output_index (wi_utxo i)) (map ?input [0..<?n]))"
    by (simp add: comp_def distinct_map inj_on_def)
  have own: "\<forall>i \<in> set (map ?input [0..<?n]). \<exists>k < length (ltx_outputs ?ltx).
           wi_utxo i = \<lparr>utxo_tx_hash = cr_ledger_hash ?cr ?ltx, utxo_output_index = k, utxo_note = ltx_outputs ?ltx ! k\<rparr> \<and>
           ltx_outputs ?ltx ! k = \<lparr>note_value = wa_value (wi_account i),
             note_pk = wallet_public_key (cr_zk_pk ?cr) (wi_account i)\<rparr>"
  proof
    fix x assume "x \<in> set (map ?input [0..<?n])"
    then obtain i where i: "i < length (wc_accounts ?w)" "x = ?input i" using n(2) by auto
    from outs [OF i(1)] i(2) show "\<exists>k < length (ltx_outputs ?ltx).
           wi_utxo x = \<lparr>utxo_tx_hash = cr_ledger_hash ?cr ?ltx, utxo_output_index = k, utxo_note = ltx_outputs ?ltx ! k\<rparr> \<and>
           ltx_outputs ?ltx ! k = \<lparr>note_value = wa_value (wi_account x),
             note_pk = wallet_public_key (cr_zk_pk ?cr) (wi_account x)\<rparr>"
      by (intro exI [of _ "3 * length ids + i"]) simp
  qed
  have upd: "tw_accounts (w\<lparr>tw_accounts := x\<rparr>) = x" for x by simp
  have "map ?input [0..<?n] \<noteq> []" using n(1) by simp
  with init accs dist own node show ?thesis
    by (intro exI [of _ node] exI [of _ ?ltx] conjI impI refl exI [of _ "w\<lparr>tw_accounts := map ?input [0..<?n]\<rparr>"])
      (simp_all only: acc upd simp_thms)
qed

definition demo_wallet :: wallet_config where
  "demo_wallet = \<lparr>wc_accounts = [\<lparr>wa_label = ''a'', wa_secret_key = 7, wa_value = 5\<rparr>,
                                 \<lparr>wa_label = ''b'', wa_secret_key = 8, wa_value = 6\<rparr>]\<rparr>"

lemma demo_outputs_distinct: "distinct (map note_pk (genesis_outputs demo_crypto demo_ids demo_wallet))"
proof -
  have rep: "replicate 14 b = b # replicate 13 b" "replicate 13 b = [b, b, b, b, b, b, b, b, b, b, b, b, b]" for b :: u8
    by (simp_all add: numeral_eq_Suc)
  show ?thesis
    by (simp add: genesis_outputs_def demo_ids_def demo_wallet_def node_notes_def role_note_def role_pk_def
        role_key_def derive_key_material_def prefix_ld_def prefix_bn_def prefix_sdp_def wallet_public_key_def rep)
qed

theorem tx_accounts_own_genesis_outputs_witness:
  "\<exists>t s' w'. build demo_deps Map.empty (with_wallet_config demo_wallet demo_builder) demo_os = (Ok t, s') \<and>
     tx_init demo_crypto t tx_workload_default = Ok w' \<and> map wi_account (tw_accounts w') = wc_accounts demo_wallet"
proof -
  let ?b = "with_wallet_config demo_wallet demo_builder"
  have b: "tb_ids ?b = Some demo_ids" "tc_wallet_config (tb_config ?b) = demo_wallet" "tc_n_nodes (tb_config ?b) = 2"
    "tb_blend_ports ?b = Some [4000, 4001]" by (simp_all add: with_wallet_config_def)
  obtain t s' where t: "build demo_deps Map.empty ?b demo_os = (Ok t, s')"
    using build_is_ok [of demo_deps demo_os ?b Map.empty] by (auto simp: b vector_fits_def demo_ids_def)
  have wraps: "genesis_wraps (dp_crypto demo_deps)" by simp
  have "wc_accounts (tc_wallet_config (tb_config ?b)) \<noteq> []" "tw_user_limit tx_workload_default \<noteq> Some 0"
    unfolding b by (simp_all add: demo_wallet_def tx_workload_default_def tx_workload_new_def)
  note own = tx_accounts_own_genesis_outputs [OF wraps t this]
  from wraps t show ?thesis
  proof (rule build_genesis_outputs)
    fix ids and node :: generated_node_config
    assume "first_of (gt_nodes t) = Some node"
      "mtx_ledger_tx (cr_genesis_mantle_tx (dp_crypto demo_deps) (gcc_genesis_tx (gc_consensus_config (gn_general node)))) =
       \<lparr>ltx_inputs = [], ltx_outputs = genesis_outputs (dp_crypto demo_deps) ids (tc_wallet_config (tb_config ?b))\<rparr>"
      and acc: "topology_wallet_accounts t = wc_accounts (tc_wallet_config (tb_config ?b))"
      and "\<And>given. tb_ids ?b = Some given \<Longrightarrow> ids = given"
    then have "distinct (map note_pk (ltx_outputs (mtx_ledger_tx (cr_genesis_mantle_tx (dp_crypto demo_deps)
        (gcc_genesis_tx (gc_consensus_config (gn_general node)))))))"
      using demo_outputs_distinct b by simp
    with own \<open>first_of (gt_nodes t) = Some node\<close> obtain w' where
      "tx_init (dp_crypto demo_deps) t tx_workload_default = Ok w'"
      "map wi_account (tw_accounts w') = take (limited_user_count (tw_user_limit tx_workload_default)
         (length (topology_wallet_accounts t))) (topology_wallet_accounts t)" by auto
    with t acc b show ?thesis
      by (auto simp: limited_user_count_def tx_workload_default_def tx_workload_new_def)
  qed
qed

text \<open>
  The workload and its expectation plan the same transactions.  When every wallet
  account was matched at initialisation, a submission plan of the workload is a non-empty prefix of
  its accounts with pauses of at most one second, and the expectation derived from the workload
  expects exactly that many inclusions and tracks exactly the keys of the accounts that submit.
\<close>

theorem tx_plan_agreement:
  assumes "map wi_account (tw_accounts w) =
      take (limited_user_count (tw_user_limit w) (length (topology_wallet_accounts t))) (topology_wallet_accounts t)"
    and "submission_new w m = Some (Ok sb)"
  shows "sb_plan sb \<noteq> [] \<and> (\<exists>rest. tw_accounts w = sb_plan sb @ rest) \<and> sb_interval sb \<le> from_secs 1 \<and>
    (\<exists>ti. tx_expectations w = [ti] \<and>
      start_capture cr t m ti =
        Some (Ok (ti\<lparr>ti_capture_expected := Some (length (sb_plan sb))\<rparr>,
                  Some (set (map (\<lambda>i. wallet_public_key (cr_zk_pk cr) (wi_account i)) (sb_plan sb))))))"
proof -
  let ?as = "topology_wallet_accounts t" and ?n = "limited_user_count (tw_user_limit w) (length (topology_wallet_accounts t))"
  have len: "length (tw_accounts w) = ?n"
    using arg_cong [OF assms(1), of length] limited_user_count_le [of "tw_user_limit w" "length ?as"] by simp
  from assms(2) obtain p where p: "submission_plan_for (tw_txs_per_block w) m ?n = Some (Ok p)"
    and sb: "sb = \<lparr>sb_plan = take (sp_transaction_count p) (tw_accounts w), sb_interval = sp_submission_interval p\<rparr>"
    and ne: "tw_accounts w \<noteq> []"
    by (auto simp: submission_new_def len result_iffs split: if_splits)
  note plan = submission_plan_Ok [OF p]
  have as: "?as \<noteq> []" using ne assms(1) by auto
  have accs: "map wi_account (sb_plan sb) = take (sp_transaction_count p) ?as"
    using plan(2) by (simp add: sb take_map [symmetric] assms(1) min_def)
  have "set (map (\<lambda>a. cr_zk_pk cr (wa_secret_key a)) (take (sp_transaction_count p) ?as)) =
      set (map (\<lambda>i. wallet_public_key (cr_zk_pk cr) (wi_account i)) (sb_plan sb))"
    unfolding accs [symmetric] by (simp add: wallet_public_key_def image_image)
  moreover have "length (sb_plan sb) = sp_transaction_count p" using plan(2) len by (simp add: sb)
  ultimately have "start_capture cr t m (tx_inclusion_new (tw_txs_per_block w) (tw_user_limit w)) =
     Some (Ok ((tx_inclusion_new (tw_txs_per_block w) (tw_user_limit w))\<lparr>ti_capture_expected := Some (length (sb_plan sb))\<rparr>,
       Some (set (map (\<lambda>i. wallet_public_key (cr_zk_pk cr) (wi_account i)) (sb_plan sb)))))"
    using p plan(1) as by (simp add: start_capture_def build_capture_plan_def Let_def tx_inclusion_new_def)
  moreover have "tw_accounts w = sb_plan sb @ drop (sp_transaction_count p) (tw_accounts w)" by (simp add: sb)
  moreover have "sb_plan sb \<noteq> []" "sb_interval sb \<le> from_secs 1" using plan(1,3) ne by (simp_all add: sb)
  ultimately show ?thesis unfolding tx_expectations_def by blast
qed

text \<open>
  Submitting through the cluster succeeds exactly when some client accepts in one of
  the five rounds, whatever the shuffles, and without clients reports the exhausted cluster.
  Executing a plan submits the inputs in order, stops at the first one the cluster refuses and
  reports that refusal; it succeeds exactly when all were accepted, and pauses once after every
  accepted input.
\<close>

theorem tx_submission:
  assumes "\<And>k xs. set (shuffle k xs) = set xs"
  shows "(submit_transaction_via_cluster shuffle answer n = Ok () \<longleftrightarrow>
        (\<exists>a < 5. \<exists>c < n. is_ok (answer a c))) \<and>
    submit_transaction_via_cluster shuffle answer 0 = Err ''cluster client exhausted all nodes'' \<and>
    (\<forall>r accepted slept. execute submit i xs = (r, accepted, slept) \<longrightarrow>
       accepted = takeWhile (\<lambda>x. is_ok (submit x)) xs \<and> slept = length accepted * i \<and>
       (r = Ok () \<longleftrightarrow> accepted = xs) \<and>
       (\<forall>e. r = Err e \<longrightarrow> length accepted < length xs \<and> submit (xs ! length accepted) = Err e))"
proof (intro conjI allI impI)
  show "submit_transaction_via_cluster shuffle answer n = Ok () \<longleftrightarrow> (\<exists>a < 5. \<exists>c < n. is_ok (answer a c))"
    unfolding submit_transaction_via_cluster_def map_err_eq_Ok try_attempts_Ok [OF assms] assms
    by (simp add: submit_retries_def Bex_def)
  have nil: "shuffle k [] = []" for k using assms [of k "[]"] by simp
  have "try_attempts shuffle answer [] as None = Err None" for as by (induction as) (simp_all add: nil Let_def)
  then show "submit_transaction_via_cluster shuffle answer 0 = Err ''cluster client exhausted all nodes''"
    by (simp add: submit_transaction_via_cluster_def nil)
qed (use execute_spec in blast)+

theorem tx_submission_witness:
  "submit_transaction_via_cluster (\<lambda>_ xs. rev xs) (\<lambda>a c. if a = 2 \<and> c = 1 then Ok () else Err ''busy'') 3 = Ok () \<and>
   submit_transaction_via_cluster (\<lambda>_ xs. rev xs) (\<lambda>a c. if a = 7 then Ok () else Err ''busy'') 3 \<noteq> Ok ()"
  using tx_submission [of "\<lambda>_ xs. rev xs" "\<lambda>a c. if a = 2 \<and> c = 1 then Ok () else Err ''busy''" 3]
    tx_submission [of "\<lambda>_ xs. rev xs" "\<lambda>a c. if a = 7 then Ok () else Err ''busy''" 3]
  by (auto intro!: exI [of _ 2] exI [of _ 1])


definition demo_topology :: generated_topology where
  "demo_topology =
     \<lparr>gt_config = \<lparr>tc_n_nodes = 1, tc_consensus_params = demo_params, tc_network_params = network_params_default,
        tc_wallet_config = demo_wallet\<rparr>, gt_nodes = []\<rparr>"

definition demo_metrics :: run_metrics where
  "demo_metrics = \<lparr>rm_run_duration = from_secs 10, rm_expected_blocks = 5, rm_block_interval_hint = Some (from_secs 2)\<rparr>"

definition demo_tx_workload :: tx_workload where
  "demo_tx_workload = \<lparr>tw_txs_per_block = 1, tw_user_limit = Some 1,
     tw_accounts = [\<lparr>wi_account = hd (wc_accounts demo_wallet), wi_utxo = genesis_utxo \<lparr>note_value = 5, note_pk = 8\<rparr>\<rparr>]\<rparr>"

lemma demo_submission:
  "submission_new demo_tx_workload demo_metrics =
     Some (Ok \<lparr>sb_plan = tw_accounts demo_tx_workload, sb_interval = from_secs 1\<rparr>)"
proof -
  have r: "round64 (5 :: rat) = Fin 5" "round64 (1 :: rat) = Fin 1" "round64 (10 :: rat) = Fin 10"
    using round64_exact_nat [of 5] round64_exact_nat [of 1] round64_exact_nat [of 10] by simp_all
  have m: "round_half_even 10000000000 = 10000000000" using round_half_even_of_int [of 10000000000] by simp
  show ?thesis
    by (simp add: submission_new_def demo_tx_workload_def submission_plan_for_def Let_def demo_metrics_def
        as_secs_f64_whole r m f64_of_nat_def f64_clamp_def f64_u64_max_def max_submission_interval_def)
      (simp add: from_secs_def nanos_per_sec_def)
qed

theorem tx_plan_agreement_witness:
  "\<exists>sb ti. submission_new demo_tx_workload demo_metrics = Some (Ok sb) \<and>
     start_capture demo_crypto demo_topology demo_metrics ti =
       Some (Ok (ti\<lparr>ti_capture_expected := Some 1\<rparr>, Some {8}))"
proof -
  have "map wi_account (tw_accounts demo_tx_workload) =
      take (limited_user_count (tw_user_limit demo_tx_workload) (length (topology_wallet_accounts demo_topology)))
        (topology_wallet_accounts demo_topology)"
    by (simp add: demo_tx_workload_def demo_topology_def topology_wallet_accounts_def demo_wallet_def
        limited_user_count_def)
  from tx_plan_agreement [OF this demo_submission, of demo_crypto] demo_submission show ?thesis
    by (auto simp: demo_tx_workload_def demo_wallet_def wallet_public_key_def)
qed


end
