(* ===== verification/Chaos_Restart.thy ===== *)
theory Chaos_Restart
  imports State_Machine Duration_F64
begin

text \<open>
  The random restart workload (\<^verbatim>\<open>workflows/src/workloads/chaos.rs\<close>).  Instants are natural numbers
  of nanoseconds; every sleep lasts at least as long as asked and possibly longer.  Random draws,
  oversleeping, and the duration and outcome of each restart come from the surroundings, one record
  \<open>chaos_round\<close> per round of the endless loop; the loop itself is a state machine whose log are
  the restarts it has issued.
\<close>

datatype chaos_target = TargetNode nat

record random_restart_workload =
  rr_min_delay :: duration
  rr_max_delay :: duration
  rr_target_cooldown :: duration
  rr_include_nodes :: bool

definition random_restart_new :: "duration \<Rightarrow> duration \<Rightarrow> duration \<Rightarrow> bool \<Rightarrow> random_restart_workload" where
  "random_restart_new mn mx cd incl =
     \<lparr>rr_min_delay = mn, rr_max_delay = mx, rr_target_cooldown = cd, rr_include_nodes = incl\<rparr>"

definition chaos_targets :: "random_restart_workload \<Rightarrow> nat \<Rightarrow> chaos_target list" where
  "chaos_targets w node_count =
     (if rr_include_nodes w \<and> 1 < node_count then map TargetNode [0..<node_count] else [])"

text \<open>\<^verbatim>\<open>gen_range(0.0..=spread)\<close> is a draw that the surroundings choose within the range.\<close>

definition random_delay :: "random_restart_workload \<Rightarrow> (f64 \<Rightarrow> f64) \<Rightarrow> duration option" where
  "random_delay w draw =
     (if rr_max_delay w \<le> rr_min_delay w then Some (rr_min_delay w)
      else
        let spread = as_secs_f64 (case dur_checked_sub (rr_max_delay w) (rr_min_delay w) of
                                    None \<Rightarrow> from_millis 1 | Some d \<Rightarrow> d)
        in map_option (\<lambda>off. case dur_checked_add (rr_min_delay w) off of
                                None \<Rightarrow> rr_max_delay w | Some d \<Rightarrow> d)
             (from_secs_f64 (draw spread)))"

type_synonym cooldown_map = "chaos_target \<Rightarrow> nat option"

definition initialize_cooldowns :: "random_restart_workload \<Rightarrow> nat \<Rightarrow> chaos_target list \<Rightarrow> cooldown_map" where
  "initialize_cooldowns w now targets =
     (let ready = (if rr_target_cooldown w \<le> now then now - rr_target_cooldown w else now)
      in map_of (map (\<lambda>t. (t, ready)) targets))"

definition pending :: "chaos_target list \<Rightarrow> cooldown_map \<Rightarrow> nat \<Rightarrow> nat list" where
  "pending targets cooldowns now = filter (\<lambda>r. now < r) (List.map_filter cooldowns targets)"

text \<open>
  The loop of \<^verbatim>\<open>pick_target\<close>: while any cooldown lies in the future it sleeps until the earliest one
  and starts over.  All keys of the map are targets, so its values are read off the target list.
  The chosen position is reduced modulo the number of candidates, as a uniform draw would.
\<close>

function pick_target ::
  "chaos_target list \<Rightarrow> cooldown_map \<Rightarrow> (nat \<Rightarrow> nat) \<Rightarrow> nat \<Rightarrow> nat \<Rightarrow> nat \<Rightarrow> (string + chaos_target) \<times> nat" where
  "pick_target targets cooldowns oversleep choice k now =
     (if targets = [] then (Err ''chaos restart workload has no eligible targets'', now)
      else case pending targets cooldowns now of
        r # rs \<Rightarrow> pick_target targets cooldowns oversleep choice (Suc k) (Min (set (r # rs)) + oversleep k)
      | [] \<Rightarrow>
          (let available = filter (\<lambda>t. case cooldowns t of None \<Rightarrow> True | Some ready \<Rightarrow> ready \<le> now) targets
           in (if available \<noteq> [] then Ok (available ! (choice mod length available))
               else Ok (targets ! (choice mod length targets)), now)))"
  by auto
termination
proof (relation "measure (\<lambda>(ts, cd, _, _, _, now). length (pending ts cd now))", simp)
  fix targets cooldowns and oversleep :: "nat \<Rightarrow> nat" and choice k now :: nat and r rs
  assume pen: "pending targets cooldowns now = r # rs"
  define m where "m = Min (set (r # rs))"
  have m: "m \<in> set (pending targets cooldowns now)" unfolding pen m_def by (rule Min_in) simp_all
  then have later: "now < m" by (simp add: pending_def)
  let ?vs = "List.map_filter cooldowns targets"
  have "filter (\<lambda>r. m + oversleep k < r) ?vs = filter (\<lambda>r. m + oversleep k < r) (filter (\<lambda>r. now < r) ?vs)"
    unfolding filter_filter by (rule filter_cong) (use later in auto)
  moreover have "m \<in> set (filter (\<lambda>r. now < r) ?vs)" "\<not> m + oversleep k < m" using m by (simp_all add: pending_def)
  ultimately have "length (filter (\<lambda>r. m + oversleep k < r) ?vs) < length (filter (\<lambda>r. now < r) ?vs)"
    using length_filter_less by metis
  then show "((targets, cooldowns, oversleep, choice, Suc k, Min (set (r # rs)) + oversleep k),
      targets, cooldowns, oversleep, choice, k, now) \<in> measure (\<lambda>(ts, cd, _, _, _, now). length (pending ts cd now))"
    unfolding m_def [symmetric] by (simp add: pending_def)
qed

declare pick_target.simps [simp del]

record chaos_round =
  cr_draw :: "f64 \<Rightarrow> f64"
  cr_oversleep :: "nat \<Rightarrow> nat"
  cr_delay_extra :: nat
  cr_choice :: nat
  cr_restart_time :: nat
  cr_restart_result :: "string + unit"

record chaos_state =
  cs_now :: nat
  cs_cooldowns :: cooldown_map
  cs_restarts :: "(chaos_target \<times> nat) list"
  cs_result :: "string option"

definition chaos_init :: "random_restart_workload \<Rightarrow> nat \<Rightarrow> nat \<Rightarrow> bool \<Rightarrow> string + chaos_state" where
  "chaos_init w node_count now has_control =
     (if \<not> has_control then Err ''chaos restart workload requires node control''
      else let targets = chaos_targets w node_count in
        if targets = [] then Err ''chaos restart workload has no eligible targets''
        else Ok \<lparr>cs_now = now, cs_cooldowns = initialize_cooldowns w now targets, cs_restarts = [],
                 cs_result = None\<rparr>)"

text \<open>One round: a delay, a pick, a restart and the new cooldown.  \<open>cs_result\<close> ends the loop.\<close>

definition chaos_step :: "random_restart_workload \<Rightarrow> nat \<Rightarrow> chaos_round \<Rightarrow> chaos_state \<Rightarrow> chaos_state" where
  "chaos_step w node_count rd st =
     (if cs_result st \<noteq> None then st
      else case random_delay w (cr_draw rd) of
        None \<Rightarrow> st\<lparr>cs_result := Some ''panic''\<rparr>
      | Some delay \<Rightarrow>
          (let woke = cs_now st + delay + cr_delay_extra rd in
           case pick_target (chaos_targets w node_count) (cs_cooldowns st) (cr_oversleep rd) (cr_choice rd) 0 woke of
             (Inl e, now) \<Rightarrow> st\<lparr>cs_now := now, cs_result := Some e\<rparr>
           | (Inr target, now) \<Rightarrow>
               (let finished = now + cr_restart_time rd;
                    st' = st\<lparr>cs_now := finished, cs_restarts := cs_restarts st @ [(target, now)]\<rparr>
                in case cr_restart_result rd of
                     Inl e \<Rightarrow> st'\<lparr>cs_result := Some (''node restart failed: '' @ e)\<rparr>
                   | Inr _ \<Rightarrow> st'\<lparr>cs_cooldowns := (cs_cooldowns st)(target \<mapsto> finished + rr_target_cooldown w)\<rparr>)))"

section \<open>Facts\<close>

lemma pick_target_wait:
  assumes "targets \<noteq> []" "pending targets cooldowns now = r # rs"
  shows "pick_target targets cooldowns oversleep choice k now =
    pick_target targets cooldowns oversleep choice (Suc k) (Min (set (r # rs)) + oversleep k)"
  by (subst pick_target.simps) (simp only: assms list.case if_False)

lemma pick_target_ready:
  assumes "targets \<noteq> []" "pending targets cooldowns now = []"
  shows "(\<forall>t \<in> set targets. \<forall>ready. cooldowns t = Some ready \<longrightarrow> ready \<le> now)"
    "pick_target targets cooldowns oversleep choice k now = (Ok (targets ! (choice mod length targets)), now)"
proof -
  show all: "\<forall>t \<in> set targets. \<forall>ready. cooldowns t = Some ready \<longrightarrow> ready \<le> now"
    using assms(2) by (force simp: pending_def filter_empty_conv List.map_filter_def)
  then have "filter (\<lambda>t. case cooldowns t of None \<Rightarrow> True | Some ready \<Rightarrow> ready \<le> now) targets = targets"
    by (auto simp: filter_id_conv split: option.splits)
  then show "pick_target targets cooldowns oversleep choice k now = (Ok (targets ! (choice mod length targets)), now)"
    by (subst pick_target.simps) (simp add: assms)
qed

lemma pick_target_Ok:
  assumes "pick_target targets cooldowns oversleep choice k now = (r, now')" "targets \<noteq> []"
  shows "now \<le> now' \<and> (\<exists>t \<in> set targets. r = Ok t) \<and>
    (\<forall>t \<in> set targets. \<forall>ready. cooldowns t = Some ready \<longrightarrow> ready \<le> now')"
  using assms
proof (induction targets cooldowns oversleep choice k now rule: pick_target.induct)
  case (1 targets cooldowns oversleep choice k now)
  show ?case
  proof (cases "pending targets cooldowns now")
    case Nil
    note ready = pick_target_ready [OF "1.prems"(2) Nil]
    from ready(2) [of oversleep choice k] "1.prems" have "r = Ok (targets ! (choice mod length targets))" "now' = now"
      by simp_all
    with ready(1) "1.prems"(2) show ?thesis by simp
  next
    case (Cons x xs)
    have "Min (set (x # xs)) \<in> set (pending targets cooldowns now)" unfolding Cons by (rule Min_in) simp_all
    then have "now < Min (set (x # xs))" by (simp add: pending_def)
    moreover from "1.prems"(1) pick_target_wait [OF "1.prems"(2) Cons, of oversleep choice k]
    have "pick_target targets cooldowns oversleep choice (Suc k) (Min (set (x # xs)) + oversleep k) = (r, now')" by simp
    note "1.IH" [OF "1.prems"(2) Cons this "1.prems"(2)]
    ultimately show ?thesis by linarith
  qed
qed

lemma random_delay_lower: "random_delay w draw = Some d \<Longrightarrow> min (rr_min_delay w) (rr_max_delay w) \<le> d"
  by (auto simp: random_delay_def Let_def dur_checked_add_def split: if_splits option.splits)

text \<open>
  The state between rounds: restarts name nodes of the topology, consecutive restarts are at least
  a cooldown apart, and the cooldown map remembers the last one.
\<close>

fun spaced :: "nat \<Rightarrow> (chaos_target \<times> nat) list \<Rightarrow> bool" where
  "spaced gap [] = True"
| "spaced gap [x] = True"
| "spaced gap (x # y # zs) = (snd x + gap \<le> snd y \<and> spaced gap (y # zs))"

lemma spaced_snoc: "spaced gap (xs @ [y]) \<longleftrightarrow> spaced gap xs \<and> (xs = [] \<or> snd (last xs) + gap \<le> snd y)"
  by (induction gap xs rule: spaced.induct) auto

definition chaos_inv :: "random_restart_workload \<Rightarrow> nat \<Rightarrow> chaos_state \<Rightarrow> bool" where
  "chaos_inv w n st \<longleftrightarrow>
     chaos_targets w n \<noteq> [] \<and>
     (\<forall>(t, now) \<in> set (cs_restarts st). t \<in> set (chaos_targets w n)) \<and>
     spaced (rr_target_cooldown w) (cs_restarts st) \<and>
     (cs_result st = None \<and> cs_restarts st \<noteq> [] \<longrightarrow>
        (\<exists>ready. cs_cooldowns st (fst (last (cs_restarts st))) = Some ready \<and>
           snd (last (cs_restarts st)) + rr_target_cooldown w \<le> ready))"

lemma chaos_init_inv: "chaos_init w n now hc = Ok st \<Longrightarrow> chaos_inv w n st"
  by (auto simp: chaos_init_def chaos_inv_def Let_def split: if_splits)

lemma chaos_step_cases:
  assumes "cs_result st = None" "chaos_targets w n \<noteq> []"
  obtains (panic) "chaos_step w n rd st = st\<lparr>cs_result := Some ''panic''\<rparr>"
    | (failed) t now e where "chaos_step w n rd st =
        st\<lparr>cs_now := now + cr_restart_time rd, cs_restarts := cs_restarts st @ [(t, now)],
           cs_result := Some (''node restart failed: '' @ e)\<rparr>"
        "t \<in> set (chaos_targets w n)" "\<forall>u \<in> set (chaos_targets w n). \<forall>r. cs_cooldowns st u = Some r \<longrightarrow> r \<le> now"
    | (restarted) t now where "chaos_step w n rd st =
        st\<lparr>cs_now := now + cr_restart_time rd, cs_restarts := cs_restarts st @ [(t, now)],
           cs_cooldowns := (cs_cooldowns st)(t \<mapsto> now + cr_restart_time rd + rr_target_cooldown w)\<rparr>"
        "t \<in> set (chaos_targets w n)" "\<forall>u \<in> set (chaos_targets w n). \<forall>r. cs_cooldowns st u = Some r \<longrightarrow> r \<le> now"
proof (cases "random_delay w (cr_draw rd)")
  case None
  with assms panic show ?thesis by (simp add: chaos_step_def)
next
  case (Some delay)
  obtain r now where p: "pick_target (chaos_targets w n) (cs_cooldowns st) (cr_oversleep rd) (cr_choice rd) 0
      (cs_now st + delay + cr_delay_extra rd) = (r, now)" by (metis surj_pair)
  from pick_target_Ok [OF p assms(2)] obtain t where t: "r = Ok t" "t \<in> set (chaos_targets w n)"
    "\<forall>u \<in> set (chaos_targets w n). \<forall>r. cs_cooldowns st u = Some r \<longrightarrow> r \<le> now" by blast
  show ?thesis
  proof (cases "cr_restart_result rd")
    case (Inl e)
    with Some p t assms show ?thesis by (intro failed [where t = t and now = now and e = e]) (simp_all add: chaos_step_def Let_def)
  next
    case (Inr u)
    with Some p t assms show ?thesis by (intro restarted [where t = t and now = now]) (simp_all add: chaos_step_def Let_def)
  qed
qed

lemma chaos_step_inv:
  assumes "chaos_inv w n st"
  shows "chaos_inv w n (chaos_step w n rd st)"
proof (cases "cs_result st")
  case (Some e)
  with assms show ?thesis by (simp add: chaos_step_def)
next
  case None
  have ne: "chaos_targets w n \<noteq> []" using assms by (simp add: chaos_inv_def)
  have gap: "cs_restarts st = [] \<or> snd (last (cs_restarts st)) + rr_target_cooldown w \<le> now"
    if "\<forall>u \<in> set (chaos_targets w n). \<forall>r. cs_cooldowns st u = Some r \<longrightarrow> r \<le> now" for now
  proof (cases "cs_restarts st = []")
    case False
    with assms None obtain ready where r: "cs_cooldowns st (fst (last (cs_restarts st))) = Some ready"
      "snd (last (cs_restarts st)) + rr_target_cooldown w \<le> ready" by (auto simp: chaos_inv_def)
    have "fst (last (cs_restarts st)) \<in> set (chaos_targets w n)"
      using assms last_in_set [OF False] by (auto simp: chaos_inv_def)
    with that r show ?thesis by fastforce
  qed simp
  from None ne show ?thesis
  proof (cases rule: chaos_step_cases [of st w n rd])
    case panic
    with assms show ?thesis by (simp add: chaos_inv_def)
  next
    case (failed t now e)
    with assms gap [OF failed(3)] show ?thesis by (auto simp: chaos_inv_def spaced_snoc)
  next
    case (restarted t now)
    with assms gap [OF restarted(3)] show ?thesis by (auto simp: chaos_inv_def spaced_snoc)
  qed
qed

lemma chaos_step_log: "\<exists>new. cs_restarts (chaos_step w n rd st) = cs_restarts st @ new"
  by (auto simp: chaos_step_def Let_def split: option.splits prod.splits sum.splits)

interpretation chaos: log_machine "chaos_step w n" "\<lambda>_. True" "chaos_inv w n" cs_restarts for w n
  by unfold_locales (auto intro: chaos_step_inv chaos_step_log)

lemma spaced_Suc: "spaced gap xs \<Longrightarrow> Suc j < length xs \<Longrightarrow> snd (xs ! j) + gap \<le> snd (xs ! Suc j)"
  by (induction gap xs arbitrary: j rule: spaced.induct) (auto simp: nth_Cons split: nat.splits)

lemma spaced_nth: "spaced gap xs \<Longrightarrow> i < j \<Longrightarrow> j < length xs \<Longrightarrow> snd (xs ! i) + gap \<le> snd (xs ! j)"
proof (induction j)
  case (Suc j)
  have step: "snd (xs ! j) + gap \<le> snd (xs ! Suc j)"
    using Suc.prems by (intro spaced_Suc)
  show ?case
  proof (cases "i = j")
    case False
    with Suc have "snd (xs ! i) + gap \<le> snd (xs ! j)" by simp
    with step show ?thesis by linarith
  qed (use step in simp)
qed simp

section \<open>Properties\<close>

text \<open>
  Property C31.  Over any number of rounds, whatever the random draws, oversleeping and restart times,
  the chaos workload only restarts nodes of a topology with at least two nodes, and any two of its
  restarts, also of different nodes, are at least the target cooldown apart, because it waits until
  no cooldown at all is pending.  A failed restart ends the workload; earlier restarts stay on
  record.
\<close>

theorem chaos_restart_spacing:
  assumes "chaos_init w n now has_control = Ok st"
  shows "let log = cs_restarts (fold (chaos_step w n) rounds st) in
    1 < n \<and> (\<forall>(t, time) \<in> set log. \<exists>i < n. t = TargetNode i) \<and>
    (\<forall>j < length log. \<forall>i < j. snd (log ! i) + rr_target_cooldown w \<le> snd (log ! j)) \<and>
    (\<exists>new. cs_restarts (fold (chaos_step w n) (rounds @ later) st) = log @ new)"
proof -
  have "list_all (\<lambda>_. True) rounds" by (simp add: list_all_iff)
  from chaos.run_inv [OF chaos_init_inv [OF assms] this] have inv: "chaos_inv w n (fold (chaos_step w n) rounds st)" .
  then have n: "1 < n" by (auto simp: chaos_inv_def chaos_targets_def split: if_splits)
  with inv have "\<forall>(t, time) \<in> set (cs_restarts (fold (chaos_step w n) rounds st)). \<exists>i < n. t = TargetNode i"
    by (fastforce simp: chaos_inv_def chaos_targets_def split: if_splits)
  moreover have "spaced (rr_target_cooldown w) (cs_restarts (fold (chaos_step w n) rounds st))"
    using inv by (simp add: chaos_inv_def)
  moreover have "\<exists>new. cs_restarts (fold (chaos_step w n) (rounds @ later) st) =
      cs_restarts (fold (chaos_step w n) rounds st) @ new"
    using chaos.run_log [of w n later "fold (chaos_step w n) rounds st"] by simp
  ultimately show ?thesis using n spaced_nth by (auto simp: Let_def)
qed

definition demo_chaos :: random_restart_workload where
  "demo_chaos = random_restart_new (from_secs 1) (from_secs 1) (from_secs 30) True"

definition demo_round :: "nat \<Rightarrow> chaos_round" where
  "demo_round c = \<lparr>cr_draw = (\<lambda>x. x), cr_oversleep = (\<lambda>_. 0), cr_delay_extra = 0, cr_choice = c,
     cr_restart_time = 0, cr_restart_result = Ok ()\<rparr>"

lemma demo_chaos_log:
  "map_sum (\<lambda>e. e) (\<lambda>st. cs_restarts (fold (chaos_step demo_chaos 2) [demo_round 0, demo_round 1] st))
     (chaos_init demo_chaos 2 0 True) = Ok [(TargetNode 0, from_secs 1), (TargetNode 1, from_secs 31)]"
  by (simp add: chaos_init_def chaos_step_def chaos_targets_def demo_chaos_def random_restart_new_def Let_def
      demo_round_def random_delay_def initialize_cooldowns_def pick_target.simps pending_def List.map_filter_def
      from_secs_def upt_rec numeral_2_eq_2)

theorem chaos_restart_spacing_witness:
  "\<exists>st. chaos_init demo_chaos 2 0 True = Ok st \<and>
     (let log = cs_restarts (fold (chaos_step demo_chaos 2) [demo_round 0, demo_round 1] st) in
       length log = 2 \<and> snd (log ! 0) + from_secs 30 \<le> snd (log ! 1))"
proof -
  from demo_chaos_log obtain st where st: "chaos_init demo_chaos 2 0 True = Ok st"
    and log: "cs_restarts (fold (chaos_step demo_chaos 2) [demo_round 0, demo_round 1] st) =
      [(TargetNode 0, from_secs 1), (TargetNode 1, from_secs 31)]"
    by (cases "chaos_init demo_chaos 2 0 True") simp_all
  note log_facts = chaos_restart_spacing [OF st, of "[demo_round 0, demo_round 1]" "[]", unfolded Let_def log]
  have "rr_target_cooldown demo_chaos = from_secs 30" by (simp add: demo_chaos_def random_restart_new_def)
  with log_facts have "\<forall>j < 2. \<forall>i < j. snd ([(TargetNode 0, from_secs 1), (TargetNode 1, from_secs 31)] ! i) + from_secs 30
      \<le> snd ([(TargetNode 0, from_secs 1), (TargetNode 1, from_secs 31)] ! j)"
    by (simp add: numeral_2_eq_2)
  from this [rule_format, of 1 0]
  have "snd ([(TargetNode 0, from_secs 1), (TargetNode 1, from_secs 31)] ! 0) + from_secs 30
      \<le> snd ([(TargetNode 0, from_secs 1), (TargetNode 1, from_secs 31)] ! 1)" by simp
  with st log show ?thesis unfolding Let_def by (intro exI [of _ st] conjI) (simp_all only: log, simp_all)
qed

end
