(* ===== verification/Scenario.thy ===== *)
theory Scenario
  imports Tx_Workload Chaos_Restart Consensus_Liveness
begin

text \<open>
  The scenario definition (\<^verbatim>\<open>core/src/scenario/definition.rs\<close>): the builder, its topology configurator
  and the construction of a scenario, which seeds wallets, builds the topology, enforces a minimum
  duration and initialises workloads and expectations.

  The trait objects \<^verbatim>\<open>dyn Workload\<close> and \<^verbatim>\<open>dyn Expectation\<close> are datatypes with the implementations of
  the framework and one constructor for implementations of its users, which carries what the trait
  methods answer.  The capability type parameter is a type variable.
\<close>

section \<open>Workloads and expectations\<close>

record custom_expectation =
  ce_name :: string
  ce_init :: "generated_topology \<Rightarrow> run_metrics \<Rightarrow> string + unit"

datatype expectation =
  TxInclusion tx_inclusion
| LivenessExpectation consensus_liveness
| CustomExpectation custom_expectation

record custom_workload =
  cw_name :: string
  cw_expectations :: "expectation list"
  cw_init :: "generated_topology \<Rightarrow> run_metrics \<Rightarrow> string + unit"

datatype workload =
  TxWorkload tx_workload
| RestartWorkload random_restart_workload
| CustomWorkload custom_workload

fun workload_name :: "workload \<Rightarrow> string" where
  "workload_name (TxWorkload w) = ''tx_workload''"
| "workload_name (RestartWorkload w) = ''chaos_restart''"
| "workload_name (CustomWorkload c) = cw_name c"

fun workload_expectations :: "workload \<Rightarrow> expectation list" where
  "workload_expectations (TxWorkload w) = map TxInclusion (tx_expectations w)"
| "workload_expectations (RestartWorkload w) = []"
| "workload_expectations (CustomWorkload c) = cw_expectations c"

fun workload_init :: "crypto \<Rightarrow> generated_topology \<Rightarrow> run_metrics \<Rightarrow> workload \<Rightarrow> string + workload" where
  "workload_init cr t m (TxWorkload w) = and_then (tx_init cr t w) (\<lambda>w'. Ok (TxWorkload w'))"
| "workload_init cr t m (RestartWorkload w) = Ok (RestartWorkload w)"
| "workload_init cr t m (CustomWorkload c) = and_then (cw_init c t m) (\<lambda>_. Ok (CustomWorkload c))"

fun expectation_name :: "expectation \<Rightarrow> string" where
  "expectation_name (TxInclusion e) = ''tx_inclusion_expectation''"
| "expectation_name (LivenessExpectation e) = ''consensus_liveness''"
| "expectation_name (CustomExpectation c) = ce_name c"

fun expectation_init :: "generated_topology \<Rightarrow> run_metrics \<Rightarrow> expectation \<Rightarrow> string + expectation" where
  "expectation_init t m (CustomExpectation c) = and_then (ce_init c t m) (\<lambda>_. Ok (CustomExpectation c))"
| "expectation_init t m e = Ok e"

section \<open>Builder\<close>

datatype scenario_build_error =
  ScTopology topology_build_error
| WalletUsersZero nat
| WalletFundsOverflow nat nat
| WorkloadInit string string
| ExpectationInit string string

record 'c scenario =
  sc_topology :: generated_topology
  sc_workloads :: "workload list"
  sc_expectations :: "expectation list"
  sc_duration :: duration
  sc_capabilities :: 'c

record 'c scenario_builder =
  scb_topology :: topology_builder
  scb_workloads :: "workload list"
  scb_expectations :: "expectation list"
  scb_duration :: duration
  scb_wallet_users :: "nat option"
  scb_capabilities :: 'c

record 'c topology_configurator =
  tcf_builder :: "'c scenario_builder"
  tcf_nodes :: nat
  tcf_network_star :: bool

definition default_funds_per_wallet :: nat where "default_funds_per_wallet = 100"
definition min_expectation_blocks :: nat where "min_expectation_blocks = 2"
definition min_expectation_fallback_secs :: nat where "min_expectation_fallback_secs = 10"

definition scenario_builder_new :: "'c \<Rightarrow> topology_builder \<Rightarrow> 'c scenario_builder" where
  "scenario_builder_new caps t =
     \<lparr>scb_topology = t, scb_workloads = [], scb_expectations = [], scb_duration = 0,
      scb_wallet_users = None, scb_capabilities = caps\<rparr>"

definition with_node_counts :: "env \<Rightarrow> 'c \<Rightarrow> nat \<Rightarrow> 'c scenario_builder" where
  "with_node_counts ev caps nodes = scenario_builder_new caps (topology_builder_new (with_node_numbers ev nodes))"

definition configurator_new :: "'c scenario_builder \<Rightarrow> 'c topology_configurator" where
  "configurator_new b = \<lparr>tcf_builder = b, tcf_nodes = 0, tcf_network_star = False\<rparr>"

definition scenario_topology :: "env \<Rightarrow> 'c \<Rightarrow> 'c topology_configurator" where
  "scenario_topology ev caps = configurator_new (scenario_builder_new caps (topology_builder_new (topology_config_empty ev)))"

definition configurator_nodes :: "nat \<Rightarrow> 'c topology_configurator \<Rightarrow> 'c topology_configurator" where
  "configurator_nodes n c = c\<lparr>tcf_nodes := n\<rparr>"

definition network_star :: "'c topology_configurator \<Rightarrow> 'c topology_configurator" where
  "network_star c = c\<lparr>tcf_network_star := True\<rparr>"

definition configurator_apply :: "env \<Rightarrow> 'c topology_configurator \<Rightarrow> 'c scenario_builder" where
  "configurator_apply ev c =
     (let config = with_node_numbers ev (tcf_nodes c);
          config' = (if tcf_network_star c
                     then config\<lparr>tc_network_params := (tc_network_params config)\<lparr>np_layout := Star\<rparr>\<rparr> else config)
      in (tcf_builder c)\<lparr>scb_topology := topology_builder_new config'\<rparr>)"

definition topology_with ::
  "env \<Rightarrow> 'c \<Rightarrow> ('c topology_configurator \<Rightarrow> 'c topology_configurator) \<Rightarrow> 'c scenario_builder" where
  "topology_with ev caps f = configurator_apply ev (f (scenario_topology ev caps))"

definition with_capabilities :: "'d \<Rightarrow> 'c scenario_builder \<Rightarrow> 'd scenario_builder" where
  "with_capabilities caps b =
     \<lparr>scb_topology = scb_topology b, scb_workloads = scb_workloads b, scb_expectations = scb_expectations b,
      scb_duration = scb_duration b, scb_wallet_users = scb_wallet_users b, scb_capabilities = caps\<rparr>"

definition with_workload :: "workload \<Rightarrow> 'c scenario_builder \<Rightarrow> 'c scenario_builder" where
  "with_workload w b =
     b\<lparr>scb_expectations := scb_expectations b @ workload_expectations w, scb_workloads := scb_workloads b @ [w]\<rparr>"

definition with_expectation :: "expectation \<Rightarrow> 'c scenario_builder \<Rightarrow> 'c scenario_builder" where
  "with_expectation e b = b\<lparr>scb_expectations := scb_expectations b @ [e]\<rparr>"

definition with_run_duration :: "duration \<Rightarrow> 'c scenario_builder \<Rightarrow> 'c scenario_builder" where
  "with_run_duration d b = b\<lparr>scb_duration := d\<rparr>"

definition map_topology :: "(topology_builder \<Rightarrow> topology_builder) \<Rightarrow> 'c scenario_builder \<Rightarrow> 'c scenario_builder" where
  "map_topology f b = b\<lparr>scb_topology := f (scb_topology b)\<rparr>"

definition scenario_with_wallet_config :: "wallet_config \<Rightarrow> 'c scenario_builder \<Rightarrow> 'c scenario_builder" where
  "scenario_with_wallet_config w b =
     b\<lparr>scb_topology := with_wallet_config w (scb_topology b), scb_wallet_users := None\<rparr>"

definition wallets :: "nat \<Rightarrow> 'c scenario_builder \<Rightarrow> 'c scenario_builder" where
  "wallets users b = b\<lparr>scb_wallet_users := Some users\<rparr>"

datatype node_control_capability = NodeControlCapability

definition enable_node_control :: "unit scenario_builder \<Rightarrow> node_control_capability scenario_builder" where
  "enable_node_control b = with_capabilities NodeControlCapability b"

section \<open>Building a scenario\<close>

definition initialize_workloads ::
  "crypto \<Rightarrow> generated_topology \<Rightarrow> run_metrics \<Rightarrow> workload list \<Rightarrow> scenario_build_error + workload list" where
  "initialize_workloads cr t m ws =
     collect_results (\<lambda>w. map_err (WorkloadInit (workload_name w)) (workload_init cr t m w)) ws"

definition initialize_expectations ::
  "generated_topology \<Rightarrow> run_metrics \<Rightarrow> expectation list \<Rightarrow> scenario_build_error + expectation list" where
  "initialize_expectations t m es =
     collect_results (\<lambda>e. map_err (ExpectationInit (expectation_name e)) (expectation_init t m e)) es"

definition initialize_components ::
  "crypto \<Rightarrow> generated_topology \<Rightarrow> run_metrics \<Rightarrow> workload list \<Rightarrow> expectation list \<Rightarrow>
   scenario_build_error + (workload list \<times> expectation list)" where
  "initialize_components cr t m ws es =
     and_then (initialize_workloads cr t m ws) (\<lambda>ws'.
     and_then (initialize_expectations t m es) (\<lambda>es'. Ok (ws', es')))"

text \<open>\<^verbatim>\<open>slot * MIN_EXPECTATION_BLOCKS\<close> panics on overflow.\<close>

definition enforce_min_duration :: "generated_topology \<Rightarrow> duration \<Rightarrow> duration option" where
  "enforce_min_duration t requested =
     map_option (\<lambda>least. max requested least)
       (case slot_duration t of
          None \<Rightarrow> Some (from_secs min_expectation_fallback_secs)
        | Some slot \<Rightarrow> dur_mul slot min_expectation_blocks)"

text \<open>The wallet seeding of \<^verbatim>\<open>build\<close>; \<open>None\<close> is the panic of \<^verbatim>\<open>WalletConfig::uniform\<close>.\<close>

definition seed_wallets ::
  "(nat \<Rightarrow> zk_key) \<Rightarrow> nat option \<Rightarrow> topology_builder \<Rightarrow> (scenario_build_error + topology_builder) option" where
  "seed_wallets zk_from wallet_users t =
     (case wallet_users of
        None \<Rightarrow> Some (Ok t)
      | Some users \<Rightarrow>
          if users = 0 then Some (Err (WalletUsersZero users))
          else if u64_max < default_funds_per_wallet * users then
            Some (Err (WalletFundsOverflow users default_funds_per_wallet))
          else map_option (\<lambda>w. Ok (with_wallet_config w t)) (uniform zk_from (default_funds_per_wallet * users) users))"

definition scenario_build ::
  "deps \<Rightarrow> env \<Rightarrow> 'c scenario_builder \<Rightarrow> os \<Rightarrow> (scenario_build_error + 'c scenario) option \<times> os" where
  "scenario_build d ev b s =
     (case seed_wallets (cr_zk_from (dp_crypto d)) (scb_wallet_users b) (scb_topology b) of
        None \<Rightarrow> (None, s)
      | Some (Inl e) \<Rightarrow> (Some (Err e), s)
      | Some (Inr topology) \<Rightarrow>
          (case build d ev topology s of
             (Inl e, s') \<Rightarrow> (Some (Err (ScTopology e)), s')
           | (Inr generated, s') \<Rightarrow>
               (case enforce_min_duration generated (scb_duration b) of
                  None \<Rightarrow> (None, s')
                | Some duration \<Rightarrow>
                    (case from_topology generated duration of
                       None \<Rightarrow> (None, s')
                     | Some metrics \<Rightarrow>
                         (Some (and_then (initialize_components (dp_crypto d) generated metrics
                                            (scb_workloads b) (scb_expectations b)) (\<lambda>(ws, es).
                            Ok \<lparr>sc_topology = generated, sc_workloads = ws, sc_expectations = es,
                                sc_duration = duration, sc_capabilities = scb_capabilities b\<rparr>)), s')))))"

section \<open>Facts\<close>

lemma seed_wallets_cases:
  "seed_wallets zk_from wu t =
     (case wu of
        None \<Rightarrow> Some (Ok t)
      | Some users \<Rightarrow>
          if users = 0 then Some (Err (WalletUsersZero 0))
          else if u64_max < 100 * users then Some (Err (WalletFundsOverflow users 100))
          else Some (Ok (with_wallet_config
                 \<lparr>wc_accounts = map (\<lambda>i. account_for zk_from i 100) [0..<users]\<rparr> t)))"
  by (auto simp: seed_wallets_def default_funds_per_wallet_def uniform_accounts share_def split: option.splits)

lemma seed_wallets_Some: "\<exists>r. seed_wallets zk_from wu t = Some r"
  by (auto simp: seed_wallets_cases split: option.splits)

lemma expectation_init_same: "expectation_init t m e = Ok e' \<Longrightarrow> e' = e"
  by (cases e) (auto simp: result_iffs)

lemma initialize_expectations_same: "initialize_expectations t m es = Ok es' \<Longrightarrow> es' = es"
  unfolding initialize_expectations_def
  by (induction es arbitrary: es') (auto simp: result_iffs dest: expectation_init_same)

lemma collect_results_first_error:
  assumes "collect_results f xs = Err e"
  obtains i where "i < length xs" "f (xs ! i) = Err e" "\<forall>j < i. is_ok (f (xs ! j))"
  using assms
proof (induction xs arbitrary: thesis)
  case (Cons x xs)
  show ?case
  proof (cases "f x")
    case (Inl a)
    with Cons.prems show ?thesis by (intro Cons.prems(1) [of 0]) simp_all
  next
    case (Inr b)
    with Cons.prems(2) have "collect_results f xs = Err e" by (simp add: result_iffs)
    with Cons.IH obtain i where "i < length xs" "f (xs ! i) = Err e" "\<forall>j < i. is_ok (f (xs ! j))" by blast
    with Inr show ?thesis by (intro Cons.prems(1) [of "Suc i"]) (auto simp: nth_Cons split: nat.splits)
  qed
qed simp

lemma mul_f64_shrinks:
  assumes "d < from_secs n" "n < 2 ^ 53" "0 \<le> x" "x \<le> 1"
  shows "\<exists>r. mul_f64 d (Fin x) = Some r"
proof -
  have "from_secs n < from_secs (2 ^ 53)" using assms(2) by (simp add: from_secs_def nanos_per_sec_def)
  from as_secs_f64_mono [OF less_imp_le [OF assms(1)] this] assms(2)
  obtain y where y: "as_secs_f64 d = Fin y" "0 \<le> y" "y \<le> of_nat n"
    by (auto simp: as_secs_f64_whole elim: nonneg_cases)
  have "x * y \<le> of_nat n" using mult_mono [OF assms(4) y(3)] assms(3) y(2) by simp
  moreover have "0 \<le> x * y" using assms(3) y(2) by simp
  ultimately have "f64_le (round64 (x * y)) (Fin (of_nat n))" "nonneg (round64 (x * y))"
    using round64_mono [of "x * y" "of_nat n"] round64_exact_nat [OF assms(2)] by simp_all
  then obtain z where z: "round64 (x * y) = Fin z" "0 \<le> z" "z \<le> of_nat n" by (auto elim: nonneg_cases)
  have "(of_nat n :: rat) < of_nat (2 ^ 64)" unfolding of_nat_less_iff using assms(2) by simp
  with z show ?thesis by (simp add: mul_f64_def y(1))
qed

lemma f64_clamp_unit: "c \<noteq> NaN \<Longrightarrow> \<exists>x. f64_clamp (Fin 0) (Fin 1) c = Fin x \<and> 0 \<le> x \<and> x \<le> 1"
proof (cases c)
  case (Fin y)
  consider "y < 0" | "0 \<le> y" "y \<le> 1" | "1 < y" by linarith
  with Fin show ?thesis by cases (simp_all add: f64_clamp_def)
qed (simp_all add: f64_clamp_def)

lemma from_topology_defined:
  assumes "slot_duration t = Some sd" "sd < from_secs n" "n < 2 ^ 53"
    and "cp_active_slot_coeff (tc_consensus_params (gt_config t)) \<noteq> NaN"
  shows "\<exists>m. from_topology t run = Some m"
proof -
  obtain x where x: "f64_clamp (Fin 0) (Fin 1) (cp_active_slot_coeff (tc_consensus_params (gt_config t))) = Fin x" "0 \<le> x" "x \<le> 1"
    using f64_clamp_unit [OF assms(4)] by blast
  from mul_f64_shrinks [OF assms(2,3) x(2,3)] x(1) assms(1) show ?thesis by (auto simp: from_topology_def Let_def)
qed

text \<open>The first item of a list whose initialisation fails, under its name.\<close>

definition first_failure :: "('a \<Rightarrow> string + 'b) \<Rightarrow> ('a \<Rightarrow> string) \<Rightarrow> 'a list \<Rightarrow> string \<Rightarrow> string \<Rightarrow> bool" where
  "first_failure init name_of xs name e \<longleftrightarrow>
     (\<exists>i < length xs. name = name_of (xs ! i) \<and> init (xs ! i) = Err e \<and> (\<forall>j < i. is_ok (init (xs ! j))))"

lemma initialize_errors:
  "initialize_workloads cr t m ws = Err (WorkloadInit name e) \<Longrightarrow> first_failure (workload_init cr t m) workload_name ws name e"
  "initialize_workloads cr t m ws \<noteq> Err (ExpectationInit name e)"
  "initialize_expectations t m es = Err (ExpectationInit name e) \<Longrightarrow> first_failure (expectation_init t m) expectation_name es name e"
  "initialize_expectations t m es \<noteq> Err (WorkloadInit name e)"
  unfolding initialize_workloads_def initialize_expectations_def first_failure_def
  by (auto elim!: collect_results_first_error simp: map_err_eq_Err)

text \<open>What a successful build went through.\<close>

lemma scenario_build_Ok:
  assumes "scenario_build d ev b s = (Some (Ok sc), s')"
  obtains tb m where
    "seed_wallets (cr_zk_from (dp_crypto d)) (scb_wallet_users b) (scb_topology b) = Some (Ok tb)"
    "build d ev tb s = (Ok (sc_topology sc), s')"
    "enforce_min_duration (sc_topology sc) (scb_duration b) = Some (sc_duration sc)"
    "from_topology (sc_topology sc) (sc_duration sc) = Some m"
    "initialize_workloads (dp_crypto d) (sc_topology sc) m (scb_workloads b) = Ok (sc_workloads sc)"
    "sc_expectations sc = scb_expectations b" "sc_capabilities sc = scb_capabilities b"
  using assms initialize_expectations_same
  by (auto simp: scenario_build_def initialize_components_def result_iffs split: option.splits sum.splits prod.splits)

section \<open>Properties\<close>

text \<open>
  Property C32.  A scenario that is built has the topology of its builder, with one account of exactly
  100 tokens for every requested wallet user if a number of users was set; it runs for the requested
  duration but never less than two slots; its workloads are the builder's, in order, each as its own
  initialisation returned it for that topology and the metrics of the final duration; its
  expectations and capabilities are the builder's, unchanged and in order.
\<close>

theorem scenario_build_sound:
  assumes "scenario_build d ev b s = (Some (Ok sc), s')"
  shows "\<exists>m sd. from_topology (sc_topology sc) (sc_duration sc) = Some m \<and>
    slot_duration (sc_topology sc) = Some sd \<and> sc_duration sc = max (scb_duration b) (2 * sd) \<and>
    length (sc_workloads sc) = length (scb_workloads b) \<and>
    (\<forall>i < length (scb_workloads b).
       workload_init (dp_crypto d) (sc_topology sc) m (scb_workloads b ! i) = Ok (sc_workloads sc ! i)) \<and>
    sc_expectations sc = scb_expectations b \<and> sc_capabilities sc = scb_capabilities b \<and>
    tc_n_nodes (gt_config (sc_topology sc)) = tc_n_nodes (tb_config (scb_topology b)) \<and>
    (case scb_wallet_users b of
       None \<Rightarrow> topology_wallet_accounts (sc_topology sc) = wc_accounts (tc_wallet_config (tb_config (scb_topology b)))
     | Some users \<Rightarrow> 0 < users \<and> 100 * users \<le> u64_max \<and>
         map wa_value (topology_wallet_accounts (sc_topology sc)) = replicate users 100 \<and>
         map wa_label (topology_wallet_accounts (sc_topology sc)) = map (\<lambda>i. ''wallet-user-'' @ show_nat i) [0..<users])"
  using assms
proof (rule scenario_build_Ok)
  fix tb m
  assume seed: "seed_wallets (cr_zk_from (dp_crypto d)) (scb_wallet_users b) (scb_topology b) = Some (Ok tb)"
    and built: "build d ev tb s = (Ok (sc_topology sc), s')"
    and dur: "enforce_min_duration (sc_topology sc) (scb_duration b) = Some (sc_duration sc)"
    and m: "from_topology (sc_topology sc) (sc_duration sc) = Some m"
    and ws: "initialize_workloads (dp_crypto d) (sc_topology sc) m (scb_workloads b) = Ok (sc_workloads sc)"
    and rest: "sc_expectations sc = scb_expectations b" "sc_capabilities sc = scb_capabilities b"
  obtain sd where sd: "slot_duration (sc_topology sc) = Some sd" and cfg: "gt_config (sc_topology sc) = tb_config tb"
    using build_slot_duration [OF built] by blast
  have acc: "topology_wallet_accounts (sc_topology sc) = wc_accounts (tc_wallet_config (tb_config tb))"
    by (simp add: topology_wallet_accounts_def cfg)
  have d: "sc_duration sc = max (scb_duration b) (2 * sd)"
    using dur sd by (auto simp: enforce_min_duration_def dur_mul_def min_expectation_blocks_def mult.commute split: if_splits)
  have len: "length (sc_workloads sc) = length (scb_workloads b)"
    using ws unfolding initialize_workloads_def by (rule collect_results_length)
  have init: "workload_init (dp_crypto d) (sc_topology sc) m (scb_workloads b ! i) = Ok (sc_workloads sc ! i)"
    if "i < length (scb_workloads b)" for i
    using collect_results_nth [OF ws [unfolded initialize_workloads_def] that] by (simp add: map_err_eq_Ok)
  have wallets: "tc_n_nodes (tb_config tb) = tc_n_nodes (tb_config (scb_topology b)) \<and>
    (case scb_wallet_users b of
       None \<Rightarrow> wc_accounts (tc_wallet_config (tb_config tb)) = wc_accounts (tc_wallet_config (tb_config (scb_topology b)))
     | Some users \<Rightarrow> 0 < users \<and> 100 * users \<le> u64_max \<and>
         map wa_value (wc_accounts (tc_wallet_config (tb_config tb))) = replicate users 100 \<and>
         map wa_label (wc_accounts (tc_wallet_config (tb_config tb))) = map (\<lambda>i. ''wallet-user-'' @ show_nat i) [0..<users])"
    using seed by (auto simp: seed_wallets_cases with_wallet_config_def account_for_def comp_def map_replicate_const
        split: option.splits if_splits)
  show ?thesis
    using m sd d len init rest wallets [folded acc] cfg by (intro exI [of _ m] exI [of _ sd]) simp
qed

definition demo_scenario :: "node_control_capability scenario_builder" where
  "demo_scenario = wallets 2 (with_workload (RestartWorkload demo_chaos)
     (with_run_duration (from_secs 1) (scenario_builder_new NodeControlCapability demo_builder)))"

lemma demo_scenario_sel [simp]:
  "scb_topology demo_scenario = demo_builder" "scb_workloads demo_scenario = [RestartWorkload demo_chaos]"
  "scb_expectations demo_scenario = []" "scb_duration demo_scenario = from_secs 1" "scb_wallet_users demo_scenario = Some 2"
  by (simp_all add: demo_scenario_def wallets_def with_workload_def with_run_duration_def scenario_builder_new_def)

text \<open>Outside wallets and topology, a scenario is built when slot and coefficient are ordinary numbers.\<close>

lemma scenario_build_defined:
  assumes seed: "seed_wallets (cr_zk_from (dp_crypto d)) (scb_wallet_users b) (scb_topology b) = Some (Ok tb)"
    and built: "build d ev tb s = (Ok t, s')"
    and slot: "gt_slot_duration (default_time_config ev s') < from_secs n" "n < 2 ^ 53"
    and coeff: "cp_active_slot_coeff (tc_consensus_params (tb_config tb)) \<noteq> NaN"
  obtains m dur where "from_topology t dur = Some m"
    "scenario_build d ev b s = (Some (and_then (initialize_components (dp_crypto d) t m (scb_workloads b) (scb_expectations b))
       (\<lambda>(ws, es). Ok \<lparr>sc_topology = t, sc_workloads = ws, sc_expectations = es, sc_duration = dur,
                       sc_capabilities = scb_capabilities b\<rparr>)), s')"
proof -
  let ?sd = "gt_slot_duration (default_time_config ev s')"
  have t: "gt_config t = tb_config tb" "slot_duration t = Some ?sd" using build_slot_duration [OF built] by simp_all
  have "?sd * 2 \<le> dur_max" using slot by (simp add: from_secs_def dur_max_def nanos_per_sec_def)
  then have dur: "enforce_min_duration t (scb_duration b) = Some (max (scb_duration b) (?sd * 2))"
    by (simp add: enforce_min_duration_def t(2) dur_mul_def min_expectation_blocks_def)
  obtain m where "from_topology t (max (scb_duration b) (?sd * 2)) = Some m"
    using from_topology_defined [OF t(2) slot] coeff t(1) by auto
  with that dur seed built show thesis by (simp add: scenario_build_def)
qed

theorem scenario_build_sound_witness:
  "\<exists>sc s'. scenario_build demo_deps Map.empty demo_scenario demo_os = (Some (Ok sc), s') \<and>
     sc_duration sc = from_secs 4 \<and> map wa_value (topology_wallet_accounts (sc_topology sc)) = [100, 100]"
proof -
  obtain tb where tb: "seed_wallets (cr_zk_from (dp_crypto demo_deps)) (scb_wallet_users demo_scenario) (scb_topology demo_scenario) = Some (Ok tb)"
    "tb_ids tb = Some demo_ids" "tb_blend_ports tb = Some [4000, 4001]" "tc_n_nodes (tb_config tb) = 2"
    "tc_consensus_params (tb_config tb) = demo_params"
    by (simp add: seed_wallets_cases with_wallet_config_def)
  obtain t s' where t: "build demo_deps Map.empty tb demo_os = (Ok t, s')"
    using build_is_ok [of demo_deps demo_os tb Map.empty] tb by (auto simp: vector_fits_def demo_ids_def)
  have slot: "gt_slot_duration (default_time_config Map.empty s') = from_secs 2" by (simp add: default_time_config_def)
  obtain sc where sc: "scenario_build demo_deps Map.empty demo_scenario demo_os = (Some (Ok sc), s')" "sc_topology sc = t"
    by (rule scenario_build_defined [OF tb(1) t, of 3])
      (simp_all add: slot tb demo_params_def initialize_components_def initialize_workloads_def initialize_expectations_def,
       simp add: from_secs_def nanos_per_sec_def)
  from build_slot_duration [OF t] slot have "slot_duration (sc_topology sc) = Some (from_secs 2)" by (simp add: sc(2))
  with scenario_build_sound [OF sc(1)] sc(1) show ?thesis
    by (auto simp: max_def numeral_2_eq_2 from_secs_def)
qed

text \<open>
  Failures of building a scenario.  Zero wallet users and user counts whose funds
  exceed 64 bits are refused with their own errors, before anything else happens, and never panic.
  With slots below \<open>2 ^ 53\<close> seconds and a slot coefficient that is a number, building never panics;
  a failing workload or expectation is reported under its own name and is the first one, in order,
  whose initialisation fails, and expectations are only initialised after all workloads were.
\<close>

theorem scenario_build_errors:
  assumes slot: "\<And>s'. gt_slot_duration (default_time_config ev s') < from_secs n" "n < 2 ^ 53"
    and coeff: "cp_active_slot_coeff (tc_consensus_params (tb_config (scb_topology b))) \<noteq> NaN"
  shows "(scb_wallet_users b = Some 0 \<longrightarrow> scenario_build d ev b s = (Some (Err (WalletUsersZero 0)), s)) \<and>
    (\<forall>users. scb_wallet_users b = Some users \<and> u64_max < 100 * users \<longrightarrow>
       scenario_build d ev b s = (Some (Err (WalletFundsOverflow users 100)), s)) \<and>
    fst (scenario_build d ev b s) \<noteq> None \<and>
    (\<forall>name e. fst (scenario_build d ev b s) = Some (Err (WorkloadInit name e)) \<longrightarrow>
       (\<exists>t m. first_failure (workload_init (dp_crypto d) t m) workload_name (scb_workloads b) name e)) \<and>
    (\<forall>name e. fst (scenario_build d ev b s) = Some (Err (ExpectationInit name e)) \<longrightarrow>
       (\<exists>t m. is_ok (initialize_workloads (dp_crypto d) t m (scb_workloads b)) \<and>
          first_failure (expectation_init t m) expectation_name (scb_expectations b) name e))"
proof (intro conjI allI impI)
  obtain r where r: "seed_wallets (cr_zk_from (dp_crypto d)) (scb_wallet_users b) (scb_topology b) = Some r"
    using seed_wallets_Some by blast
  have refused: "scenario_build d ev b s = (Some (Err e), s)" if "r = Err e" for e
    using r that by (simp add: scenario_build_def)
  show "scenario_build d ev b s = (Some (Err (WalletUsersZero 0)), s)" if "scb_wallet_users b = Some 0"
    using r that by (intro refused) (simp add: seed_wallets_cases)
  show "scenario_build d ev b s = (Some (Err (WalletFundsOverflow users 100)), s)"
    if "scb_wallet_users b = Some users \<and> u64_max < 100 * users" for users
    using r that by (intro refused) (auto simp: seed_wallets_cases split: if_splits)
  have seeded: "cp_active_slot_coeff (tc_consensus_params (tb_config tb)) \<noteq> NaN" if "r = Ok tb" for tb
    using r that coeff by (auto simp: seed_wallets_cases with_wallet_config_def split: option.splits if_splits)
  have cases: "(\<exists>e. (\<forall>n x. e \<noteq> WorkloadInit n x) \<and> (\<forall>n x. e \<noteq> ExpectationInit n x) \<and> fst (scenario_build d ev b s) = Some (Err e)) \<or>
      (\<exists>t m f. fst (scenario_build d ev b s) =
         Some (and_then (initialize_components (dp_crypto d) t m (scb_workloads b) (scb_expectations b)) (\<lambda>p. Ok (f p))))"
  proof (cases r)
    case (Inl e)
    with r refused [OF Inl] show ?thesis by (auto simp: seed_wallets_cases split: option.splits if_splits)
  next
    case (Inr tb)
    obtain q s' where q: "build d ev tb s = (q, s')" by (cases "build d ev tb s")
    show ?thesis
    proof (cases q)
      case (Inl e)
      with r \<open>r = Ok tb\<close> q show ?thesis by (simp add: scenario_build_def)
    next
      case (Inr t)
      from r [unfolded \<open>r = Ok tb\<close>] q [unfolded Inr] slot seeded [OF \<open>r = Ok tb\<close>] show ?thesis
        by (rule scenario_build_defined) (rule disjI2, simp add: case_prod_unfold, intro exI, rule refl)
    qed
  qed
  then show "fst (scenario_build d ev b s) \<noteq> None" by auto
  show "\<exists>t m. first_failure (workload_init (dp_crypto d) t m) workload_name (scb_workloads b) name e"
    if "fst (scenario_build d ev b s) = Some (Err (WorkloadInit name e))" for name e
    using cases that by (auto simp: initialize_components_def result_iffs initialize_errors(4) dest: initialize_errors(1))
  show "\<exists>t m. is_ok (initialize_workloads (dp_crypto d) t m (scb_workloads b)) \<and>
      first_failure (expectation_init t m) expectation_name (scb_expectations b) name e"
    if "fst (scenario_build d ev b s) = Some (Err (ExpectationInit name e))" for name e
    using cases that by (auto simp: initialize_components_def result_iffs is_ok_iff initialize_errors(2) dest: initialize_errors(3))
qed

theorem scenario_build_errors_witness:
  "scenario_build demo_deps Map.empty (wallets 0 demo_scenario) demo_os = (Some (Err (WalletUsersZero 0)), demo_os) \<and>
   (\<exists>t m. first_failure (workload_init demo_crypto t m) workload_name
      (scb_workloads (with_workload (CustomWorkload \<lparr>cw_name = ''w'', cw_expectations = [], cw_init = (\<lambda>_ _. Err ''no'')\<rparr>) demo_scenario))
      ''w'' ''no'')"
proof -
  let ?w = "CustomWorkload \<lparr>cw_name = ''w'', cw_expectations = [], cw_init = (\<lambda>_ _. Err ''no'')\<rparr>"
  let ?b = "with_workload ?w demo_scenario"
  have slot: "gt_slot_duration (default_time_config Map.empty s') < from_secs 3" for s'
    by (simp add: default_time_config_def from_secs_def nanos_per_sec_def)
  have coeff: "cp_active_slot_coeff (tc_consensus_params (tb_config (scb_topology (wallets 0 demo_scenario)))) \<noteq> NaN"
    "cp_active_slot_coeff (tc_consensus_params (tb_config (scb_topology ?b))) \<noteq> NaN"
    by (simp_all add: wallets_def with_workload_def demo_params_def)
  have zero: "scenario_build demo_deps Map.empty (wallets 0 demo_scenario) demo_os = (Some (Err (WalletUsersZero 0)), demo_os)"
    using scenario_build_errors [where ev = Map.empty and n = 3, OF slot _ coeff(1), of demo_deps demo_os]
    by (simp add: wallets_def)
  obtain tb where tb: "seed_wallets (cr_zk_from (dp_crypto demo_deps)) (scb_wallet_users ?b) (scb_topology ?b) = Some (Ok tb)"
    "tb_ids tb = Some demo_ids" "tb_blend_ports tb = Some [4000, 4001]" "tc_n_nodes (tb_config tb) = 2"
    "tc_consensus_params (tb_config tb) = demo_params"
    by (simp add: seed_wallets_cases with_wallet_config_def with_workload_def)
  obtain t s' where t: "build demo_deps Map.empty tb demo_os = (Ok t, s')"
    using build_is_ok [of demo_deps demo_os tb Map.empty] tb by (auto simp: vector_fits_def demo_ids_def)
  have "fst (scenario_build demo_deps Map.empty ?b demo_os) = Some (Err (WorkloadInit ''w'' ''no''))"
    by (rule scenario_build_defined [OF tb(1) t slot])
      (simp_all add: tb(5) demo_params_def initialize_components_def initialize_workloads_def with_workload_def)
  with scenario_build_errors [where ev = Map.empty and n = 3, OF slot _ coeff(2), of demo_deps demo_os] zero show ?thesis
    by simp
qed

end
