(* ===== verification/Scenario_Dsl.thy ===== *)
theory Scenario_Dsl
  imports Scenario "HOL-Library.Sublist"
begin

text \<open>
  The fluent extensions of the scenario builder (\<^verbatim>\<open>workflows/src/builder/mod.rs\<close>): transaction flow,
  chaos and observability settings.  The URL parser of the HTTP crate is the argument
  \<open>parse_url\<close>; warnings are not modelled.
\<close>

datatype builder_input_error =
  ZeroValue string
| InvalidUrl string string string

section \<open>Transactions, liveness and wallets\<close>

record 'c transaction_flow_builder =
  tf_builder :: "'c scenario_builder"
  tf_rate :: nat
  tf_users :: "nat option"

definition default_rate :: nat where "default_rate = 1"

definition flow_new :: "'c scenario_builder \<Rightarrow> 'c transaction_flow_builder" where
  "flow_new b = \<lparr>tf_builder = b, tf_rate = default_rate, tf_users = None\<rparr>"

definition flow_rate :: "nat \<Rightarrow> 'c transaction_flow_builder \<Rightarrow> 'c transaction_flow_builder" where
  "flow_rate r f = (if r \<noteq> 0 then f\<lparr>tf_rate := r\<rparr> else f)"

definition rate_per_block :: "nat \<Rightarrow> 'c transaction_flow_builder \<Rightarrow> 'c transaction_flow_builder" where
  "rate_per_block r f = f\<lparr>tf_rate := r\<rparr>"

definition try_rate :: "nat \<Rightarrow> 'c transaction_flow_builder \<Rightarrow> builder_input_error + 'c transaction_flow_builder" where
  "try_rate r f = (if r = 0 then Err (ZeroValue ''transaction_rate'') else Ok (rate_per_block r f))"

definition flow_users :: "nat \<Rightarrow> 'c transaction_flow_builder \<Rightarrow> 'c transaction_flow_builder" where
  "flow_users n f = (if n \<noteq> 0 then f\<lparr>tf_users := Some n\<rparr> else f)"

definition try_users :: "nat \<Rightarrow> 'c transaction_flow_builder \<Rightarrow> builder_input_error + 'c transaction_flow_builder" where
  "try_users n f = (if n = 0 then Err (ZeroValue ''transaction_users'') else Ok (f\<lparr>tf_users := Some n\<rparr>))"

definition flow_apply :: "'c transaction_flow_builder \<Rightarrow> 'c scenario_builder" where
  "flow_apply f = with_workload (TxWorkload (with_user_limit (tf_users f) (tx_workload_new (tf_rate f)))) (tf_builder f)"

definition transactions :: "'c scenario_builder \<Rightarrow> 'c transaction_flow_builder" where
  "transactions b = flow_new b"

definition transactions_with ::
  "('c transaction_flow_builder \<Rightarrow> 'c transaction_flow_builder) \<Rightarrow> 'c scenario_builder \<Rightarrow> 'c scenario_builder" where
  "transactions_with f b = flow_apply (f (transactions b))"

definition expect_consensus_liveness :: "'c scenario_builder \<Rightarrow> 'c scenario_builder" where
  "expect_consensus_liveness b = with_expectation (LivenessExpectation consensus_liveness_default) b"

text \<open>\<^verbatim>\<open>WalletConfig::uniform\<close> panics when the funds do not reach every user.\<close>

definition initialize_wallet :: "(nat \<Rightarrow> zk_key) \<Rightarrow> nat \<Rightarrow> nat \<Rightarrow> 'c scenario_builder \<Rightarrow> 'c scenario_builder option" where
  "initialize_wallet zk_from total_funds users b =
     (if users = 0 then Some b
      else map_option (\<lambda>w. scenario_with_wallet_config w b) (uniform zk_from total_funds users))"

section \<open>Chaos\<close>

record chaos_restart_builder =
  crb_builder :: "node_control_capability scenario_builder"
  crb_min_delay :: duration
  crb_max_delay :: duration
  crb_target_cooldown :: duration
  crb_include_nodes :: bool

text \<open>\<^verbatim>\<open>ChaosBuilder\<close> wraps the scenario builder; \<^verbatim>\<open>chaos()\<close> and its \<^verbatim>\<open>apply()\<close> are the wrapping and its inverse.\<close>

datatype chaos_builder = ChaosBuilder (chb_builder: "node_control_capability scenario_builder")

definition chaos_entry :: "node_control_capability scenario_builder \<Rightarrow> chaos_builder" where
  "chaos_entry b = ChaosBuilder b"

definition chaos_with ::
  "(chaos_builder \<Rightarrow> node_control_capability scenario_builder) \<Rightarrow>
   node_control_capability scenario_builder \<Rightarrow> node_control_capability scenario_builder" where
  "chaos_with f b = f (chaos_entry b)"

definition chaos_apply :: "chaos_builder \<Rightarrow> node_control_capability scenario_builder" where
  "chaos_apply c = chb_builder c"

definition restart :: "chaos_builder \<Rightarrow> chaos_restart_builder" where
  "restart c =
     \<lparr>crb_builder = chb_builder c, crb_min_delay = from_secs 10, crb_max_delay = from_secs 30,
      crb_target_cooldown = from_secs 60, crb_include_nodes = True\<rparr>"

definition min_delay :: "duration \<Rightarrow> chaos_restart_builder \<Rightarrow> chaos_restart_builder" where
  "min_delay d c = (if d = 0 then c else c\<lparr>crb_min_delay := d\<rparr>)"

definition max_delay :: "duration \<Rightarrow> chaos_restart_builder \<Rightarrow> chaos_restart_builder" where
  "max_delay d c = (if d = 0 then c else c\<lparr>crb_max_delay := d\<rparr>)"

definition target_cooldown :: "duration \<Rightarrow> chaos_restart_builder \<Rightarrow> chaos_restart_builder" where
  "target_cooldown d c = (if d = 0 then c else c\<lparr>crb_target_cooldown := d\<rparr>)"

definition include_nodes :: "bool \<Rightarrow> chaos_restart_builder \<Rightarrow> chaos_restart_builder" where
  "include_nodes e c = c\<lparr>crb_include_nodes := e\<rparr>"

definition restart_apply :: "chaos_restart_builder \<Rightarrow> node_control_capability scenario_builder" where
  "restart_apply c =
     (let c1 = (if crb_max_delay c < crb_min_delay c
                then c\<lparr>crb_min_delay := crb_max_delay c, crb_max_delay := crb_min_delay c\<rparr> else c);
          c2 = (if crb_target_cooldown c1 < crb_min_delay c1
                then c1\<lparr>crb_target_cooldown := crb_min_delay c1\<rparr> else c1);
          c3 = (if \<not> crb_include_nodes c2 then c2\<lparr>crb_include_nodes := True\<rparr> else c2)
      in with_workload (RestartWorkload (random_restart_new (crb_min_delay c3) (crb_max_delay c3)
           (crb_target_cooldown c3) (crb_include_nodes c3))) (crb_builder c3))"

section \<open>Observability\<close>

type_synonym url = string

record observability_capability =
  oc_metrics_query_url :: "url option"
  oc_metrics_otlp_ingest_url :: "url option"
  oc_grafana_url :: "url option"

definition observability_none :: observability_capability where
  "observability_none = \<lparr>oc_metrics_query_url = None, oc_metrics_otlp_ingest_url = None, oc_grafana_url = None\<rparr>"

text \<open>The extension of a builder without capabilities starts a fresh set.\<close>

definition unit_with_metrics_query_url :: "url \<Rightarrow> unit scenario_builder \<Rightarrow> observability_capability scenario_builder" where
  "unit_with_metrics_query_url u b = with_capabilities (observability_none\<lparr>oc_metrics_query_url := Some u\<rparr>) b"

definition unit_with_metrics_query_url_str ::
  "(string \<Rightarrow> string + url) \<Rightarrow> string \<Rightarrow> unit scenario_builder \<Rightarrow> observability_capability scenario_builder" where
  "unit_with_metrics_query_url_str parse_url u b =
     (case parse_url u of Inr p \<Rightarrow> unit_with_metrics_query_url p b | Inl _ \<Rightarrow> with_capabilities observability_none b)"

definition unit_try_with_metrics_query_url_str ::
  "(string \<Rightarrow> string + url) \<Rightarrow> string \<Rightarrow> unit scenario_builder \<Rightarrow>
   builder_input_error + observability_capability scenario_builder" where
  "unit_try_with_metrics_query_url_str parse_url u b =
     and_then (map_err (InvalidUrl ''metrics_query_url'' u) (parse_url u)) (\<lambda>p. Ok (unit_with_metrics_query_url p b))"

definition unit_with_metrics_otlp_ingest_url ::
  "url \<Rightarrow> unit scenario_builder \<Rightarrow> observability_capability scenario_builder" where
  "unit_with_metrics_otlp_ingest_url u b = with_capabilities (observability_none\<lparr>oc_metrics_otlp_ingest_url := Some u\<rparr>) b"

definition unit_with_metrics_otlp_ingest_url_str ::
  "(string \<Rightarrow> string + url) \<Rightarrow> string \<Rightarrow> unit scenario_builder \<Rightarrow> observability_capability scenario_builder" where
  "unit_with_metrics_otlp_ingest_url_str parse_url u b =
     (case parse_url u of Inr p \<Rightarrow> unit_with_metrics_otlp_ingest_url p b | Inl _ \<Rightarrow> with_capabilities observability_none b)"

definition unit_try_with_metrics_otlp_ingest_url_str ::
  "(string \<Rightarrow> string + url) \<Rightarrow> string \<Rightarrow> unit scenario_builder \<Rightarrow>
   builder_input_error + observability_capability scenario_builder" where
  "unit_try_with_metrics_otlp_ingest_url_str parse_url u b =
     and_then (map_err (InvalidUrl ''metrics_otlp_ingest_url'' u) (parse_url u))
       (\<lambda>p. Ok (unit_with_metrics_otlp_ingest_url p b))"

definition unit_with_grafana_url :: "url \<Rightarrow> unit scenario_builder \<Rightarrow> observability_capability scenario_builder" where
  "unit_with_grafana_url u b = with_capabilities (observability_none\<lparr>oc_grafana_url := Some u\<rparr>) b"

definition unit_with_grafana_url_str ::
  "(string \<Rightarrow> string + url) \<Rightarrow> string \<Rightarrow> unit scenario_builder \<Rightarrow> observability_capability scenario_builder" where
  "unit_with_grafana_url_str parse_url u b =
     (case parse_url u of Inr p \<Rightarrow> unit_with_grafana_url p b | Inl _ \<Rightarrow> with_capabilities observability_none b)"

definition unit_try_with_grafana_url_str ::
  "(string \<Rightarrow> string + url) \<Rightarrow> string \<Rightarrow> unit scenario_builder \<Rightarrow>
   builder_input_error + observability_capability scenario_builder" where
  "unit_try_with_grafana_url_str parse_url u b =
     and_then (map_err (InvalidUrl ''grafana_url'' u) (parse_url u)) (\<lambda>p. Ok (unit_with_grafana_url p b))"

text \<open>The extension of a builder that already has the capability updates it in place.\<close>

definition with_metrics_query_url ::
  "url \<Rightarrow> observability_capability scenario_builder \<Rightarrow> observability_capability scenario_builder" where
  "with_metrics_query_url u b = b\<lparr>scb_capabilities := (scb_capabilities b)\<lparr>oc_metrics_query_url := Some u\<rparr>\<rparr>"

definition with_metrics_query_url_str ::
  "(string \<Rightarrow> string + url) \<Rightarrow> string \<Rightarrow> observability_capability scenario_builder \<Rightarrow>
   observability_capability scenario_builder" where
  "with_metrics_query_url_str parse_url u b =
     (case parse_url u of Inr p \<Rightarrow> with_metrics_query_url p b | Inl _ \<Rightarrow> b)"

definition try_with_metrics_query_url_str ::
  "(string \<Rightarrow> string + url) \<Rightarrow> string \<Rightarrow> observability_capability scenario_builder \<Rightarrow>
   builder_input_error + observability_capability scenario_builder" where
  "try_with_metrics_query_url_str parse_url u b =
     and_then (map_err (InvalidUrl ''metrics_query_url'' u) (parse_url u)) (\<lambda>p. Ok (with_metrics_query_url p b))"

definition with_metrics_otlp_ingest_url ::
  "url \<Rightarrow> observability_capability scenario_builder \<Rightarrow> observability_capability scenario_builder" where
  "with_metrics_otlp_ingest_url u b = b\<lparr>scb_capabilities := (scb_capabilities b)\<lparr>oc_metrics_otlp_ingest_url := Some u\<rparr>\<rparr>"

definition with_metrics_otlp_ingest_url_str ::
  "(string \<Rightarrow> string + url) \<Rightarrow> string \<Rightarrow> observability_capability scenario_builder \<Rightarrow>
   observability_capability scenario_builder" where
  "with_metrics_otlp_ingest_url_str parse_url u b =
     (case parse_url u of Inr p \<Rightarrow> with_metrics_otlp_ingest_url p b | Inl _ \<Rightarrow> b)"

definition try_with_metrics_otlp_ingest_url_str ::
  "(string \<Rightarrow> string + url) \<Rightarrow> string \<Rightarrow> observability_capability scenario_builder \<Rightarrow>
   builder_input_error + observability_capability scenario_builder" where
  "try_with_metrics_otlp_ingest_url_str parse_url u b =
     and_then (map_err (InvalidUrl ''metrics_otlp_ingest_url'' u) (parse_url u))
       (\<lambda>p. Ok (with_metrics_otlp_ingest_url p b))"

definition with_grafana_url ::
  "url \<Rightarrow> observability_capability scenario_builder \<Rightarrow> observability_capability scenario_builder" where
  "with_grafana_url u b = b\<lparr>scb_capabilities := (scb_capabilities b)\<lparr>oc_grafana_url := Some u\<rparr>\<rparr>"

definition with_grafana_url_str ::
  "(string \<Rightarrow> string + url) \<Rightarrow> string \<Rightarrow> observability_capability scenario_builder \<Rightarrow>
   observability_capability scenario_builder" where
  "with_grafana_url_str parse_url u b =
     (case parse_url u of Inr p \<Rightarrow> with_grafana_url p b | Inl _ \<Rightarrow> b)"

definition try_with_grafana_url_str ::
  "(string \<Rightarrow> string + url) \<Rightarrow> string \<Rightarrow> observability_capability scenario_builder \<Rightarrow>
   builder_input_error + observability_capability scenario_builder" where
  "try_with_grafana_url_str parse_url u b =
     and_then (map_err (InvalidUrl ''grafana_url'' u) (parse_url u)) (\<lambda>p. Ok (with_grafana_url p b))"

section \<open>Sequences of builder calls\<close>

text \<open>
  A scenario is described by a sequence of calls.  Those of \<open>common_call\<close> are available on every
  builder, chaos only once node control is enabled.  The state is \<open>None\<close> after a panic.
\<close>

datatype flow_call = FRate nat | FRatePerBlock nat | FUsers nat

fun flow_step :: "flow_call \<Rightarrow> 'c transaction_flow_builder \<Rightarrow> 'c transaction_flow_builder" where
  "flow_step (FRate r) = flow_rate r"
| "flow_step (FRatePerBlock r) = rate_per_block r"
| "flow_step (FUsers n) = flow_users n"

datatype restart_call = RMinDelay duration | RMaxDelay duration | RCooldown duration | RIncludeNodes bool

fun restart_step :: "restart_call \<Rightarrow> chaos_restart_builder \<Rightarrow> chaos_restart_builder" where
  "restart_step (RMinDelay d) = min_delay d"
| "restart_step (RMaxDelay d) = max_delay d"
| "restart_step (RCooldown d) = target_cooldown d"
| "restart_step (RIncludeNodes e) = include_nodes e"

datatype common_call =
  CTransactions "flow_call list"
| CLiveness
| CInitializeWallet nat nat
| CWallets nat
| CRunDuration duration
| CMapTopology "topology_builder \<Rightarrow> topology_builder"
| CExpectation expectation
| CCustomWorkload custom_workload

fun common_step :: "(nat \<Rightarrow> zk_key) \<Rightarrow> common_call \<Rightarrow> 'c scenario_builder option \<Rightarrow> 'c scenario_builder option" where
  "common_step zk_from call None = None"
| "common_step zk_from (CTransactions fs) (Some b) = Some (transactions_with (fold flow_step fs) b)"
| "common_step zk_from CLiveness (Some b) = Some (expect_consensus_liveness b)"
| "common_step zk_from (CInitializeWallet funds users) (Some b) = initialize_wallet zk_from funds users b"
| "common_step zk_from (CWallets users) (Some b) = Some (wallets users b)"
| "common_step zk_from (CRunDuration d) (Some b) = Some (with_run_duration d b)"
| "common_step zk_from (CMapTopology f) (Some b) = Some (map_topology f b)"
| "common_step zk_from (CExpectation e) (Some b) = Some (with_expectation e b)"
| "common_step zk_from (CCustomWorkload c) (Some b) = Some (with_workload (CustomWorkload c) b)"

datatype control_call = Common common_call | Chaos "restart_call list"

fun control_step ::
  "(nat \<Rightarrow> zk_key) \<Rightarrow> control_call \<Rightarrow> node_control_capability scenario_builder option \<Rightarrow>
   node_control_capability scenario_builder option" where
  "control_step zk_from (Common call) b = common_step zk_from call b"
| "control_step zk_from (Chaos rs) b =
     map_option (chaos_with (\<lambda>c. restart_apply (fold restart_step rs (restart c)))) b"

text \<open>The argument of \<^verbatim>\<open>rate_per_block\<close> is a \<^verbatim>\<open>NonZeroU64\<close>.\<close>

fun common_typed :: "common_call \<Rightarrow> bool" where
  "common_typed (CTransactions fs) = list_all (\<lambda>f. f \<noteq> FRatePerBlock 0) fs"
| "common_typed _ = True"

fun control_typed :: "control_call \<Rightarrow> bool" where
  "control_typed (Common c) = common_typed c"
| "control_typed (Chaos rs) = True"

section \<open>Invariant of described scenarios\<close>

fun workload_ok :: "workload \<Rightarrow> bool" where
  "workload_ok (TxWorkload w) \<longleftrightarrow> 0 < tw_txs_per_block w \<and> tw_user_limit w \<noteq> Some 0"
| "workload_ok (RestartWorkload w) \<longleftrightarrow>
     0 < rr_min_delay w \<and> rr_min_delay w \<le> rr_max_delay w \<and> rr_min_delay w \<le> rr_target_cooldown w \<and> rr_include_nodes w"
| "workload_ok (CustomWorkload c) \<longleftrightarrow> True"

fun dsl_inv :: "'c scenario_builder option \<Rightarrow> bool" where
  "dsl_inv None \<longleftrightarrow> True"
| "dsl_inv (Some b) \<longleftrightarrow> list_all workload_ok (scb_workloads b) \<and>
     subseq (concat (map workload_expectations (scb_workloads b))) (scb_expectations b)"

lemma flow_fold:
  "list_all (\<lambda>f. f \<noteq> FRatePerBlock 0) fs \<Longrightarrow> 0 < tf_rate f \<Longrightarrow> tf_users f \<noteq> Some 0 \<Longrightarrow>
     tf_builder (fold flow_step fs f) = tf_builder f \<and> 0 < tf_rate (fold flow_step fs f) \<and>
     tf_users (fold flow_step fs f) \<noteq> Some 0"
proof (induction fs arbitrary: f)
  case (Cons c fs)
  have "tf_builder (flow_step c f) = tf_builder f \<and> 0 < tf_rate (flow_step c f) \<and> tf_users (flow_step c f) \<noteq> Some 0"
    using Cons.prems by (cases c) (auto simp: flow_rate_def rate_per_block_def flow_users_def)
  with Cons.IH [of "flow_step c f"] Cons.prems show ?case by simp
qed simp

lemma subseq_extend: "subseq xs ys \<Longrightarrow> subseq xs (ys @ zs)"
  using list_emb_append_mono [of "(=)" xs ys "[]" zs] by simp

lemma subseq_member: "subseq xs ys \<Longrightarrow> x \<in> set xs \<Longrightarrow> x \<in> set ys"
  by (erule list_emb_set) auto

lemma dsl_inv_with_workload: "dsl_inv (Some b) \<Longrightarrow> workload_ok w \<Longrightarrow> dsl_inv (Some (with_workload w b))"
  by (auto simp: with_workload_def intro: list_emb_append_mono)

lemma dsl_inv_common:
  assumes "dsl_inv b" "common_typed call"
  shows "dsl_inv (common_step zk_from call b)"
proof (cases b)
  case (Some x)
  show ?thesis
  proof (cases call)
    case (CTransactions fs)
    with assms(2) flow_fold [of fs "transactions x"] show ?thesis
      using assms(1) Some dsl_inv_with_workload [of x]
      by (simp add: transactions_with_def flow_apply_def transactions_def flow_new_def default_rate_def
          with_user_limit_def tx_workload_new_def del: dsl_inv.simps)
  next
    case (CCustomWorkload c)
    with assms(1) Some show ?thesis using dsl_inv_with_workload [of x "CustomWorkload c"] by (simp del: dsl_inv.simps)
  qed (use assms Some in \<open>auto simp: expect_consensus_liveness_def with_expectation_def initialize_wallet_def wallets_def
      with_run_duration_def map_topology_def scenario_with_wallet_config_def map_option_case
      split: option.splits intro: subseq_extend\<close>)
qed simp

definition restart_inv :: "chaos_restart_builder \<Rightarrow> bool" where
  "restart_inv c \<longleftrightarrow> 0 < crb_min_delay c \<and> 0 < crb_max_delay c"

lemma restart_fold:
  "restart_inv c \<Longrightarrow> crb_builder (fold restart_step rs c) = crb_builder c \<and> restart_inv (fold restart_step rs c)"
proof (induction rs arbitrary: c)
  case (Cons r rs)
  have "crb_builder (restart_step r c) = crb_builder c \<and> restart_inv (restart_step r c)"
    using Cons.prems by (cases r) (auto simp: restart_inv_def min_delay_def max_delay_def target_cooldown_def include_nodes_def)
  with Cons.IH [of "restart_step r c"] show ?case by simp
qed simp

text \<open>The adjustments of \<^verbatim>\<open>apply\<close> in closed form: sorted delays, a cooldown of at least the smaller one.\<close>

lemma restart_apply_eq:
  "restart_apply c =
     with_workload (RestartWorkload (random_restart_new (min (crb_min_delay c) (crb_max_delay c))
        (max (crb_min_delay c) (crb_max_delay c))
        (max (crb_target_cooldown c) (min (crb_min_delay c) (crb_max_delay c))) True)) (crb_builder c)"
  by (auto simp: restart_apply_def Let_def min_def max_def)

lemma restart_apply_ok:
  assumes "restart_inv c"
  obtains w where "workload_ok (RestartWorkload w)" "restart_apply c = with_workload (RestartWorkload w) (crb_builder c)"
  using assms by (intro that [OF _ restart_apply_eq]) (auto simp: restart_inv_def random_restart_new_def)

lemma dsl_inv_control:
  assumes "dsl_inv b" "control_typed call"
  shows "dsl_inv (control_step zk_from call b)"
proof (cases call)
  case (Common c)
  with assms show ?thesis by (simp add: dsl_inv_common)
next
  case (Chaos rs)
  show ?thesis
  proof (cases b)
    case (Some x)
    let ?c = "fold restart_step rs (restart (chaos_entry x))"
    have "restart_inv (restart (chaos_entry x))" "crb_builder (restart (chaos_entry x)) = x"
      by (simp_all add: restart_inv_def restart_def chaos_entry_def from_secs_def nanos_per_sec_def)
    then have c: "crb_builder ?c = x" "restart_inv ?c" using restart_fold by simp_all
    from restart_apply_ok [OF c(2)] obtain w where "workload_ok (RestartWorkload w)"
      "restart_apply ?c = with_workload (RestartWorkload w) x" unfolding c(1) by blast
    with assms(1) Some Chaos dsl_inv_with_workload show ?thesis by (simp add: chaos_with_def del: dsl_inv.simps workload_ok.simps)
  qed (simp add: Chaos)
qed

interpretation common_calls: state_machine "common_step zk_from" common_typed dsl_inv for zk_from
  by unfold_locales (rule dsl_inv_common)

interpretation control_calls: state_machine "control_step zk_from" control_typed dsl_inv for zk_from
  by unfold_locales (rule dsl_inv_control)

lemma workload_init_keeps:
  assumes "workload_init cr t m w = Ok w'"
  shows "workload_ok w' = workload_ok w" "workload_expectations w' = workload_expectations w"
  using assms by (cases w; auto simp: result_iffs tx_init_def tx_expectations_def Let_def split: if_splits option.splits)+

lemma initialized_keep:
  assumes "list_all2 (\<lambda>w w'. workload_init cr t m w = Ok w') ws ws'"
  shows "list_all workload_ok ws' = list_all workload_ok ws"
    "map workload_expectations ws' = map workload_expectations ws"
  using assms by (induction rule: list_all2_induct) (simp_all add: workload_init_keeps)

lemma tx_init_accounts: "tx_init cr t w = Ok w' \<Longrightarrow> tw_accounts w' \<noteq> []"
  by (auto simp: tx_init_def Let_def split: if_splits option.splits)

text \<open>An observability description is a sequence of the lenient setters.\<close>

datatype observability_call = OQuery string | OOtlp string | OGrafana string

fun observability_step ::
  "(string \<Rightarrow> string + url) \<Rightarrow> observability_call \<Rightarrow> observability_capability scenario_builder \<Rightarrow>
   observability_capability scenario_builder" where
  "observability_step parse_url (OQuery u) = with_metrics_query_url_str parse_url u"
| "observability_step parse_url (OOtlp u) = with_metrics_otlp_ingest_url_str parse_url u"
| "observability_step parse_url (OGrafana u) = with_grafana_url_str parse_url u"

fun latest :: "(string \<Rightarrow> string + url) \<Rightarrow> string list \<Rightarrow> url option \<Rightarrow> url option" where
  "latest parse_url [] old = old"
| "latest parse_url (u # us) old = latest parse_url us (case parse_url u of Inl _ \<Rightarrow> old | Inr p \<Rightarrow> Some p)"

fun query_urls :: "observability_call list \<Rightarrow> string list" where
  "query_urls [] = []" | "query_urls (OQuery u # cs) = u # query_urls cs" | "query_urls (_ # cs) = query_urls cs"

fun otlp_urls :: "observability_call list \<Rightarrow> string list" where
  "otlp_urls [] = []" | "otlp_urls (OOtlp u # cs) = u # otlp_urls cs" | "otlp_urls (_ # cs) = otlp_urls cs"

fun grafana_urls :: "observability_call list \<Rightarrow> string list" where
  "grafana_urls [] = []" | "grafana_urls (OGrafana u # cs) = u # grafana_urls cs" | "grafana_urls (_ # cs) = grafana_urls cs"

lemmas observability_defs =
  with_metrics_query_url_str_def with_metrics_query_url_def with_metrics_otlp_ingest_url_str_def
  with_metrics_otlp_ingest_url_def with_grafana_url_str_def with_grafana_url_def with_capabilities_def

lemma observability_fold:
  "fold (observability_step parse_url) cs b =
     b\<lparr>scb_capabilities :=
        \<lparr>oc_metrics_query_url = latest parse_url (query_urls cs) (oc_metrics_query_url (scb_capabilities b)),
         oc_metrics_otlp_ingest_url = latest parse_url (otlp_urls cs) (oc_metrics_otlp_ingest_url (scb_capabilities b)),
         oc_grafana_url = latest parse_url (grafana_urls cs) (oc_grafana_url (scb_capabilities b))\<rparr>\<rparr>"
proof (induction cs arbitrary: b)
  case (Cons c cs)
  then show ?case by (cases c) (auto simp: observability_defs split: sum.splits)
qed simp

section \<open>Properties\<close>



text \<open>
  Observability settings.  After any sequence of the lenient setters each of the three
  URLs is the last valid one given for it, else what it was, and nothing but the capability changes.
  On a builder without capabilities a setter acts as on one with an empty capability.  The fallible
  setters agree with the lenient ones on valid URLs and otherwise report the field, the rejected
  text and the parser's message.
\<close>

theorem observability_settings:
  "(let b' = fold (observability_step parse_url) cs b in
      oc_metrics_query_url (scb_capabilities b') = latest parse_url (query_urls cs) (oc_metrics_query_url (scb_capabilities b)) \<and>
      oc_metrics_otlp_ingest_url (scb_capabilities b') = latest parse_url (otlp_urls cs) (oc_metrics_otlp_ingest_url (scb_capabilities b)) \<and>
      oc_grafana_url (scb_capabilities b') = latest parse_url (grafana_urls cs) (oc_grafana_url (scb_capabilities b)) \<and>
      with_capabilities () b' = with_capabilities () b) \<and>
   unit_with_metrics_query_url_str parse_url u ub = observability_step parse_url (OQuery u) (with_capabilities observability_none ub) \<and>
   unit_with_metrics_otlp_ingest_url_str parse_url u ub = observability_step parse_url (OOtlp u) (with_capabilities observability_none ub) \<and>
   unit_with_grafana_url_str parse_url u ub = observability_step parse_url (OGrafana u) (with_capabilities observability_none ub) \<and>
   (case parse_url u of
      Inr p \<Rightarrow>
        try_with_metrics_query_url_str parse_url u b = Ok (observability_step parse_url (OQuery u) b) \<and>
        try_with_metrics_otlp_ingest_url_str parse_url u b = Ok (observability_step parse_url (OOtlp u) b) \<and>
        try_with_grafana_url_str parse_url u b = Ok (observability_step parse_url (OGrafana u) b) \<and>
        unit_try_with_metrics_query_url_str parse_url u ub = Ok (unit_with_metrics_query_url_str parse_url u ub) \<and>
        unit_try_with_metrics_otlp_ingest_url_str parse_url u ub = Ok (unit_with_metrics_otlp_ingest_url_str parse_url u ub) \<and>
        unit_try_with_grafana_url_str parse_url u ub = Ok (unit_with_grafana_url_str parse_url u ub)
    | Inl e \<Rightarrow>
        try_with_metrics_query_url_str parse_url u b = Err (InvalidUrl ''metrics_query_url'' u e) \<and>
        try_with_metrics_otlp_ingest_url_str parse_url u b = Err (InvalidUrl ''metrics_otlp_ingest_url'' u e) \<and>
        try_with_grafana_url_str parse_url u b = Err (InvalidUrl ''grafana_url'' u e))"
proof (intro conjI)
  show "case parse_url u of
      Inr p \<Rightarrow>
        try_with_metrics_query_url_str parse_url u b = Ok (observability_step parse_url (OQuery u) b) \<and>
        try_with_metrics_otlp_ingest_url_str parse_url u b = Ok (observability_step parse_url (OOtlp u) b) \<and>
        try_with_grafana_url_str parse_url u b = Ok (observability_step parse_url (OGrafana u) b) \<and>
        unit_try_with_metrics_query_url_str parse_url u ub = Ok (unit_with_metrics_query_url_str parse_url u ub) \<and>
        unit_try_with_metrics_otlp_ingest_url_str parse_url u ub = Ok (unit_with_metrics_otlp_ingest_url_str parse_url u ub) \<and>
        unit_try_with_grafana_url_str parse_url u ub = Ok (unit_with_grafana_url_str parse_url u ub)
    | Inl e \<Rightarrow>
        try_with_metrics_query_url_str parse_url u b = Err (InvalidUrl ''metrics_query_url'' u e) \<and>
        try_with_metrics_otlp_ingest_url_str parse_url u b = Err (InvalidUrl ''metrics_otlp_ingest_url'' u e) \<and>
        try_with_grafana_url_str parse_url u b = Err (InvalidUrl ''grafana_url'' u e)"
    by (cases "parse_url u") (simp_all add: try_with_metrics_query_url_str_def try_with_metrics_otlp_ingest_url_str_def
      try_with_grafana_url_str_def unit_try_with_metrics_query_url_str_def unit_try_with_metrics_otlp_ingest_url_str_def
      unit_try_with_grafana_url_str_def unit_with_metrics_query_url_str_def unit_with_metrics_otlp_ingest_url_str_def
      unit_with_grafana_url_str_def with_metrics_query_url_str_def with_metrics_otlp_ingest_url_str_def with_grafana_url_str_def)
qed (auto simp: observability_fold observability_defs Let_def observability_none_def unit_with_metrics_query_url_str_def
    unit_with_metrics_query_url_def unit_with_metrics_otlp_ingest_url_str_def unit_with_metrics_otlp_ingest_url_def
    unit_with_grafana_url_str_def unit_with_grafana_url_def split: sum.splits)

end
