(* ===== verification/Runner.thy ===== *)
theory Runner
  imports Scenario
begin

text \<open>
  Running a scenario (\<^verbatim>\<open>core/src/scenario/runtime/runner.rs\<close> and the handle and context of
  \<^verbatim>\<open>runtime/context.rs\<close>): prepare the expectations, drive the workload tasks until the timer and
  through the cooldown, settle, evaluate the expectations, and clean up exactly once.

  Time is a number of nanoseconds since the workloads were spawned; timers fire on time, and
  \<open>lag\<close> is what passes between the last timer and the abortion of the remaining tasks.  When and
  how each workload task ends is an input, and so are the answers of the expectations, where
  \<open>None\<close> is a panic that unwinds through the runner.  The log records what the runner did.
\<close>

section \<open>Context and handle\<close>

record run_context =
  rctx_descriptors :: generated_topology
  rctx_metrics :: run_metrics
  rctx_node_control :: bool

definition run_context_new :: "generated_topology \<Rightarrow> duration \<Rightarrow> bool \<Rightarrow> run_context option" where
  "run_context_new t run_duration node_control =
     map_option (\<lambda>m. \<lparr>rctx_descriptors = t, rctx_metrics = m, rctx_node_control = node_control\<rparr>)
       (run_metrics_new t run_duration)"

datatype run_event = EvCapture nat | EvSpawn nat | EvEvaluate nat | EvCleanup

record run_handle =
  rh_context :: run_context
  rh_cleanup_guard :: bool

definition from_shared :: "run_context \<Rightarrow> bool \<Rightarrow> run_handle" where
  "from_shared ctx guard = \<lparr>rh_context = ctx, rh_cleanup_guard = guard\<rparr>"

definition run_handle_drop :: "run_handle \<Rightarrow> run_event list \<Rightarrow> run_event list" where
  "run_handle_drop h evs = (if rh_cleanup_guard h then evs @ [EvCleanup] else evs)"

record runner =
  rn_context :: run_context
  rn_cleanup_guard :: bool

definition runner_new :: "run_context \<Rightarrow> bool \<Rightarrow> runner" where
  "runner_new ctx guard = \<lparr>rn_context = ctx, rn_cleanup_guard = guard\<rparr>"

definition cleanup :: "runner \<Rightarrow> run_event list \<Rightarrow> runner \<times> run_event list" where
  "cleanup r evs = (if rn_cleanup_guard r then (r\<lparr>rn_cleanup_guard := False\<rparr>, evs @ [EvCleanup]) else (r, evs))"

definition into_run_handle :: "runner \<Rightarrow> run_handle \<times> runner" where
  "into_run_handle r = (from_shared (rn_context r) (rn_cleanup_guard r), r\<lparr>rn_cleanup_guard := False\<rparr>)"

text \<open>\<^verbatim>\<open>Drop for Runner\<close>, which runs on every exit from \<^verbatim>\<open>run\<close>.\<close>

definition runner_drop :: "runner \<Rightarrow> run_event list \<Rightarrow> run_event list" where
  "runner_drop r evs = snd (cleanup r evs)"

datatype scenario_error = WorkloadFailure string | ExpectationCapture string | ExpectationsFailed string

section \<open>Expectations\<close>

text \<open>Expectations are numbered for the log from \<open>i\<close>.\<close>

fun prepare_expectations ::
  "('e \<Rightarrow> (string + 'e) option) \<Rightarrow> nat \<Rightarrow> 'e list \<Rightarrow> run_event list \<Rightarrow>
   (scenario_error + 'e list) option \<times> run_event list" where
  "prepare_expectations capture i [] evs = (Some (Ok []), evs)"
| "prepare_expectations capture i (e # es) evs =
     (case capture e of
        None \<Rightarrow> (None, evs @ [EvCapture i])
      | Some (Inl err) \<Rightarrow> (Some (Err (ExpectationCapture err)), evs @ [EvCapture i])
      | Some (Inr e') \<Rightarrow>
          (case prepare_expectations capture (Suc i) es (evs @ [EvCapture i]) of
             (r, evs') \<Rightarrow> (map_option (\<lambda>x. and_then x (\<lambda>es'. Ok (e' # es'))) r, evs')))"

fun collect_failures ::
  "('e \<Rightarrow> (string + unit) option) \<Rightarrow> ('e \<Rightarrow> string) \<Rightarrow> nat \<Rightarrow> 'e list \<Rightarrow> run_event list \<Rightarrow>
   (string \<times> string) list option \<times> run_event list" where
  "collect_failures evaluate name_of i [] evs = (Some [], evs)"
| "collect_failures evaluate name_of i (e # es) evs =
     (case evaluate e of
        None \<Rightarrow> (None, evs @ [EvEvaluate i])
      | Some r \<Rightarrow>
          (case collect_failures evaluate name_of (Suc i) es (evs @ [EvEvaluate i]) of
             (fs, evs') \<Rightarrow>
               (map_option (\<lambda>fs. case r of Inl err \<Rightarrow> (name_of e, err) # fs | Inr _ \<Rightarrow> fs) fs, evs')))"

definition run_expectations ::
  "('e \<Rightarrow> (string + unit) option) \<Rightarrow> ('e \<Rightarrow> string) \<Rightarrow> 'e list \<Rightarrow> run_event list \<Rightarrow>
   (scenario_error + unit) option \<times> run_event list" where
  "run_expectations evaluate name_of es evs =
     (case collect_failures evaluate name_of 0 es evs of
        (fs, evs') \<Rightarrow>
          (map_option (\<lambda>fs. if fs = [] then Ok ()
              else Err (ExpectationsFailed (join [CHR 0x0A] (map (\<lambda>(n, s). n @ '': '' @ s) fs)))) fs, evs'))"

section \<open>Workload tasks\<close>

datatype panic_payload = PanicString string | PanicStr string | PanicOther

fun panic_message :: "panic_payload \<Rightarrow> string" where
  "panic_message (PanicString s) = s"
| "panic_message (PanicStr s) = s"
| "panic_message PanicOther = ''unknown panic''"

datatype workload_end = Returned "string + unit" | Panicked panic_payload

datatype join_result = Joined "string + unit" | JoinCancelled | JoinFailed string

record workload_task =
  wt_end :: "nat option"
  wt_result :: join_result

fun map_join_result :: "join_result \<Rightarrow> scenario_error + unit" where
  "map_join_result (Joined outcome) = map_err WorkloadFailure outcome"
| "map_join_result JoinCancelled = Ok ()"
| "map_join_result (JoinFailed err) = Err (WorkloadFailure (''workload task failed: '' @ err))"

text \<open>The spawned task catches panics of its workload.\<close>

fun task_outcome :: "workload_end \<Rightarrow> string + unit" where
  "task_outcome (Returned r) = r"
| "task_outcome (Panicked p) = Err (''workload panicked: '' @ panic_message p)"

text \<open>A join set hands out its tasks in the order in which they end; those that never end come last.\<close>

definition spawn_workloads :: "(nat option \<times> workload_end) list \<Rightarrow> workload_task list" where
  "spawn_workloads behaviour =
     (let tasks = map (\<lambda>(fin, w). \<lparr>wt_end = fin, wt_result = Joined (task_outcome w)\<rparr>) behaviour
      in sort_key (\<lambda>t. the (wt_end t)) (filter (\<lambda>t. wt_end t \<noteq> None) tasks) @ filter (\<lambda>t. wt_end t = None) tasks)"

definition ended_by :: "nat \<Rightarrow> workload_task \<Rightarrow> bool" where
  "ended_by now t = (case wt_end t of None \<Rightarrow> False | Some fin \<Rightarrow> fin \<le> now)"

text \<open>
  \<^verbatim>\<open>drive_until_timer\<close>: whether the timer fired, the tasks left in the set and the time.
\<close>

fun drive_until_timer ::
  "nat \<Rightarrow> nat \<Rightarrow> workload_task list \<Rightarrow> (scenario_error + bool) \<times> workload_task list \<times> nat" where
  "drive_until_timer deadline now [] = (Ok False, [], now)"
| "drive_until_timer deadline now (t # ts) =
     (if ended_by deadline t then
        (let now' = max now (the (wt_end t)) in
         case map_join_result (wt_result t) of
           Inl err \<Rightarrow> (Err err, ts, now')
         | Inr _ \<Rightarrow> drive_until_timer deadline now' ts)
      else (Ok True, t # ts, deadline))"

fun drain_workloads :: "nat \<Rightarrow> workload_task list \<Rightarrow> scenario_error + unit" where
  "drain_workloads now [] = Ok ()"
| "drain_workloads now (t # ts) =
     and_then (map_join_result (if ended_by now t then wt_result t else JoinCancelled)) (\<lambda>_. drain_workloads now ts)"

section \<open>Cooldown and settling\<close>

definition min_node_control_cooldown :: duration where "min_node_control_cooldown = from_secs 30"
definition cooldown_block_interval_multiplier :: f64 where "cooldown_block_interval_multiplier = Fin 5"
definition default_block_feed_settle_wait :: duration where "default_block_feed_settle_wait = from_secs 1"
definition min_block_feed_settle_wait :: duration where "min_block_feed_settle_wait = from_secs 2"

text \<open>The outer \<open>None\<close> is the panic of \<^verbatim>\<open>mul_f64\<close>.\<close>

definition cooldown_duration :: "run_context \<Rightarrow> duration option option" where
  "cooldown_duration ctx =
     (let needs_stabilization = rctx_node_control ctx in
      case rm_block_interval_hint (rctx_metrics ctx) of
        Some interval \<Rightarrow>
          if interval = 0 then Some None
          else
            (case mul_f64 interval cooldown_block_interval_multiplier of
               None \<Rightarrow> None
             | Some wait \<Rightarrow>
                 (case mul_f64 interval (f64_of_nat
                     (cp_security_param (tc_consensus_params (gt_config (rctx_descriptors ctx))))) of
                    None \<Rightarrow> None
                  | Some finality \<Rightarrow>
                      (let wait = max wait finality;
                           wait = (if needs_stabilization then max wait min_node_control_cooldown else wait)
                       in Some (Some wait))))
      | None \<Rightarrow> if needs_stabilization then Some (Some min_node_control_cooldown) else Some None)"

definition settle_before_expectations :: "run_context \<Rightarrow> duration" where
  "settle_before_expectations ctx =
     (let hint = rm_block_interval_hint (rctx_metrics ctx) in
      if \<not> rctx_node_control ctx \<and> hint = None then 0
      else max (case hint of None \<Rightarrow> default_block_feed_settle_wait | Some h \<Rightarrow> h) min_block_feed_settle_wait)"

section \<open>Running\<close>

text \<open>The result and the time at which it is reached; \<open>None\<close> is a panic.\<close>

definition run_workloads ::
  "run_context \<Rightarrow> (nat option \<times> workload_end) list \<Rightarrow> duration \<Rightarrow> nat \<Rightarrow> (scenario_error + unit) option \<times> nat" where
  "run_workloads ctx behaviour duration lag =
     (if behaviour = [] then
        (case cooldown_duration ctx of
           None \<Rightarrow> (None, duration)
         | Some cooldown \<Rightarrow> (Some (Ok ()), duration + (case cooldown of None \<Rightarrow> 0 | Some c \<Rightarrow> c)))
      else
        (case drive_until_timer duration 0 (spawn_workloads behaviour) of
           (Inl err, _, now) \<Rightarrow> (Some (Err err), now)
         | (Inr _, tasks, now) \<Rightarrow>
             (case cooldown_duration ctx of
                None \<Rightarrow> (None, now)
              | Some None \<Rightarrow> (Some (drain_workloads (now + lag) tasks), now + lag)
              | Some (Some cooldown) \<Rightarrow>
                  if cooldown = 0 then (Some (drain_workloads (now + lag) tasks), now + lag)
                  else if tasks = [] then
                    (Some (drain_workloads (now + cooldown + lag) tasks), now + cooldown + lag)
                  else
                    (case drive_until_timer (now + cooldown) now tasks of
                       (Inl err, _, now) \<Rightarrow> (Some (Err err), now)
                     | (Inr _, tasks, now) \<Rightarrow> (Some (drain_workloads (now + lag) tasks), now + lag)))))"

text \<open>Every early return of \<^verbatim>\<open>run\<close> cleans up and then drops the runner.\<close>

definition fail_run :: "runner \<Rightarrow> run_event list \<Rightarrow> run_event list" where
  "fail_run r evs = (case cleanup r evs of (r', evs') \<Rightarrow> runner_drop r' evs')"

definition run ::
  "('e \<Rightarrow> (string + 'e) option) \<Rightarrow> ('e \<Rightarrow> (string + unit) option) \<Rightarrow> ('e \<Rightarrow> string) \<Rightarrow>
   (nat option \<times> workload_end) list \<Rightarrow> nat \<Rightarrow> duration \<Rightarrow> 'e list \<Rightarrow> runner \<Rightarrow>
   (scenario_error + run_handle) option \<times> run_event list" where
  "run capture evaluate name_of behaviour lag duration es r =
     (case prepare_expectations capture 0 es [] of
        (None, evs) \<Rightarrow> (None, runner_drop r evs)
      | (Some (Inl err), evs) \<Rightarrow> (Some (Err err), fail_run r evs)
      | (Some (Inr es'), evs) \<Rightarrow>
          (let evs = evs @ map EvSpawn [0..<length behaviour] in
           case fst (run_workloads (rn_context r) behaviour duration lag) of
             None \<Rightarrow> (None, runner_drop r evs)
           | Some (Inl err) \<Rightarrow> (Some (Err err), fail_run r evs)
           | Some (Inr _) \<Rightarrow>
               (case run_expectations evaluate name_of es' evs of
                  (None, evs) \<Rightarrow> (None, runner_drop r evs)
                | (Some (Inl err), evs) \<Rightarrow> (Some (Err err), fail_run r evs)
                | (Some (Inr _), evs) \<Rightarrow>
                    (case into_run_handle r of (h, r') \<Rightarrow> (Some (Ok h), runner_drop r' evs)))))"

section \<open>Facts\<close>

definition task_failure :: "workload_task \<Rightarrow> scenario_error option" where
  "task_failure t = (case map_join_result (wt_result t) of Inl e \<Rightarrow> Some e | Inr _ \<Rightarrow> None)"

lemma task_failure_simps:
  "task_failure t = Some e \<longleftrightarrow> map_join_result (wt_result t) = Err e"
  "task_failure t = None \<longleftrightarrow> map_join_result (wt_result t) = Ok ()"
  by (auto simp: task_failure_def split: sum.splits)

fun not_later :: "nat option \<Rightarrow> nat option \<Rightarrow> bool" where
  "not_later _ None = True"
| "not_later None (Some _) = False"
| "not_later (Some a) (Some b) = (a \<le> b)"

abbreviation in_order :: "workload_task list \<Rightarrow> bool" where
  "in_order \<equiv> sorted_wrt (\<lambda>t u. not_later (wt_end t) (wt_end u))"

lemma spawn_in_order: "in_order (spawn_workloads behaviour)"
proof -
  have "sorted_wrt (\<lambda>t u. not_later (wt_end t) (wt_end u)) (sort_key (\<lambda>t. the (wt_end t)) (filter (\<lambda>t. wt_end t \<noteq> None) ts))"
    for ts :: "workload_task list"
  proof -
    have "sorted_wrt (\<lambda>t u. the (wt_end t) \<le> the (wt_end u)) (sort_key (\<lambda>t. the (wt_end t)) (filter (\<lambda>t. wt_end t \<noteq> None) ts))"
      using sorted_sort_key [of "\<lambda>t. the (wt_end t)"] by (simp add: sorted_map)
    then show ?thesis by (rule sorted_wrt_mono_rel [rotated]) auto
  qed
  moreover have "in_order (filter (\<lambda>t. wt_end t = None) ts)" for ts by (induction ts) auto
  ultimately show ?thesis
    unfolding spawn_workloads_def Let_def sorted_wrt_append by (intro conjI) (blast, blast, auto)
qed

lemma ended_by_order: "ended_by now u \<Longrightarrow> not_later (wt_end t) (wt_end u) \<Longrightarrow> ended_by now t"
  by (cases "wt_end t"; cases "wt_end u") (auto simp: ended_by_def)

lemma set_spawn: "set (spawn_workloads behaviour) =
    (\<lambda>(fin, w). \<lparr>wt_end = fin, wt_result = Joined (task_outcome w)\<rparr>) ` set behaviour"
  by (auto simp: spawn_workloads_def Let_def)

lemma drive_Err:
  assumes "drive_until_timer deadline now ts = (Err e, rest, now')"
  obtains pre t where "ts = pre @ t # rest" "ended_by deadline t" "task_failure t = Some e" "\<forall>u \<in> set pre. task_failure u = None"
    "now' \<le> max now deadline"
  using assms
proof (induction deadline now ts arbitrary: thesis rule: drive_until_timer.induct)
  case (2 deadline now t ts)
  from "2.prems"(2) have ended: "ended_by deadline t" by (auto split: if_splits)
  then have fin: "the (wt_end t) \<le> deadline" by (auto simp: ended_by_def split: option.splits)
  show ?case
  proof (cases "map_join_result (wt_result t)")
    case (Inl a)
    with "2.prems" ended fin show ?thesis by (intro "2.prems"(1) [of "[]" t]) (auto simp: Let_def task_failure_simps)
  next
    case (Inr b)
    with "2.prems"(2) ended have "drive_until_timer deadline (max now (the (wt_end t))) ts = (Err e, rest, now')" by (simp add: Let_def)
    from "2.IH" [OF ended refl Inr _ this] obtain pre u where
      "ts = pre @ u # rest" "ended_by deadline u" "task_failure u = Some e" "\<forall>v \<in> set pre. task_failure v = None"
      "now' \<le> max (max now (the (wt_end t))) deadline" by blast
    with Inr fin show ?thesis by (intro "2.prems"(1) [of "t # pre" u]) (auto simp: task_failure_simps)
  qed
qed simp

lemma drive_Ok:
  assumes "drive_until_timer deadline now ts = (Ok b, rest, now')" "in_order ts"
  obtains pre where "ts = pre @ rest" "\<forall>u \<in> set pre. ended_by deadline u \<and> task_failure u = None"
    "\<forall>u \<in> set rest. \<not> ended_by deadline u" "now' \<le> max now deadline" "rest \<noteq> [] \<longrightarrow> now' = deadline"
  using assms
proof (induction deadline now ts arbitrary: thesis rule: drive_until_timer.induct)
  case (2 deadline now t ts)
  show ?case
  proof (cases "ended_by deadline t")
    case True
    then have fin: "the (wt_end t) \<le> deadline" by (auto simp: ended_by_def split: option.splits)
    from True "2.prems"(2) obtain u where ok: "map_join_result (wt_result t) = Ok u"
      and rec: "drive_until_timer deadline (max now (the (wt_end t))) ts = (Ok b, rest, now')"
      by (auto simp: Let_def split: sum.splits)
    have "in_order ts" using "2.prems"(3) by simp
    from "2.IH" [OF True refl ok _ rec this] obtain pre where
      "ts = pre @ rest" "\<forall>u \<in> set pre. ended_by deadline u \<and> task_failure u = None"
      "\<forall>u \<in> set rest. \<not> ended_by deadline u" "now' \<le> max (max now (the (wt_end t))) deadline" "rest \<noteq> [] \<longrightarrow> now' = deadline" by blast
    with True ok fin show ?thesis by (intro "2.prems"(1) [of "t # pre"]) (auto simp: task_failure_simps)
  next
    case False
    with "2.prems"(3) have "\<forall>u \<in> set ts. \<not> ended_by deadline u" using ended_by_order by auto
    with False "2.prems" show ?thesis by (intro "2.prems"(1) [of "[]"]) auto
  qed
qed simp

lemma drain_Ok: "drain_workloads now ts = Ok () \<longleftrightarrow> (\<forall>t \<in> set ts. ended_by now t \<longrightarrow> task_failure t = None)"
  by (induction ts) (auto simp: result_iffs task_failure_simps)

lemma drain_Err:
  assumes "drain_workloads now ts = Err e"
  obtains pre t rest where "ts = pre @ t # rest" "ended_by now t" "task_failure t = Some e"
    "\<forall>u \<in> set pre. ended_by now u \<longrightarrow> task_failure u = None"
  using assms
proof (induction ts arbitrary: thesis)
  case (Cons t ts)
  show ?case
  proof (cases "ended_by now t \<and> task_failure t \<noteq> None")
    case True
    with Cons.prems show ?thesis by (intro Cons.prems(1) [of "[]" t ts]) (auto simp: task_failure_simps result_iffs)
  next
    case False
    then have "map_join_result (if ended_by now t then wt_result t else JoinCancelled) = Ok ()"
      by (auto simp: task_failure_simps)
    with Cons.prems(2) have "drain_workloads now ts = Err e" by simp
    from Cons.IH [OF _ this] obtain pre u rest where "ts = pre @ u # rest" "ended_by now u" "task_failure u = Some e"
      "\<forall>v \<in> set pre. ended_by now v \<longrightarrow> task_failure v = None" by blast
    with False show ?thesis by (intro Cons.prems(1) [of "t # pre" u rest]) auto
  qed
qed simp

text \<open>
  The verdict on a set of tasks that are listened to until \<open>limit\<close>: success if none of them failed by
  then, else the failure of the first one in the order of their ends.
\<close>

definition judged :: "nat \<Rightarrow> workload_task list \<Rightarrow> scenario_error + unit \<Rightarrow> bool" where
  "judged limit ts r \<longleftrightarrow>
     (case r of
        Inr _ \<Rightarrow> \<forall>t \<in> set ts. ended_by limit t \<longrightarrow> task_failure t = None
      | Inl e \<Rightarrow> \<exists>pre t rest. ts = pre @ t # rest \<and> ended_by limit t \<and> task_failure t = Some e \<and>
          (\<forall>u \<in> set pre. ended_by limit u \<longrightarrow> task_failure u = None))"

lemma judged_ErrI:
  assumes "ts = pre @ t # rest" "ended_by limit t" "task_failure t = Some e"
    "\<forall>u \<in> set pre. ended_by limit u \<longrightarrow> task_failure u = None"
  shows "judged limit ts (Err e)"
  unfolding judged_def sum.case using assms by blast

lemma judged_drain: "judged limit ts (drain_workloads limit ts)"
proof (cases "drain_workloads limit ts")
  case (Inl e)
  then have "judged limit ts (Err e)" by (elim drain_Err) (rule judged_ErrI)
  with Inl show ?thesis by simp
next
  case (Inr u)
  with drain_Ok [of limit ts] show ?thesis by (simp add: judged_def)
qed

lemma judged_append:
  assumes "\<forall>u \<in> set pre. task_failure u = None" "judged limit rest r"
  shows "judged limit (pre @ rest) r"
proof (cases r)
  case (Inl e)
  with assms(2) obtain p t q where "rest = p @ t # q" "ended_by limit t" "task_failure t = Some e"
    "\<forall>u \<in> set p. ended_by limit u \<longrightarrow> task_failure u = None" by (auto simp: judged_def)
  with assms(1) show ?thesis unfolding Inl by (intro judged_ErrI [of _ "pre @ p" t q]) auto
qed (use assms in \<open>auto simp: judged_def\<close>)

lemma judged_stop:
  assumes "drive_until_timer deadline now ts = (Err e, rest, now')" "deadline \<le> limit"
  shows "judged limit ts (Err e)"
  using assms(1)
proof (rule drive_Err)
  fix pre t
  assume "ts = pre @ t # rest" "ended_by deadline t" "task_failure t = Some e" "\<forall>u \<in> set pre. task_failure u = None"
  moreover have "ended_by limit t" using \<open>ended_by deadline t\<close> assms(2) by (auto simp: ended_by_def split: option.splits)
  ultimately show ?thesis by (intro judged_ErrI) auto
qed

definition window :: "duration option \<Rightarrow> duration \<Rightarrow> nat \<Rightarrow> nat" where
  "window cd duration lag = duration + (case cd of None \<Rightarrow> 0 | Some c \<Rightarrow> c) + lag"

lemma run_workloads_spec:
  assumes "cooldown_duration ctx = Some cd"
  obtains r now where "run_workloads ctx behaviour duration lag = (Some r, now)" "now \<le> window cd duration lag"
    "judged (window cd duration lag) (spawn_workloads behaviour) r"
proof (cases "behaviour = []")
  case True
  with assms show ?thesis
    by (intro that [of "Ok ()" "duration + (case cd of None \<Rightarrow> 0 | Some c \<Rightarrow> c)"])
      (simp_all add: run_workloads_def window_def judged_def set_spawn)
next
  case False
  let ?ts = "spawn_workloads behaviour" and ?w = "window cd duration lag"
  obtain r rest now where d: "drive_until_timer duration 0 ?ts = (r, rest, now)" by (metis prod_cases3)
  show ?thesis
  proof (cases r)
    case (Inl e)
    from d Inl have now: "now \<le> max 0 duration" by (auto elim: drive_Err)
    with judged_stop [of duration 0 ?ts e rest now ?w] d Inl False show ?thesis
      by (intro that [of "Err e" now]) (simp_all add: run_workloads_def window_def)
  next
    case (Inr b)
    obtain pre where pre: "?ts = pre @ rest" "\<forall>u \<in> set pre. task_failure u = None" "now \<le> duration" "rest \<noteq> [] \<longrightarrow> now = duration"
      by (rule drive_Ok [OF d [unfolded Inr] spawn_in_order]) (simp_all add: that)
    have quiet: "judged ?w ?ts (drain_workloads (k + lag) rest)" if "rest \<noteq> [] \<longrightarrow> k + lag = ?w" for k
    proof (cases "rest = []")
      case True
      with pre(1,2) judged_append [of pre ?w "[]" "Ok ()"] show ?thesis by (simp add: judged_def)
    next
      case False
      with that pre(1,2) judged_append [OF pre(2) judged_drain] show ?thesis by simp
    qed
    consider (none) "cd = None \<or> cd = Some 0" | (some) c where "cd = Some c" "0 < c" by (cases cd) auto
    then show ?thesis
    proof cases
      case none
      with d Inr False assms pre quiet [of now] show ?thesis
        by (intro that [of "drain_workloads (now + lag) rest" "now + lag"]) (auto simp: run_workloads_def window_def)
    next
      case (some c)
      show ?thesis
      proof (cases "rest = []")
        case True
        with some d Inr False assms pre quiet [of "now + c"] show ?thesis
          by (intro that [of "drain_workloads (now + c + lag) rest" "now + c + lag"]) (auto simp: run_workloads_def window_def)
      next
        case ne: False
        then have at_timer: "now = duration" using pre(4) by simp
        obtain r2 rest2 now2 where d2: "drive_until_timer (duration + c) duration rest = (r2, rest2, now2)" by (metis prod_cases3)
        have ord: "in_order rest" using spawn_in_order [of behaviour] by (simp add: pre(1) sorted_wrt_append)
        show ?thesis
        proof (cases r2)
          case (Inl e)
          from d2 Inl have "now2 \<le> max duration (duration + c)" by (auto elim: drive_Err)
          moreover have "judged ?w rest (Err e)"
            by (rule judged_stop [OF d2 [unfolded Inl]]) (use some in \<open>simp add: window_def\<close>)
          ultimately show ?thesis
            using some d \<open>r = Ok b\<close> False assms ne d2 Inl judged_append [OF pre(2)] pre(1)
            by (intro that [of "Err e" now2]) (auto simp: run_workloads_def window_def at_timer)
        next
          case (Inr b2)
          obtain pre2 where p2: "rest = pre2 @ rest2" "\<forall>u \<in> set pre2. task_failure u = None" "now2 \<le> duration + c"
            "rest2 \<noteq> [] \<longrightarrow> now2 = duration + c"
            by (rule drive_Ok [OF d2 [unfolded Inr] ord]) (simp_all add: that)
          have "judged ?w rest (drain_workloads (now2 + lag) rest2)"
          proof (cases "rest2 = []")
            case True
            with p2(1,2) judged_append [of pre2 ?w "[]" "Ok ()"] show ?thesis by (simp add: judged_def)
          next
            case False
            with p2 some(1) judged_append [OF p2(2) judged_drain, of ?w rest2] show ?thesis by (simp add: window_def)
          qed
          with judged_append [OF pre(2)] pre(1) some d \<open>r = Ok b\<close> False assms ne d2 Inr p2(3) show ?thesis
            by (intro that [of "drain_workloads (now2 + lag) rest2" "now2 + lag"]) (auto simp: run_workloads_def window_def at_timer)
        qed
      qed
    qed
  qed
qed

lemma prepare_spec:
  assumes "prepare_expectations capture i es evs = (r, evs')"
  obtains k where "k \<le> length es" "evs' = evs @ map EvCapture [i..<i + k]"
    "\<And>es'. r = Some (Ok es') \<Longrightarrow> k = length es \<and> list_all2 (\<lambda>e e'. capture e = Some (Ok e')) es es'"
    "(\<nexists>es'. r = Some (Ok es')) \<Longrightarrow> \<exists>e \<in> set es. \<nexists>e'. capture e = Some (Ok e')"
  using assms
proof (induction es arbitrary: i evs r evs' thesis)
  case (Cons e es)
  show ?case
  proof (cases "\<exists>e'. capture e = Some (Ok e')")
    case True
    then obtain e' where e': "capture e = Some (Ok e')" by blast
    obtain q evs2 where q: "prepare_expectations capture (Suc i) es (evs @ [EvCapture i]) = (q, evs2)" by (metis surj_pair)
    with Cons.prems(2) e' have r: "r = map_option (\<lambda>x. and_then x (\<lambda>es'. Ok (e' # es'))) q" "evs' = evs2" by simp_all
    obtain k where k: "k \<le> length es" "evs2 = (evs @ [EvCapture i]) @ map EvCapture [Suc i..<Suc i + k]"
      "\<And>es'. q = Some (Ok es') \<Longrightarrow> k = length es \<and> list_all2 (\<lambda>e e'. capture e = Some (Ok e')) es es'"
      "(\<nexists>es'. q = Some (Ok es')) \<Longrightarrow> \<exists>e \<in> set es. \<nexists>e'. capture e = Some (Ok e')"
      using Cons.IH [OF _ q] by blast
    have up: "[i..<i + Suc k] = i # [Suc i..<Suc i + k]" by (simp add: upt_rec)
    show ?thesis
    proof (rule Cons.prems(1) [of "Suc k"])
      show "evs' = evs @ map EvCapture [i..<i + Suc k]" unfolding up using k(2) r(2) by simp
      show "\<exists>x \<in> set (e # es). \<nexists>e'. capture x = Some (Ok e')" if "\<nexists>es'. r = Some (Ok es')"
      proof -
        have "\<nexists>es'. q = Some (Ok es')" using that r(1) by auto
        with k(4) show ?thesis by auto
      qed
    qed (use k(1,3) e' r(1) in \<open>auto simp: result_iffs\<close>)
  next
    case False
    then have none: "\<nexists>es'. r = Some (Ok es')" "evs' = evs @ [EvCapture i]"
      using Cons.prems(2) by (auto split: option.splits sum.splits)
    with False show ?thesis by (intro Cons.prems(1) [of 1]) auto
  qed
qed auto

lemma prepare_error: "prepare_expectations capture i es evs = (Some (Err x), evs') \<Longrightarrow> \<exists>msg. x = ExpectationCapture msg"
  by (induction es arbitrary: i evs evs') (auto simp: result_iffs split: option.splits sum.splits prod.splits)

definition failures :: "('e \<Rightarrow> (string + unit) option) \<Rightarrow> ('e \<Rightarrow> string) \<Rightarrow> 'e list \<Rightarrow> (string \<times> string) list" where
  "failures evaluate name_of es =
     concat (map (\<lambda>e. case evaluate e of Some (Inl err) \<Rightarrow> [(name_of e, err)] | _ \<Rightarrow> []) es)"

lemma failures_Nil: "(\<forall>e \<in> set es. evaluate e \<noteq> None) \<Longrightarrow>
    failures evaluate name_of es = [] \<longleftrightarrow> (\<forall>e \<in> set es. evaluate e = Some (Ok ()))"
  by (induction es) (auto simp: failures_def split: option.splits sum.splits)

lemma collect_failures_spec:
  assumes "collect_failures evaluate name_of i es evs = (fs, evs')"
  obtains k where "k \<le> length es" "evs' = evs @ map EvEvaluate [i..<i + k]"
    "\<And>l. fs = Some l \<Longrightarrow> k = length es \<and> l = failures evaluate name_of es \<and> (\<forall>e \<in> set es. evaluate e \<noteq> None)"
    "fs = None \<Longrightarrow> \<exists>e \<in> set es. evaluate e = None"
  using assms
proof (induction es arbitrary: i evs fs evs' thesis)
  case Nil
  then show ?case by (auto simp: failures_def)
next
  case (Cons e es)
  show ?case
  proof (cases "evaluate e")
    case None
    with Cons.prems show ?thesis by (intro Cons.prems(1) [of 1]) auto
  next
    case (Some r)
    obtain gs evs2 where q: "collect_failures evaluate name_of (Suc i) es (evs @ [EvEvaluate i]) = (gs, evs2)" by (metis surj_pair)
    with Cons.prems(2) Some have fs: "fs = map_option (\<lambda>fs. case r of Inl err \<Rightarrow> (name_of e, err) # fs | Inr _ \<Rightarrow> fs) gs"
      "evs' = evs2" by simp_all
    obtain k where k: "k \<le> length es" "evs2 = (evs @ [EvEvaluate i]) @ map EvEvaluate [Suc i..<Suc i + k]"
      "\<And>l. gs = Some l \<Longrightarrow> k = length es \<and> l = failures evaluate name_of es \<and> (\<forall>e \<in> set es. evaluate e \<noteq> None)"
      "gs = None \<Longrightarrow> \<exists>e \<in> set es. evaluate e = None"
      using Cons.IH [OF _ q] by blast
    have up: "[i..<i + Suc k] = i # [Suc i..<Suc i + k]" by (simp add: upt_rec)
    show ?thesis
    proof (rule Cons.prems(1) [of "Suc k"])
      show "evs' = evs @ map EvEvaluate [i..<i + Suc k]" unfolding up using k(2) fs(2) by simp
      show "Suc k = length (e # es) \<and> l = failures evaluate name_of (e # es) \<and> (\<forall>x \<in> set (e # es). evaluate x \<noteq> None)"
        if "fs = Some l" for l
        using k(3) that fs(1) Some by (cases gs) (auto simp: failures_def split: sum.splits)
    qed (use k(1,4) fs(1) in auto)
  qed
qed

lemma runner_new_sel [simp]: "rn_cleanup_guard (runner_new ctx guard) = guard" "rn_context (runner_new ctx guard) = ctx"
  by (simp_all add: runner_new_def)

lemma cleanup_drop:
  "fail_run r evs = evs @ (if rn_cleanup_guard r then [EvCleanup] else [])"
  "runner_drop r evs = evs @ (if rn_cleanup_guard r then [EvCleanup] else [])"
  by (simp_all add: fail_run_def runner_drop_def cleanup_def)

text \<open>The log of a run that reaches its end, without the clean-up.\<close>

definition phases :: "nat \<Rightarrow> nat \<Rightarrow> run_event list" where
  "phases expectations workloads =
     map EvCapture [0..<expectations] @ map EvSpawn [0..<workloads] @ map EvEvaluate [0..<expectations]"

text \<open>A run either stops after a part of its phases, with the guard run, or hands the guard over.\<close>

lemma run_log_evaluation:
  assumes p: "prepare_expectations capture 0 es [] = (Some (Ok es'), map EvCapture [0..<length es])" "length es' = length es"
    and w: "fst (run_workloads ctx behaviour duration lag) = Some (Ok ())"
  obtains (stopped) result k where
      "run capture evaluate name_of behaviour lag duration es (runner_new ctx guard) =
        (result, take k (phases (length es) (length behaviour)) @ (if guard then [EvCleanup] else []))"
      "\<forall>h. result \<noteq> Some (Ok h)"
  | (finished) "run capture evaluate name_of behaviour lag duration es (runner_new ctx guard) =
        (Some (Ok (from_shared ctx guard)), phases (length es) (length behaviour))"
proof -
  let ?r = "runner_new ctx guard" and ?n = "length es" and ?w = "length behaviour"
  let ?spawned = "map EvCapture [0..<?n] @ map EvSpawn [0..<?w]"
  obtain fs evs where c: "collect_failures evaluate name_of 0 es' ?spawned = (fs, evs)" by (metis surj_pair)
  obtain j where j: "j \<le> length es'" "evs = ?spawned @ map EvEvaluate [0..<j]" "\<And>l. fs = Some l \<Longrightarrow> j = length es'"
    using c by (rule collect_failures_spec) (simp add: that)
  have evs: "evs = take (?n + ?w + j) (phases ?n ?w)" using j(1,2) p(2) by (simp add: phases_def take_map min_def)
  show ?thesis
  proof (cases "fs = Some []")
    case True
    then have "run capture evaluate name_of behaviour lag duration es ?r = (Some (Ok (from_shared ctx guard)), evs)"
      using w p c by (simp add: run_def run_expectations_def into_run_handle_def cleanup_drop)
    moreover have "evs = phases ?n ?w" using j(2,3) True p(2) by (simp add: phases_def)
    ultimately show ?thesis by (intro finished) simp
  next
    case False
    then show ?thesis
      using w p c by (cases fs) (rule stopped [of _ "?n + ?w + j"], auto simp: run_def run_expectations_def cleanup_drop evs)+
  qed
qed

lemma run_log_shape:
  obtains (stopped) result k where
      "run capture evaluate name_of behaviour lag duration es (runner_new ctx guard) =
        (result, take k (phases (length es) (length behaviour)) @ (if guard then [EvCleanup] else []))"
      "\<forall>h. result \<noteq> Some (Ok h)"
  | (finished) "run capture evaluate name_of behaviour lag duration es (runner_new ctx guard) =
        (Some (Ok (from_shared ctx guard)), phases (length es) (length behaviour))"
proof -
  let ?r = "runner_new ctx guard" and ?n = "length es" and ?w = "length behaviour"
  obtain p evs where p: "prepare_expectations capture 0 es [] = (p, evs)" by (metis surj_pair)
  obtain k where k: "k \<le> ?n" "evs = map EvCapture [0..<k]"
    "\<And>es'. p = Some (Ok es') \<Longrightarrow> k = ?n \<and> list_all2 (\<lambda>e e'. capture e = Some (Ok e')) es es'"
    using p by (rule prepare_spec) (simp add: that)
  consider (none) "p = None" | (err) e where "p = Some (Err e)" | (ok) es' where "p = Some (Ok es')"
    by (metis option.exhaust sum.exhaust)
  then show ?thesis
  proof cases
    case ok
    with k have evs: "length es' = ?n" "evs = map EvCapture [0..<?n]" by (auto dest: list_all2_lengthD)
    have spawned: "evs @ map EvSpawn [0..<?w] = take (?n + ?w) (phases ?n ?w)" by (simp add: phases_def evs)
    consider "fst (run_workloads ctx behaviour duration lag) = None"
      | e where "fst (run_workloads ctx behaviour duration lag) = Some (Err e)"
      | "fst (run_workloads ctx behaviour duration lag) = Some (Ok ())"
      by (metis option.exhaust sum.exhaust old.unit.exhaust)
    then show ?thesis
    proof cases
      case 1
      with p ok spawned show ?thesis by (intro stopped [of None "?n + ?w"]) (simp_all add: run_def cleanup_drop)
    next
      case (2 e)
      with p ok spawned show ?thesis by (intro stopped [of "Some (Err e)" "?n + ?w"]) (simp_all add: run_def cleanup_drop)
    next
      case 3
      from p [unfolded ok evs(2)] evs(1) 3 show ?thesis by (rule run_log_evaluation) (fact stopped finished)+
    qed
  next
    case none
    with p k(1,2) show ?thesis
      by (intro stopped [of None k]) (simp_all add: run_def cleanup_drop phases_def take_map min_def)
  next
    case (err e)
    with p k(1,2) show ?thesis
      by (intro stopped [of "Some (Err e)" k]) (simp_all add: run_def cleanup_drop phases_def take_map min_def)
  qed
qed

section \<open>Properties\<close>

text \<open>
  Property C2.  A run goes through its phases in order and cleans up exactly once.  Whatever the
  workloads and expectations do, also when they panic, what happens is a beginning of: start the
  capture of every expectation, spawn every workload, evaluate every expectation; and the clean-up
  guard runs once, after all of it, at the latest when the returned handle is dropped.  A run that
  succeeds has gone through all phases and has not yet cleaned up: the handle owns the guard.
\<close>

theorem run_phases_and_cleanup:
  "let (result, evs) = run capture evaluate name_of behaviour lag duration es (runner_new ctx guard);
       dropped = (case result of Some (Inr h) \<Rightarrow> run_handle_drop h evs | _ \<Rightarrow> evs)
   in \<exists>k. dropped = take k (phases (length es) (length behaviour)) @ (if guard then [EvCleanup] else []) \<and>
     (\<forall>h. result = Some (Ok h) \<longrightarrow> evs = phases (length es) (length behaviour) \<and> h = from_shared ctx guard)"
proof (rule run_log_shape [of capture evaluate name_of behaviour lag duration es ctx guard])
  fix result k
  assume "run capture evaluate name_of behaviour lag duration es (runner_new ctx guard) =
      (result, take k (phases (length es) (length behaviour)) @ (if guard then [EvCleanup] else []))"
    and "\<forall>h. result \<noteq> Some (Ok h)"
  then show ?thesis by (auto split: option.splits sum.splits)
next
  assume "run capture evaluate name_of behaviour lag duration es (runner_new ctx guard) =
      (Some (Ok (from_shared ctx guard)), phases (length es) (length behaviour))"
  then show ?thesis
    by (auto simp: run_handle_drop_def from_shared_def intro!: exI [of _ "length (phases (length es) (length behaviour))"])
qed

definition demo_ctx :: run_context where
  "demo_ctx = \<lparr>rctx_descriptors = demo_topology,
     rctx_metrics = \<lparr>rm_run_duration = from_secs 60, rm_expected_blocks = 0, rm_block_interval_hint = None\<rparr>,
     rctx_node_control = True\<rparr>"

theorem run_phases_and_cleanup_witness:
  "\<exists>evs k. run (\<lambda>e. None) (\<lambda>_. Some (Ok ())) (\<lambda>e. e) [] 0 (from_secs 60) [''liveness''] (runner_new demo_ctx True) = (None, evs) \<and>
     evs = take k (phases 1 0) @ [EvCleanup] \<and> EvCapture 0 \<in> set evs"
proof -
  have "run (\<lambda>e. None) (\<lambda>_. Some (Ok ())) (\<lambda>e. e) [] 0 (from_secs 60) [''liveness''] (runner_new demo_ctx True) =
      (None, [EvCapture 0, EvCleanup])" by (simp add: run_def cleanup_drop)
  with run_phases_and_cleanup [of "\<lambda>e. None" "\<lambda>_. Some (Ok ())" "\<lambda>e. e" "[]" 0 "from_secs 60" "[''liveness'']" demo_ctx True]
  show ?thesis by auto
qed

text \<open>A workload of the scenario that fails by the given time.\<close>

definition fails_by :: "nat \<Rightarrow> nat option \<times> workload_end \<Rightarrow> bool" where
  "fails_by limit b \<longleftrightarrow> (case fst b of None \<Rightarrow> False | Some fin \<Rightarrow> fin \<le> limit \<and> \<not> is_ok (task_outcome (snd b)))"

lemma spawned_failure:
  assumes "t = \<lparr>wt_end = fin, wt_result = Joined (task_outcome w)\<rparr>"
  shows "ended_by limit t \<and> task_failure t \<noteq> None \<longleftrightarrow> fails_by limit (fin, w)"
    "task_failure t = Some (WorkloadFailure e) \<longleftrightarrow> task_outcome w = Err e"
  using assms by (cases "task_outcome w"; auto simp: fails_by_def ended_by_def task_failure_def split: option.splits)+

lemma judged_failure:
  assumes "judged limit (spawn_workloads behaviour) (Err x)"
  shows "\<exists>fin w e. (Some fin, w) \<in> set behaviour \<and> fin \<le> limit \<and> task_outcome w = Err e \<and> x = WorkloadFailure e \<and>
       (\<forall>fin' w'. (Some fin', w') \<in> set behaviour \<and> fin' < fin \<longrightarrow> is_ok (task_outcome w'))"
proof -
  from assms obtain pre t rest where ts: "spawn_workloads behaviour = pre @ t # rest"
    and t: "ended_by limit t" "task_failure t = Some x" and pre: "\<forall>u \<in> set pre. ended_by limit u \<longrightarrow> task_failure u = None"
    by (auto simp: judged_def)
  from ts have "t \<in> set (spawn_workloads behaviour)" by simp
  then obtain fin w where w: "(fin, w) \<in> set behaviour" "t = \<lparr>wt_end = fin, wt_result = Joined (task_outcome w)\<rparr>"
    by (auto simp: set_spawn)
  from t(1) w(2) obtain f where f: "fin = Some f" "f \<le> limit" by (auto simp: ended_by_def split: option.splits)
  from t(2) w(2) obtain e where e: "task_outcome w = Err e" "x = WorkloadFailure e"
    by (auto simp: task_failure_simps map_err_eq_Err)
  have "is_ok (task_outcome w')" if "(Some f', w') \<in> set behaviour" "f' < f" for f' w'
  proof -
    let ?u = "\<lparr>wt_end = Some f', wt_result = Joined (task_outcome w')\<rparr>"
    have "?u \<in> set (pre @ t # rest)" using that(1) unfolding ts [symmetric] set_spawn by force
    moreover have "\<forall>v \<in> set rest. not_later (wt_end t) (wt_end v)"
      using spawn_in_order [of behaviour] by (simp add: ts sorted_wrt_append)
    ultimately have "?u \<in> set pre" using that(2) f w(2) by auto
    with pre have "task_failure ?u = None" using that(2) f(2) by (simp add: ended_by_def)
    then show ?thesis by (cases "task_outcome w'") (simp_all add: task_failure_def)
  qed
  with w f e show ?thesis by blast
qed

lemma judged_success:
  assumes "judged limit (spawn_workloads behaviour) r"
  shows "r = Ok () \<longleftrightarrow> (\<forall>b \<in> set behaviour. \<not> fails_by limit b)"
proof (cases r)
  case (Inl x)
  with assms judged_failure obtain fin w e where
    "(Some fin, w) \<in> set behaviour" "fin \<le> limit" "task_outcome w = Err e" by blast
  then have "fails_by limit (Some fin, w)" by (simp add: fails_by_def)
  with Inl \<open>(Some fin, w) \<in> set behaviour\<close> show ?thesis by auto
next
  case (Inr u)
  with assms have "\<forall>t \<in> set (spawn_workloads behaviour). \<not> (ended_by limit t \<and> task_failure t \<noteq> None)" by (auto simp: judged_def)
  with Inr show ?thesis unfolding set_spawn using spawned_failure(1) by fastforce
qed

text \<open>The result of a run, by what the captures answered.\<close>

lemma run_result_cases:
  obtains (capture) "\<exists>e \<in> set es. \<nexists>e'. capture e = Some (Ok e')"
      "\<forall>h. fst (run capture evaluate name_of behaviour lag duration es (runner_new ctx guard)) \<noteq> Some (Ok h)"
      "\<forall>x. fst (run capture evaluate name_of behaviour lag duration es (runner_new ctx guard)) \<noteq> Some (Err (WorkloadFailure x))"
  | (captured) es' where "list_all2 (\<lambda>e e'. capture e = Some (Ok e')) es es'"
      "fst (run capture evaluate name_of behaviour lag duration es (runner_new ctx guard)) =
        (case fst (run_workloads ctx behaviour duration lag) of
           None \<Rightarrow> None
         | Some (Inl err) \<Rightarrow> Some (Err err)
         | Some (Inr _) \<Rightarrow>
             if \<exists>e \<in> set es'. evaluate e = None then None
             else if failures evaluate name_of es' = [] then Some (Ok (from_shared ctx guard))
             else Some (Err (ExpectationsFailed (join [CHR 0x0A] (map (\<lambda>(n, s). n @ '': '' @ s) (failures evaluate name_of es'))))))"
proof -
  obtain p evs where p: "prepare_expectations capture 0 es [] = (p, evs)" by (metis surj_pair)
  show ?thesis
  proof (cases "\<exists>es'. p = Some (Ok es')")
    case False
    have "\<exists>e \<in> set es. \<nexists>e'. capture e = Some (Ok e')" using p by (rule prepare_spec) (use False in blast)
    moreover have "p \<noteq> Some (Err (WorkloadFailure x))" for x using p prepare_error [of capture 0 es "[]" "WorkloadFailure x" evs] by auto
    ultimately show ?thesis using False p by (intro capture) (auto simp: run_def split: option.splits sum.splits)
  next
    case True
    then obtain es' where es': "p = Some (Ok es')" by blast
    have cap: "list_all2 (\<lambda>e e'. capture e = Some (Ok e')) es es'" using p by (rule prepare_spec) (use es' in blast)
    let ?evs = "evs @ map EvSpawn [0..<length behaviour]"
    obtain fs evs2 where c: "collect_failures evaluate name_of 0 es' ?evs = (fs, evs2)" by (metis surj_pair)
    have fs: "fs = (if \<exists>e \<in> set es'. evaluate e = None then None else Some (failures evaluate name_of es'))"
      using c by (rule collect_failures_spec) (cases fs; auto)
    show ?thesis
      by (rule captured [OF cap])
        (auto simp: run_def p es' Let_def run_expectations_def c fs into_run_handle_def split: option.splits sum.splits)
  qed
qed

lemma captured_unique:
  "list_all2 (\<lambda>e e'. capture e = Some (Ok e')) es es' \<Longrightarrow> list_all2 (\<lambda>e e'. capture e = Some (Ok e')) es es'' \<Longrightarrow> es'' = es'"
proof (induction arbitrary: es'' rule: list_all2_induct)
  case (Cons x xs y ys)
  from Cons.prems obtain z zs where z: "es'' = z # zs" "capture x = Some (Ok z)" "list_all2 (\<lambda>e e'. capture e = Some (Ok e')) xs zs"
    by (auto simp: list_all2_Cons1)
  from Cons.IH [OF z(3)] Cons.hyps(1) z(1,2) show ?case by simp
qed simp

lemma captured_ball:
  "list_all2 (\<lambda>e e'. capture e = Some (Ok e')) es es' \<Longrightarrow>
     (\<forall>e \<in> set es. \<exists>e'. capture e = Some (Ok e') \<and> P e') \<longleftrightarrow> (\<forall>e' \<in> set es'. P e')"
  by (induction rule: list_all2_induct) auto

text \<open>
  Property C33.  The verdict of a run.  The workload phase is listened to until the duration, the
  cooldown and the lag have passed.  The run succeeds exactly when every expectation starts its
  capture and later evaluates successfully and no workload fails by then; workloads that still run
  are cancelled and do not count.  A reported workload failure is the outcome, or the panic
  message, of a workload that failed earliest.  Otherwise all failing expectations, and only
  those, are reported together, in order, with their names.
\<close>

theorem run_verdict:
  assumes "cooldown_duration ctx = Some cd" "limit = window cd duration lag"
  shows "((\<exists>h. fst (run capture evaluate name_of behaviour lag duration es (runner_new ctx guard)) = Some (Ok h)) \<longleftrightarrow>
      (\<forall>e \<in> set es. \<exists>e'. capture e = Some (Ok e') \<and> evaluate e' = Some (Ok ())) \<and>
      (\<forall>b \<in> set behaviour. \<not> fails_by limit b)) \<and>
    (\<forall>x. fst (run capture evaluate name_of behaviour lag duration es (runner_new ctx guard)) = Some (Err (WorkloadFailure x)) \<longrightarrow>
      (\<exists>fin w. (Some fin, w) \<in> set behaviour \<and> fin \<le> limit \<and> task_outcome w = Err x \<and>
        (\<forall>fin' w'. (Some fin', w') \<in> set behaviour \<and> fin' < fin \<longrightarrow> is_ok (task_outcome w')))) \<and>
    (\<forall>es'. list_all2 (\<lambda>e e'. capture e = Some (Ok e')) es es' \<and> (\<forall>b \<in> set behaviour. \<not> fails_by limit b) \<and>
        (\<forall>e' \<in> set es'. evaluate e' \<noteq> None) \<and> failures evaluate name_of es' \<noteq> [] \<longrightarrow>
      fst (run capture evaluate name_of behaviour lag duration es (runner_new ctx guard)) =
        Some (Err (ExpectationsFailed (join [CHR 0x0A] (map (\<lambda>(n, s). n @ '': '' @ s) (failures evaluate name_of es'))))))"
proof -
  let ?run = "fst (run capture evaluate name_of behaviour lag duration es (runner_new ctx guard))"
  obtain r now where r: "run_workloads ctx behaviour duration lag = (Some r, now)" "judged limit (spawn_workloads behaviour) r"
    unfolding assms(2) by (rule run_workloads_spec [OF assms(1)])
  note wl = judged_success [OF r(2)]
  show ?thesis
  proof (cases rule: run_result_cases [of es capture evaluate name_of behaviour lag duration ctx guard])
    case capture
    have "\<not> list_all2 (\<lambda>e e'. capture e = Some (Ok e')) es es'" for es'
      using captured_ball [of capture es es' "\<lambda>_. True"] capture(1) by auto
    moreover have "\<not> (\<forall>e \<in> set es. \<exists>e'. capture e = Some (Ok e') \<and> evaluate e' = Some (Ok ()))" using capture(1) by blast
    ultimately show ?thesis using capture(2,3) by (intro conjI) (simp_all only: simp_thms)
  next
    case (captured es')
    note same = captured_unique [OF captured(1)] and ball = captured_ball [OF captured(1), of "\<lambda>e'. evaluate e' = Some (Ok ())"]
    show ?thesis
    proof (cases r)
      case (Inl x)
      with captured(2) r(1) have run: "?run = Some (Err x)" by simp
      from wl Inl have "\<not> (\<forall>b \<in> set behaviour. \<not> fails_by limit b)" by simp
      moreover from r(2) Inl have "judged limit (spawn_workloads behaviour) (Err x)" by simp
      note judged_failure [OF this]
      ultimately show ?thesis unfolding run by (intro conjI) (simp, blast, blast)
    next
      case (Inr u)
      with wl have fine: "\<forall>b \<in> set behaviour. \<not> fails_by limit b" by simp
      from Inr r(1) captured(2) have run: "?run = (if \<exists>e \<in> set es'. evaluate e = None then None
          else if failures evaluate name_of es' = [] then Some (Ok (from_shared ctx guard))
          else Some (Err (ExpectationsFailed (join [CHR 0x0A] (map (\<lambda>(n, s). n @ '': '' @ s) (failures evaluate name_of es'))))))"
        by simp
      have "(\<exists>h. ?run = Some (Ok h)) \<longleftrightarrow> (\<forall>e' \<in> set es'. evaluate e' = Some (Ok ()))"
        unfolding run using failures_Nil [of es' evaluate name_of] by auto
      with fine ball have "(\<exists>h. ?run = Some (Ok h)) \<longleftrightarrow>
        (\<forall>e \<in> set es. \<exists>e'. capture e = Some (Ok e') \<and> evaluate e' = Some (Ok ())) \<and> (\<forall>b \<in> set behaviour. \<not> fails_by limit b)"
        by blast
      moreover have "?run \<noteq> Some (Err (WorkloadFailure x))" for x unfolding run by simp
      moreover have "?run = Some (Err (ExpectationsFailed (join [CHR 0x0A] (map (\<lambda>(n, s). n @ '': '' @ s) (failures evaluate name_of es'')))))"
        if "list_all2 (\<lambda>e e'. capture e = Some (Ok e')) es es''" "\<forall>e' \<in> set es''. evaluate e' \<noteq> None" "failures evaluate name_of es'' \<noteq> []" for es''
        unfolding run using that(2,3) unfolding same [OF that(1)] by simp
      ultimately show ?thesis by blast
    qed
  qed
qed

lemma demo_cooldown: "cooldown_duration demo_ctx = Some (Some (from_secs 30))"
  by (simp add: cooldown_duration_def demo_ctx_def min_node_control_cooldown_def)

text \<open>One workload never ends, one ends well, one panics during the cooldown.\<close>

theorem run_verdict_witness:
  "(\<exists>h. fst (run (\<lambda>e. Some (Ok e)) (\<lambda>_. Some (Ok ())) (\<lambda>e. e)
      [(None, Returned (Ok ())), (Some (from_secs 5), Returned (Ok ()))] 0 (from_secs 60) [''liveness''] (runner_new demo_ctx True))
     = Some (Ok h)) \<and>
   (\<nexists>h. fst (run (\<lambda>e. Some (Ok e)) (\<lambda>_. Some (Ok ())) (\<lambda>e. e)
      [(Some (from_secs 80), Panicked PanicOther)] 0 (from_secs 60) [''liveness''] (runner_new demo_ctx True)) = Some (Ok h))"
proof -
  have w: "window (Some (from_secs 30)) (from_secs 60) 0 = from_secs 90" by (simp add: window_def from_secs_def)
  note verdict = run_verdict [OF demo_cooldown, of "from_secs 90" "from_secs 60" 0 "\<lambda>e. Some (Ok e)" "\<lambda>_. Some (Ok ())" "\<lambda>e. e" _ "[''liveness'']" True]
  from verdict [of "[(None, Returned (Ok ())), (Some (from_secs 5), Returned (Ok ()))]"]
    verdict [of "[(Some (from_secs 80), Panicked PanicOther)]"] w
  show ?thesis by (simp add: fails_by_def)
qed

text \<open>
  Property C21.  The workload phase always ends: even if no workload ever returns, it yields a result
  no later than the duration, the cooldown and the lag, provided the cooldown is representable.
  With node control the cooldown is at least thirty seconds, unless the block interval hint is
  zero, in which case there is none.
\<close>

theorem run_workloads_bounded:
  assumes "cooldown_duration ctx = Some cd"
  shows "(\<exists>r now. run_workloads ctx behaviour duration lag = (Some r, now) \<and>
      now \<le> duration + (case cd of None \<Rightarrow> 0 | Some c \<Rightarrow> c) + lag) \<and>
    (cd = None \<longleftrightarrow> rm_block_interval_hint (rctx_metrics ctx) = Some 0 \<or>
       rm_block_interval_hint (rctx_metrics ctx) = None \<and> \<not> rctx_node_control ctx) \<and>
    (\<forall>c. cd = Some c \<and> rctx_node_control ctx \<longrightarrow> from_secs 30 \<le> c)"
proof -
  obtain r now where "run_workloads ctx behaviour duration lag = (Some r, now)" "now \<le> window cd duration lag"
    by (rule run_workloads_spec [OF assms])
  moreover have "(cd = None \<longleftrightarrow> rm_block_interval_hint (rctx_metrics ctx) = Some 0 \<or>
       rm_block_interval_hint (rctx_metrics ctx) = None \<and> \<not> rctx_node_control ctx) \<and>
    (\<forall>c. cd = Some c \<and> rctx_node_control ctx \<longrightarrow> from_secs 30 \<le> c)"
    using assms by (auto simp: cooldown_duration_def min_node_control_cooldown_def Let_def split: option.splits if_splits)
  ultimately show ?thesis by (auto simp: window_def)
qed

theorem run_workloads_bounded_witness:
  "\<exists>r now. run_workloads demo_ctx [(None, Returned (Ok ()))] (from_secs 60) 0 = (Some r, now) \<and> now \<le> from_secs 90"
proof -
  have "from_secs 60 + from_secs 30 = from_secs 90" by (simp add: from_secs_def)
  with run_workloads_bounded [OF demo_cooldown, of "[(None, Returned (Ok ()))]" "from_secs 60" 0] show ?thesis by auto
qed

end
