(* ===== verification/Config_Tree.thy ===== *)
theory Config_Tree
  imports Node_Configs
begin

text \<open>
  Serialized configurations and the in-place adjustments made to them
  (\<^verbatim>\<open>core/src/nodes/common/config/injection.rs\<close>).  A \<^verbatim>\<open>serde_yaml::Value\<close> and a \<^verbatim>\<open>serde_json::Value\<close> are
  both trees whose mappings have at most one entry per key; JSON objects have string keys only.
  The order of entries is not observed.
\<close>

section \<open>Trees\<close>

datatype tree =
  Null
| Boolean bool
| Number int
| Str string
| Sequence "tree list"
| Mapping "(tree \<times> tree) list"

fun is_mapping :: "tree \<Rightarrow> bool" where
  "is_mapping (Mapping _) = True"
| "is_mapping _ = False"

definition contains_key :: "string \<Rightarrow> (tree \<times> tree) list \<Rightarrow> bool" where
  "contains_key k m \<longleftrightarrow> map_of m (Str k) \<noteq> None"

text \<open>\<^verbatim>\<open>entry(k).or_insert_with(..)\<close>, and \<^verbatim>\<open>contains_key\<close> followed by \<^verbatim>\<open>insert\<close>.\<close>

definition or_insert :: "string \<Rightarrow> tree \<Rightarrow> (tree \<times> tree) list \<Rightarrow> (tree \<times> tree) list" where
  "or_insert k v m = (if contains_key k m then m else m @ [(Str k, v)])"

text \<open>\<^verbatim>\<open>get_mut(k)\<close> on a mapping, changing the value in place.\<close>

definition alter :: "string \<Rightarrow> (tree \<Rightarrow> tree) \<Rightarrow> (tree \<times> tree) list \<Rightarrow> (tree \<times> tree) list" where
  "alter k f m = map (\<lambda>(k', v). (k', if k' = Str k then f v else v)) m"

text \<open>\<^verbatim>\<open>as_mapping_mut\<close>: a change to the entries of a mapping; other values stay.\<close>

fun on_mapping :: "((tree \<times> tree) list \<Rightarrow> (tree \<times> tree) list) \<Rightarrow> tree \<Rightarrow> tree" where
  "on_mapping f (Mapping m) = Mapping (f m)"
| "on_mapping f v = v"

definition in_section :: "string \<Rightarrow> (tree \<Rightarrow> tree) \<Rightarrow> tree \<Rightarrow> tree" where
  "in_section k f = on_mapping (alter k f)"

text \<open>Reading along a path of keys.\<close>

fun get_path :: "string list \<Rightarrow> tree \<Rightarrow> tree option" where
  "get_path [] v = Some v"
| "get_path (k # ks) (Mapping m) = Option.bind (map_of m (Str k)) (get_path ks)"
| "get_path (k # ks) _ = None"

section \<open>Injected defaults\<close>

definition ensure_network_adapter :: "(tree \<times> tree) list \<Rightarrow> (tree \<times> tree) list" where
  "ensure_network_adapter cryptarchia =
     or_insert ''network_adapter_settings''
       (Mapping [(Str ''topic'', Str ''/cryptarchia/proto'')]) cryptarchia"

definition ensure_sync_defaults :: "(tree \<times> tree) list \<Rightarrow> (tree \<times> tree) list" where
  "ensure_sync_defaults cryptarchia =
     or_insert ''sync''
       (Mapping [(Str ''orphan'', Mapping [(Str ''max_orphan_cache_size'', Number 5)])]) cryptarchia"

definition ensure_ibd_bootstrap :: "(tree \<times> tree) list \<Rightarrow> (tree \<times> tree) list" where
  "ensure_ibd_bootstrap cryptarchia =
     alter ''bootstrap'' (on_mapping (or_insert ''ibd'' (Mapping [(Str ''peers'', Sequence [])]))) cryptarchia"

definition inject_ibd_into_cryptarchia :: "tree \<Rightarrow> tree" where
  "inject_ibd_into_cryptarchia =
     in_section ''cryptarchia'' (on_mapping (\<lambda>m.
       ensure_ibd_bootstrap (ensure_sync_defaults (ensure_network_adapter m))))"

definition normalize_ed25519_sigs :: "tree \<Rightarrow> tree" where
  "normalize_ed25519_sigs v = v"

text \<open>\<^verbatim>\<open>hex::decode\<close> belongs to another crate and is an argument.\<close>

definition blend_key_id ::
  "(string \<Rightarrow> u8 list option) \<Rightarrow> crypto \<Rightarrow> (tree \<times> tree) list \<Rightarrow> string option" where
  "blend_key_id hex_decode cr blend =
     (case map_of blend (Str ''non_ephemeral_signing_key'') of
        Some (Str key_str) \<Rightarrow>
          (case hex_decode key_str of
             Some raw \<Rightarrow> if length raw = 32
               then Some (key_id_for_preload_backend cr (EdKey (cr_ed_from_bytes cr raw))) else None
           | None \<Rightarrow> None)
      | _ \<Rightarrow> None)"

definition inject_blend_non_ephemeral_signing_key_id ::
  "(string \<Rightarrow> u8 list option) \<Rightarrow> crypto \<Rightarrow> tree \<Rightarrow> tree" where
  "inject_blend_non_ephemeral_signing_key_id hex_decode cr =
     in_section ''blend'' (on_mapping (\<lambda>blend.
       case blend_key_id hex_decode cr blend of
         None \<Rightarrow> blend
       | Some key_id \<Rightarrow> or_insert ''non_ephemeral_signing_key_id'' (Str key_id) blend))"

definition inject_chain_sync_protocol_name :: "tree \<Rightarrow> tree" where
  "inject_chain_sync_protocol_name =
     in_section ''deployment'' (in_section ''network''
       (on_mapping (or_insert ''chain_sync_protocol_name'' (Str ''/integration/nomos/cryptarchia/sync/1.0.0''))))"

section \<open>Conservative changes\<close>

text \<open>
  A change is conservative if every value found along a path that is not itself a mapping is found
  there unchanged afterwards, and mappings stay mappings.
\<close>

definition keeps_leaves :: "(tree \<Rightarrow> tree) \<Rightarrow> bool" where
  "keeps_leaves f \<longleftrightarrow> (\<forall>v ks w. get_path ks v = Some w \<longrightarrow>
     (\<exists>w'. get_path ks (f v) = Some w' \<and> is_mapping w' = is_mapping w \<and> (\<not> is_mapping w \<longrightarrow> w' = w)))"

lemma keeps_leavesD:
  "keeps_leaves f \<Longrightarrow> get_path ks v = Some w \<Longrightarrow>
     \<exists>w'. get_path ks (f v) = Some w' \<and> is_mapping w' = is_mapping w \<and> (\<not> is_mapping w \<longrightarrow> w' = w)"
  unfolding keeps_leaves_def by blast

lemma keeps_leaf: "keeps_leaves f \<Longrightarrow> get_path ks v = Some w \<Longrightarrow> \<not> is_mapping w \<Longrightarrow> get_path ks (f v) = Some w"
  using keeps_leavesD [of f ks v w] by auto

lemma keeps_leavesI:
  assumes "\<And>v. is_mapping (f v) = is_mapping v" "\<And>v. \<not> is_mapping v \<Longrightarrow> f v = v"
    and "\<And>m k ks w. get_path (k # ks) (Mapping m) = Some w \<Longrightarrow>
      \<exists>w'. get_path (k # ks) (f (Mapping m)) = Some w' \<and> is_mapping w' = is_mapping w \<and> (\<not> is_mapping w \<longrightarrow> w' = w)"
  shows "keeps_leaves f"
  unfolding keeps_leaves_def
proof (intro allI impI)
  fix v ks w
  assume path: "get_path ks v = Some w"
  show "\<exists>w'. get_path ks (f v) = Some w' \<and> is_mapping w' = is_mapping w \<and> (\<not> is_mapping w \<longrightarrow> w' = w)"
  proof (cases ks)
    case Nil
    with path assms(1,2) [of v] show ?thesis by auto
  next
    case (Cons k ks')
    with path obtain m where "v = Mapping m" by (cases v) auto
    with assms(3) path Cons show ?thesis by blast
  qed
qed

lemma map_of_or_insert:
  "map_of (or_insert k v m) x = (if x = Str k \<and> map_of m (Str k) = None then Some v else map_of m x)"
  by (auto simp: or_insert_def contains_key_def map_of_append map_add_def split: option.splits)

lemma map_of_alter: "map_of (alter k f m) x = (if x = Str k then map_option f (map_of m x) else map_of m x)"
  by (induction m) (auto simp: alter_def)

lemma is_mapping_on_mapping [simp]: "is_mapping (on_mapping f v) = is_mapping v"
  by (cases v) auto

lemma on_mapping_leaf: "\<not> is_mapping v \<Longrightarrow> on_mapping f v = v"
  by (cases v) auto

lemma keeps_leaves_id: "keeps_leaves (\<lambda>v. v)"
  by (auto simp: keeps_leaves_def)

lemma keeps_leaves_comp: "keeps_leaves f \<Longrightarrow> keeps_leaves g \<Longrightarrow> keeps_leaves (\<lambda>v. f (g v))"
  unfolding keeps_leaves_def by metis

lemma keeps_leaves_or_insert: "keeps_leaves (on_mapping (or_insert k v))"
  by (rule keeps_leavesI) (auto simp: on_mapping_leaf map_of_or_insert split: bind_splits)

lemma keeps_leaves_section: "keeps_leaves f \<Longrightarrow> keeps_leaves (in_section k f)"
  unfolding in_section_def
  by (rule keeps_leavesI) (auto simp: on_mapping_leaf map_of_alter keeps_leaves_def bind_eq_Some_conv)

lemma on_mapping_comp: "on_mapping f (on_mapping g v) = on_mapping (\<lambda>m. f (g m)) v"
  by (cases v) auto

lemma keeps_leaves_on_mapping_comp:
  "keeps_leaves (on_mapping f) \<Longrightarrow> keeps_leaves (on_mapping g) \<Longrightarrow> keeps_leaves (on_mapping (\<lambda>m. f (g m)))"
  using keeps_leaves_comp [of "on_mapping f" "on_mapping g"] by (simp add: on_mapping_comp)

lemma keeps_leaves_alter: "keeps_leaves f \<Longrightarrow> keeps_leaves (on_mapping (alter k f))"
  using keeps_leaves_section [of f k] by (simp add: in_section_def)

text \<open>Idempotence of the building blocks.\<close>

lemma contains_or_insert [simp]: "contains_key k (or_insert k v m)"
  by (simp add: contains_key_def map_of_or_insert)

lemma contains_or_insert_mono: "contains_key k m \<Longrightarrow> contains_key k (or_insert k' v m)"
  by (auto simp: contains_key_def map_of_or_insert)

lemma contains_alter [simp]: "contains_key k (alter k' f m) = contains_key k m"
  by (simp add: contains_key_def map_of_alter)

lemma or_insert_present: "contains_key k m \<Longrightarrow> or_insert k v m = m"
  by (simp add: or_insert_def)

lemma alter_alter: "alter k f (alter k g m) = alter k (\<lambda>v. f (g v)) m"
  by (auto simp: alter_def)

lemma in_section_twice: "in_section k f (in_section k g v) = in_section k (\<lambda>x. f (g x)) v"
  by (cases v) (auto simp: in_section_def alter_alter)

lemma in_section_commute:
  "k \<noteq> k' \<Longrightarrow> in_section k f (in_section k' g v) = in_section k' g (in_section k f v)"
  by (cases v) (auto simp: in_section_def alter_def)

lemma section_idem: "(\<And>x. f (f x) = f x) \<Longrightarrow> in_section k f (in_section k f v) = in_section k f v"
  by (simp add: in_section_twice)

lemma on_mapping_idem: "(\<And>m. f (f m) = f m) \<Longrightarrow> on_mapping f (on_mapping f v) = on_mapping f v"
  by (simp add: on_mapping_comp)

lemma get_path_section:
  "get_path (k # ks) (in_section k f v) = Option.bind (get_path [k] v) (\<lambda>x. get_path ks (f x))"
  by (cases v) (auto simp: in_section_def map_of_alter split: bind_splits)

lemma cryptarchia_defaults_idem:
  "ensure_ibd_bootstrap (ensure_sync_defaults (ensure_network_adapter
     (ensure_ibd_bootstrap (ensure_sync_defaults (ensure_network_adapter m))))) =
   ensure_ibd_bootstrap (ensure_sync_defaults (ensure_network_adapter m))"
proof -
  let ?m = "ensure_ibd_bootstrap (ensure_sync_defaults (ensure_network_adapter m))"
  have "contains_key ''network_adapter_settings'' ?m" "contains_key ''sync'' ?m"
    by (simp_all add: ensure_ibd_bootstrap_def ensure_sync_defaults_def ensure_network_adapter_def contains_or_insert_mono)
  then have "ensure_network_adapter ?m = ?m" "ensure_sync_defaults ?m = ?m"
    by (simp_all only: ensure_network_adapter_def [of ?m] ensure_sync_defaults_def [of ?m] or_insert_present)
  then show ?thesis
    by (simp add: ensure_ibd_bootstrap_def alter_alter on_mapping_comp or_insert_present)
qed

lemma blend_injection_idem:
  "(\<lambda>blend. case blend_key_id dec cr blend of None \<Rightarrow> blend
      | Some key_id \<Rightarrow> or_insert ''non_ephemeral_signing_key_id'' (Str key_id) blend)
    (case blend_key_id dec cr m of None \<Rightarrow> m
      | Some key_id \<Rightarrow> or_insert ''non_ephemeral_signing_key_id'' (Str key_id) m) =
   (case blend_key_id dec cr m of None \<Rightarrow> m
      | Some key_id \<Rightarrow> or_insert ''non_ephemeral_signing_key_id'' (Str key_id) m)"
  by (auto simp: or_insert_present split: option.splits)

lemma keeps_leaves_cryptarchia:
  "keeps_leaves (on_mapping (\<lambda>m. ensure_ibd_bootstrap (ensure_sync_defaults (ensure_network_adapter m))))"
proof -
  have a: "keeps_leaves (on_mapping ensure_network_adapter)" and b: "keeps_leaves (on_mapping ensure_sync_defaults)"
    and c: "keeps_leaves (on_mapping ensure_ibd_bootstrap)"
    unfolding ensure_network_adapter_def ensure_sync_defaults_def ensure_ibd_bootstrap_def
    by (rule keeps_leaves_or_insert, rule keeps_leaves_or_insert, rule keeps_leaves_alter, rule keeps_leaves_or_insert)
  show ?thesis by (rule keeps_leaves_on_mapping_comp [OF c keeps_leaves_on_mapping_comp [OF b a]])
qed

lemma keeps_leaves_blend:
  "keeps_leaves (on_mapping (\<lambda>m. case blend_key_id dec cr m of None \<Rightarrow> m
      | Some key_id \<Rightarrow> or_insert ''non_ephemeral_signing_key_id'' (Str key_id) m))"
  unfolding keeps_leaves_def
proof (intro allI impI)
  fix v ks w
  assume path: "get_path ks v = Some w"
  let ?f = "\<lambda>m. case blend_key_id dec cr m of None \<Rightarrow> m
    | Some key_id \<Rightarrow> or_insert ''non_ephemeral_signing_key_id'' (Str key_id) m"
  have "on_mapping ?f v = v \<or> (\<exists>x. on_mapping ?f v = on_mapping (or_insert ''non_ephemeral_signing_key_id'' x) v)"
    by (cases v) (auto split: option.splits)
  then show "\<exists>w'. get_path ks (on_mapping ?f v) = Some w' \<and> is_mapping w' = is_mapping w \<and> (\<not> is_mapping w \<longrightarrow> w' = w)"
  proof
    assume "\<exists>x. on_mapping ?f v = on_mapping (or_insert ''non_ephemeral_signing_key_id'' x) v"
    then obtain x where "on_mapping ?f v = on_mapping (or_insert ''non_ephemeral_signing_key_id'' x) v" by blast
    with keeps_leavesD [OF keeps_leaves_or_insert path, of "''non_ephemeral_signing_key_id''" x] show ?thesis by simp
  qed (use path in simp)
qed

section \<open>Well-formed trees\<close>

text \<open>A tree is well-formed if every mapping in it has at most one entry per key.\<close>

fun wf_tree :: "tree \<Rightarrow> bool" where
  "wf_tree (Sequence vs) = list_all wf_tree vs"
| "wf_tree (Mapping m) = (distinct (map fst m) \<and> list_all (\<lambda>(k, v). wf_tree k \<and> wf_tree v) m)"
| "wf_tree _ = True"

definition keeps_wf :: "(tree \<Rightarrow> tree) \<Rightarrow> bool" where
  "keeps_wf f \<longleftrightarrow> (\<forall>v. wf_tree v \<longrightarrow> wf_tree (f v))"

lemma keeps_wf_comp: "keeps_wf f \<Longrightarrow> keeps_wf g \<Longrightarrow> keeps_wf (\<lambda>v. f (g v))"
  by (simp add: keeps_wf_def)

lemma keeps_wf_on_mapping_comp:
  "keeps_wf (on_mapping f) \<Longrightarrow> keeps_wf (on_mapping g) \<Longrightarrow> keeps_wf (on_mapping (\<lambda>m. f (g m)))"
  using keeps_wf_comp [of "on_mapping f" "on_mapping g"] by (simp add: on_mapping_comp)

lemma keeps_wf_or_insert: "wf_tree x \<Longrightarrow> keeps_wf (on_mapping (or_insert k x))"
  unfolding keeps_wf_def
proof (intro allI impI)
  fix v
  assume "wf_tree x" "wf_tree v"
  then show "wf_tree (on_mapping (or_insert k x) v)"
    by (cases v) (auto simp: or_insert_def contains_key_def map_of_eq_None_iff)
qed

lemma keeps_wf_section: "keeps_wf f \<Longrightarrow> keeps_wf (in_section k f)"
  unfolding keeps_wf_def
proof (intro allI impI)
  fix v
  assume f: "\<forall>v. wf_tree v \<longrightarrow> wf_tree (f v)" and v: "wf_tree v"
  have "map fst (alter k f m) = map fst m" for m by (simp add: alter_def comp_def case_prod_beta)
  with f v show "wf_tree (in_section k f v)"
    by (cases v) (auto simp: in_section_def, auto simp: alter_def list_all_iff)
qed

lemma keeps_wf_alter: "keeps_wf f \<Longrightarrow> keeps_wf (on_mapping (alter k f))"
  using keeps_wf_section [of f k] by (simp add: in_section_def)

lemma keeps_wf_yaml:
  "keeps_wf inject_ibd_into_cryptarchia" "keeps_wf (inject_blend_non_ephemeral_signing_key_id dec cr)" "keeps_wf inject_chain_sync_protocol_name"
proof -
  show "keeps_wf inject_ibd_into_cryptarchia"
    unfolding inject_ibd_into_cryptarchia_def ensure_network_adapter_def ensure_sync_defaults_def ensure_ibd_bootstrap_def
    by (rule keeps_wf_section, rule keeps_wf_on_mapping_comp [OF _ keeps_wf_on_mapping_comp];
        (rule keeps_wf_alter keeps_wf_or_insert)+; simp)
  have "keeps_wf (on_mapping (\<lambda>blend. case blend_key_id dec cr blend of None \<Rightarrow> blend
      | Some key_id \<Rightarrow> or_insert ''non_ephemeral_signing_key_id'' (Str key_id) blend))"
    unfolding keeps_wf_def
  proof (intro allI impI)
    fix v assume "wf_tree v"
    with keeps_wf_or_insert [unfolded keeps_wf_def] show "wf_tree (on_mapping (\<lambda>blend. case blend_key_id dec cr blend of None \<Rightarrow> blend
      | Some key_id \<Rightarrow> or_insert ''non_ephemeral_signing_key_id'' (Str key_id) blend) v)"
      by (cases v) (simp_all split: option.split, metis on_mapping.simps(1) wf_tree.simps(2,6))
  qed
  then show "keeps_wf (inject_blend_non_ephemeral_signing_key_id dec cr)"
    unfolding inject_blend_non_ephemeral_signing_key_id_def by (rule keeps_wf_section)
  show "keeps_wf inject_chain_sync_protocol_name"
    unfolding inject_chain_sync_protocol_name_def by (intro keeps_wf_section keeps_wf_or_insert) simp
qed

section \<open>Properties\<close>



end
