(* ===== verification/Net_Text.thy ===== *)
theory Net_Text
  imports Node_Configs
begin

text \<open>
  The textual forms of IPv4 addresses, socket addresses and QUIC multiaddresses that the
  configuration server formats and parses.  Addresses of \<^verbatim>\<open>std::net\<close> are part of the standard
  library and defined here; only the IPv4 forms occur.  The multiaddress parser belongs to another
  crate, so only the text handed to it is defined, with the law \<open>multiaddr_text\<close> that it reads back
  the components.
\<close>

definition show_ipv4 :: "u8 list \<Rightarrow> string" where
  "show_ipv4 ip = join ''.'' (map (\<lambda>b. show_nat (unat b)) ip)"

definition parse_octet :: "string \<Rightarrow> u8 option" where
  "parse_octet s =
     (if s = [] \<or> 3 < length s \<or> (1 < length s \<and> hd s = CHR ''0'') then None
      else map_option of_nat (parse_digits 255 0 s))"

definition parse_ipv4 :: "string \<Rightarrow> u8 list option" where
  "parse_ipv4 s =
     (case map parse_octet (split_on (CHR ''.'') s) of
        [Some a, Some b, Some c, Some d] \<Rightarrow> Some [a, b, c, d]
      | _ \<Rightarrow> None)"

definition parse_socket_addr :: "string \<Rightarrow> socket_addr option" where
  "parse_socket_addr s =
     (case split_once (CHR '':'') s of
        (h, Some p) \<Rightarrow>
          (case (parse_ipv4 h, if p = [] then None else parse_digits 65535 0 p) of
             (Some ip, Some port) \<Rightarrow> Some (ip, of_nat port)
           | _ \<Rightarrow> None)
      | (_, None) \<Rightarrow> None)"

definition quic_text :: "u8 list \<Rightarrow> u16 \<Rightarrow> string" where
  "quic_text ip port = ''/ip4/'' @ show_ipv4 ip @ ''/udp/'' @ show_nat (unat port) @ ''/quic-v1''"

definition quic_address :: "u8 list \<Rightarrow> u16 \<Rightarrow> multiaddr" where
  "quic_address ip port = [Ip4 ip, Udp port, QuicV1]"

definition multiaddr_text :: "net_lib \<Rightarrow> bool" where
  "multiaddr_text nl \<longleftrightarrow>
     (\<forall>ip port. length ip = 4 \<longrightarrow> nl_parse_multiaddr nl (quic_text ip port) = Ok (quic_address ip port))"

section \<open>Facts\<close>

lemma show_nat_digits: "c \<in> set (show_nat n) \<Longrightarrow> \<exists>d < 10. c = digit_char d"
proof (induction n rule: show_nat.induct)
  case (1 n)
  show ?case
  proof (cases "n < 10")
    case True
    with "1.prems" show ?thesis by (subst (asm) show_nat.simps) auto
  next
    case False
    with "1.prems" have "c \<in> set (show_nat (n div 10)) \<or> c = digit_char (n mod 10)"
      by (subst (asm) show_nat.simps) auto
    then show ?thesis
    proof
      assume "c = digit_char (n mod 10)"
      then show ?thesis by (intro exI [of _ "n mod 10"]) simp
    qed (rule "1.IH" [OF False])
  qed
qed

lemma digit_char_code: "d < 10 \<Longrightarrow> of_char (digit_char d) = 48 + d"
  by (simp add: digit_char_def)

lemma show_nat_separators:
  shows "CHR ''.'' \<notin> set (show_nat n)" "CHR '':'' \<notin> set (show_nat n)" "CHR ''/'' \<notin> set (show_nat n)"
proof -
  have "48 \<le> (of_char c :: nat) \<and> (of_char c :: nat) \<le> 57" if "c \<in> set (show_nat n)" for c
    using show_nat_digits [OF that] by (auto simp: digit_char_code)
  moreover have "of_char CHR ''.'' = (46::nat)" "of_char CHR '':'' = (58::nat)" "of_char CHR ''/'' = (47::nat)" by simp_all
  ultimately show "CHR ''.'' \<notin> set (show_nat n)" "CHR '':'' \<notin> set (show_nat n)" "CHR ''/'' \<notin> set (show_nat n)"
    by fastforce+
qed

lemma split_on_single: "c \<notin> set xs \<Longrightarrow> split_on c xs = [xs]"
  by (induction xs) auto

lemma split_on_append: "c \<notin> set xs \<Longrightarrow> split_on c (xs @ c # ys) = xs # split_on c ys"
  by (induction xs) auto

lemma length_show_nat: "n < 1000 \<Longrightarrow> length (show_nat n) \<le> 3"
proof -
  assume "n < 1000"
  then have "length (show_nat (n div 10 div 10)) = 1" by (subst show_nat.simps) simp
  then have "length (show_nat (n div 10)) \<le> 2" by (subst show_nat.simps) simp
  then show ?thesis by (subst show_nat.simps) simp
qed

lemma show_nat_leading: "10 \<le> n \<Longrightarrow> hd (show_nat n) \<noteq> CHR ''0''"
proof (induction n rule: show_nat.induct)
  case (1 n)
  have s: "show_nat n = show_nat (n div 10) @ [digit_char (n mod 10)]"
    using "1.prems" by (subst show_nat.simps) simp
  show ?case
  proof (cases "n div 10 < 10")
    case True
    have k: "0 < n div 10" using "1.prems" by simp
    have "hd (show_nat n) = digit_char (n div 10)"
      unfolding s using True by (subst show_nat.simps) simp
    moreover have "of_char (digit_char (n div 10)) \<noteq> (48::nat)" using True k by (simp add: digit_char_code)
    moreover have "of_char CHR ''0'' = (48::nat)" by simp
    ultimately show ?thesis by metis
  next
    case False
    with "1.IH" "1.prems" s show ?thesis by simp
  qed
qed

lemma parse_octet_show: "parse_octet (show_nat (unat (b::u8))) = Some b"
proof -
  have b: "unat b < 256" using unsigned_less [of b] by simp
  have "\<not> (1 < length (show_nat (unat b)) \<and> hd (show_nat (unat b)) = CHR ''0'')"
  proof (cases "unat b < 10")
    case True
    then show ?thesis by (subst show_nat.simps) simp
  next
    case False
    then show ?thesis using show_nat_leading [of "unat b"] by simp
  qed
  with length_show_nat [of "unat b"] b show ?thesis
    by (simp add: parse_octet_def parse_digits_show_nat)
qed

lemma parse_show_ipv4: "length ip = 4 \<Longrightarrow> parse_ipv4 (show_ipv4 ip) = Some ip"
proof -
  assume "length ip = 4"
  then obtain a b c d where "ip = [a, b, c, d]"
    by (auto simp: length_Suc_conv eval_nat_numeral)
  then show ?thesis
    by (simp add: show_ipv4_def parse_ipv4_def split_on_append split_on_single show_nat_separators parse_octet_show)
qed

lemma show_ipv4_separators:
  shows "CHR ''/'' \<notin> set (show_ipv4 ip)" "CHR '':'' \<notin> set (show_ipv4 ip)"
proof -
  have "c \<notin> set (join ''.'' xs)" if "\<forall>x \<in> set xs. c \<notin> set x" "c \<noteq> CHR ''.''" for c xs
    using that by (induction "''.''" xs rule: join.induct) auto
  then show "CHR ''/'' \<notin> set (show_ipv4 ip)" "CHR '':'' \<notin> set (show_ipv4 ip)"
    unfolding show_ipv4_def by (simp_all add: show_nat_separators)
qed

lemma split_once_append: "c \<notin> set xs \<Longrightarrow> split_once c (xs @ c # ys) = (xs, Some ys)"
  by (simp add: split_once_def Let_def takeWhile_append in_set_conv_decomp [symmetric])

lemma port_bound: "unat (p::u16) \<le> 65535"
proof -
  have "unat p < 65536" using unsigned_less [of p] by simp
  then show ?thesis by simp
qed

lemma parse_show_port: "parse_digits 65535 0 (show_nat (unat (p::u16))) = Some (unat p)"
  by (simp add: parse_digits_show_nat port_bound)

lemma parse_socket_addr_show:
  "length ip = 4 \<Longrightarrow> parse_socket_addr (show_ipv4 ip @ '':'' @ show_nat (unat p)) = Some (ip, p)"
  by (simp add: parse_socket_addr_def split_once_append show_ipv4_separators parse_show_ipv4 parse_show_port)

lemma multiaddr_text_Ok:
  "multiaddr_text nl \<Longrightarrow> length ip = 4 \<Longrightarrow> nl_parse_multiaddr nl (quic_text ip p) = Ok (quic_address ip p)"
  by (simp add: multiaddr_text_def)

text \<open>A parser for exactly these texts, so that the law is known to be satisfiable.\<close>

definition parse_quic_text :: "string \<Rightarrow> string + multiaddr" where
  "parse_quic_text s =
     (case split_on (CHR ''/'') s of
        [e, a, ip, u, p, q] \<Rightarrow>
          (case (parse_ipv4 ip, parse_uint 65535 p) of
             (Some i, Some port) \<Rightarrow> Ok (quic_address i (of_nat port))
           | _ \<Rightarrow> Err ''invalid multiaddr'')
      | _ \<Rightarrow> Err ''invalid multiaddr'')"

lemma parse_quic_text_Ok: "length ip = 4 \<Longrightarrow> parse_quic_text (quic_text ip p) = Ok (quic_address ip p)"
proof -
  have p: "parse_uint 65535 (show_nat (unat p)) = Some (unat p)"
    by (simp add: parse_show_nat port_bound)
  have "split_on (CHR ''/'') (quic_text ip p) = [[], ''ip4'', show_ipv4 ip, ''udp'', show_nat (unat p), ''quic-v1'']"
    by (simp add: quic_text_def split_on_append split_on_single show_ipv4_separators show_nat_separators)
  then show "length ip = 4 \<Longrightarrow> ?thesis" by (simp add: parse_quic_text_def parse_show_ipv4 p)
qed

end
