(* ===== verification/Node_Run_Config.thy ===== *)
theory Node_Run_Config
  imports Topology
begin

text \<open>
  The configuration a node process is started with (\<^verbatim>\<open>configs/src/nodes/{node,common,blend}.rs\<close>):
  \<^verbatim>\<open>create_node_config\<close> splits the general configuration of a node into the user settings of that
  node and the deployment settings, which have to agree across the network.

  The fields of the HTTP backend settings that the code leaves at \<^verbatim>\<open>Default::default()\<close> belong to
  another crate; they are the argument \<open>axum_default\<close>.  \<^verbatim>\<open>grace_period\<close> reads the environment.
\<close>

section \<open>Blend and network settings\<close>

record core_backend_config =
  cbc_listening_address :: multiaddr
  cbc_core_peering_degree :: "nat \<times> nat"
  cbc_edge_node_connection_timeout :: duration
  cbc_max_edge_node_incoming_connections :: nat
  cbc_max_dial_attempts_per_peer :: nat

record blend_user_config =
  bu_non_ephemeral_signing_key_id :: string
  bu_recovery_path_prefix :: string
  bu_core_backend :: core_backend_config
  bu_zk_secret_key_kms_id :: string
  bu_edge_max_dial_attempts_per_peer_per_message :: nat
  bu_edge_replication_factor :: nat

record timing_settings =
  tm_round_duration :: duration
  tm_rounds_per_interval :: nat
  tm_rounds_per_session :: nat
  tm_rounds_per_observation_window :: nat
  tm_rounds_per_session_transition_period :: nat
  tm_epoch_transition_period_in_slots :: nat

record blend_deployment_settings =
  bd_num_blend_layers :: nat
  bd_minimum_network_size :: nat
  bd_timing :: timing_settings
  bd_protocol_name :: string
  bd_intervals_for_safety_buffer :: nat
  bd_message_frequency_per_round :: f64
  bd_maximum_release_delay_in_rounds :: nat
  bd_minimum_messages_coefficient :: nat
  bd_normalization_constant :: f64

record network_deployment_settings =
  nd_identify_protocol_name :: string
  nd_kademlia_protocol_name :: string
  nd_chain_sync_protocol_name :: string

text \<open>The conversion of the constant \<^verbatim>\<open>1.0\<close> cannot fail; the error branch is marked unreachable.\<close>

definition message_frequency_per_round :: f64 where
  "message_frequency_per_round = Fin 1"

definition build_blend_user_config ::
  "general_blend_config \<Rightarrow> string \<Rightarrow> string \<Rightarrow> blend_user_config" where
  "build_blend_user_config config zk_key_id signing_key_id =
     (let backend_core = gb_backend_core config; backend_edge = gb_backend_edge config
      in \<lparr>bu_non_ephemeral_signing_key_id = signing_key_id,
          bu_recovery_path_prefix = ''./recovery/blend'',
          bu_core_backend =
            \<lparr>cbc_listening_address = bc_listening_address backend_core,
             cbc_core_peering_degree = bc_core_peering_degree backend_core,
             cbc_edge_node_connection_timeout = bc_edge_node_connection_timeout backend_core,
             cbc_max_edge_node_incoming_connections = bc_max_edge_node_incoming_connections backend_core,
             cbc_max_dial_attempts_per_peer = bc_max_dial_attempts_per_peer backend_core\<rparr>,
          bu_zk_secret_key_kms_id = zk_key_id,
          bu_edge_max_dial_attempts_per_peer_per_message = be_max_dial_attempts_per_peer_per_message backend_edge,
          bu_edge_replication_factor = be_replication_factor backend_edge\<rparr>)"

definition build_blend_deployment_settings ::
  "general_blend_config \<Rightarrow> f64 \<Rightarrow> blend_deployment_settings" where
  "build_blend_deployment_settings config freq =
     (let backend_core = gb_backend_core config
      in \<lparr>bd_num_blend_layers = 1,
          bd_minimum_network_size = 1,
          bd_timing =
            \<lparr>tm_round_duration = from_secs 1,
             tm_rounds_per_interval = 30,
             tm_rounds_per_session = 648000,
             tm_rounds_per_observation_window = 30,
             tm_rounds_per_session_transition_period = 30,
             tm_epoch_transition_period_in_slots = 2600\<rparr>,
          bd_protocol_name = bc_protocol_name backend_core,
          bd_intervals_for_safety_buffer = 100,
          bd_message_frequency_per_round = freq,
          bd_maximum_release_delay_in_rounds = 3,
          bd_minimum_messages_coefficient = bc_minimum_messages_coefficient backend_core,
          bd_normalization_constant = bc_normalization_constant backend_core\<rparr>)"

definition build_network_deployment_settings :: network_deployment_settings where
  "build_network_deployment_settings =
     \<lparr>nd_identify_protocol_name = ''/integration/nomos/identify/1.0.0'',
      nd_kademlia_protocol_name = ''/integration/nomos/kad/1.0.0'',
      nd_chain_sync_protocol_name = ''/integration/nomos/cryptarchia/sync/1.0.0''\<rparr>"

definition build_blend_service_config ::
  "crypto \<Rightarrow> general_blend_config \<Rightarrow>
   blend_user_config \<times> blend_deployment_settings \<times> network_deployment_settings" where
  "build_blend_service_config cr config =
     (let zk_key_id = key_id_for_preload_backend cr (ZkSecret (gb_secret_zk_key config));
          signing_key_id = key_id_for_preload_backend cr (EdKey (gb_signer config))
      in (build_blend_user_config config zk_key_id signing_key_id,
          build_blend_deployment_settings config message_frequency_per_round,
          build_network_deployment_settings))"

section \<open>Services shared by all nodes\<close>

record cryptarchia_deployment_settings =
  cd_epoch_config :: epoch_config
  cd_consensus_config :: engine_config
  cd_service_params :: "(service_type \<times> service_parameters) list"
  cd_min_stake_threshold :: nat
  cd_min_stake_timestamp :: nat
  cd_gossipsub_protocol :: string

definition cryptarchia_deployment :: "general_config \<Rightarrow> cryptarchia_deployment_settings" where
  "cryptarchia_deployment config =
     (let lc = gcc_ledger_config (gc_consensus_config config)
      in \<lparr>cd_epoch_config = lc_epoch_config lc,
          cd_consensus_config = lc_consensus_config lc,
          cd_service_params = sdp_service_params (lc_sdp_config lc),
          cd_min_stake_threshold = sdp_min_stake_threshold (lc_sdp_config lc),
          cd_min_stake_timestamp = sdp_min_stake_timestamp (lc_sdp_config lc),
          cd_gossipsub_protocol = ''/cryptarchia/proto''\<rparr>)"

record time_deployment_settings =
  td_slot_duration :: duration

definition time_deployment :: "general_config \<Rightarrow> time_deployment_settings" where
  "time_deployment config = \<lparr>td_slot_duration = gt_slot_duration (gc_time_config config)\<rparr>"

record mempool_deployment_settings =
  md_pubsub_topic :: string

definition mempool_deployment :: mempool_deployment_settings where
  "mempool_deployment = \<lparr>md_pubsub_topic = ''mantle''\<rparr>"

datatype starting_state = StartGenesis genesis_tx

record cryptarchia_config =
  cc_starting_state :: starting_state
  cc_recovery_file :: string
  cc_prolonged_bootstrap_period :: duration
  cc_force_bootstrap :: bool
  cc_grace_period :: duration
  cc_state_recording_interval :: duration
  cc_ibd_peers :: "string set"
  cc_ibd_delay_before_new_download :: duration
  cc_max_orphan_cache_size :: nat
  cc_leader_pk :: zk_pk
  cc_leader_sk :: zk_key

definition cryptarchia_config_of :: "env \<Rightarrow> general_config \<Rightarrow> cryptarchia_config" where
  "cryptarchia_config_of ev config =
     \<lparr>cc_starting_state = StartGenesis (gcc_genesis_tx (gc_consensus_config config)),
      cc_recovery_file = [],
      cc_prolonged_bootstrap_period = gbs_prolonged_bootstrap_period (gc_bootstrapping_config config),
      cc_force_bootstrap = False,
      cc_grace_period = grace_period ev,
      cc_state_recording_interval = from_secs 60,
      cc_ibd_peers = {},
      cc_ibd_delay_before_new_download = from_secs 10,
      cc_max_orphan_cache_size = 5,
      cc_leader_pk = gcc_leader_pk (gc_consensus_config config),
      cc_leader_sk = gcc_leader_sk (gc_consensus_config config)\<rparr>"

record time_config =
  tcfg_ntp_server :: string
  tcfg_ntp_timeout :: duration
  tcfg_ntp_listening_interface :: "u8 list"
  tcfg_update_interval :: duration
  tcfg_chain_start_time :: nat

definition time_config_of :: "general_config \<Rightarrow> time_config" where
  "time_config_of config =
     (let t = gc_time_config config
      in \<lparr>tcfg_ntp_server = gt_ntp_server t,
          tcfg_ntp_timeout = gt_timeout t,
          tcfg_ntp_listening_interface = gt_interface t,
          tcfg_update_interval = gt_update_interval t,
          tcfg_chain_start_time = gt_chain_start_time t\<rparr>)"

record mempool_config =
  mp_recovery_path :: string

definition mempool_config_of :: mempool_config where
  "mempool_config_of = \<lparr>mp_recovery_path = []\<rparr>"

definition tracing_settings_of :: "general_config \<Rightarrow> tracing_settings" where
  "tracing_settings_of config = gc_tracing_config config"

record axum_settings =
  ax_address :: socket_addr
  ax_rate_limit_per_second :: nat
  ax_rate_limit_burst :: nat
  ax_max_concurrent_requests :: nat
  ax_remaining :: nat

definition http_config :: "axum_settings \<Rightarrow> general_config \<Rightarrow> axum_settings" where
  "http_config axum_default config =
     axum_default\<lparr>ax_address := api_address (gc_api_config config),
       ax_rate_limit_per_second := 10000, ax_rate_limit_burst := 10000,
       ax_max_concurrent_requests := 1000\<rparr>"

definition testing_http_config :: "axum_settings \<Rightarrow> general_config \<Rightarrow> axum_settings" where
  "testing_http_config axum_default config =
     axum_default\<lparr>ax_address := api_testing_http_address (gc_api_config config),
       ax_rate_limit_per_second := 10000, ax_rate_limit_burst := 10000,
       ax_max_concurrent_requests := 1000\<rparr>"

record wallet_service_settings =
  ws_known_keys :: "zk_pk set"

definition wallet_settings_with_leader :: "crypto \<Rightarrow> general_config \<Rightarrow> bool \<Rightarrow> wallet_service_settings" where
  "wallet_settings_with_leader cr config include_leader =
     (let consensus = gc_consensus_config config;
          keys = (if include_leader then {gcc_leader_pk consensus} else {})
      in \<lparr>ws_known_keys = keys \<union> set (map (wallet_public_key (cr_zk_pk cr)) (gcc_wallet_accounts consensus))\<rparr>)"

definition wallet_settings :: "crypto \<Rightarrow> general_config \<Rightarrow> wallet_service_settings" where
  "wallet_settings cr config = wallet_settings_with_leader cr config True"

section \<open>The run configuration\<close>

record rocks_backend_settings =
  rb_db_path :: string
  rb_read_only :: bool
  rb_column_family :: "string option"

definition rocks_storage_settings :: rocks_backend_settings where
  "rocks_storage_settings =
     \<lparr>rb_db_path = ''./db'', rb_read_only = False, rb_column_family = Some ''blocks''\<rparr>"

record sdp_settings =
  ss_declaration :: "declaration_message option"
  ss_max_tx_fee :: u64
  ss_funding_pk :: zk_pk

record deployment_settings =
  ds_blend :: blend_deployment_settings
  ds_network :: network_deployment_settings
  ds_cryptarchia :: cryptarchia_deployment_settings
  ds_time :: time_deployment_settings
  ds_mempool :: mempool_deployment_settings

record user_config =
  uc_network :: network_config
  uc_blend :: blend_user_config
  uc_cryptarchia :: cryptarchia_config
  uc_tracing :: tracing_settings
  uc_http :: axum_settings
  uc_storage :: rocks_backend_settings
  uc_time :: time_config
  uc_mempool :: mempool_config
  uc_sdp :: sdp_settings
  uc_testing_http :: axum_settings
  uc_wallet :: wallet_service_settings
  uc_key_management :: kms_config

record run_config =
  rc_deployment :: deployment_settings
  rc_user :: user_config

definition build_node_deployment_settings ::
  "general_config \<Rightarrow> blend_deployment_settings \<Rightarrow> network_deployment_settings \<Rightarrow> deployment_settings" where
  "build_node_deployment_settings config blend network =
     \<lparr>ds_blend = blend, ds_network = network, ds_cryptarchia = cryptarchia_deployment config,
      ds_time = time_deployment config, ds_mempool = mempool_deployment\<rparr>"

definition create_node_config ::
  "crypto \<Rightarrow> axum_settings \<Rightarrow> env \<Rightarrow> general_config \<Rightarrow> run_config" where
  "create_node_config cr axum_default ev config =
     (let (blend_user, blend_deployment, network_deployment) =
            build_blend_service_config cr (gc_blend_config config)
      in \<lparr>rc_deployment = build_node_deployment_settings config blend_deployment network_deployment,
          rc_user =
            \<lparr>uc_network = gc_network_config config,
             uc_blend = blend_user,
             uc_cryptarchia = cryptarchia_config_of ev config,
             uc_tracing = tracing_settings_of config,
             uc_http = http_config axum_default config,
             uc_storage = rocks_storage_settings,
             uc_time = time_config_of config,
             uc_mempool = mempool_config_of,
             uc_sdp =
               \<lparr>ss_declaration = None, ss_max_tx_fee = -1,
                ss_funding_pk = cr_zk_pk cr (gcc_funding_sk (gc_consensus_config config))\<rparr>,
             uc_testing_http = testing_http_config axum_default config,
             uc_wallet = wallet_settings cr config,
             uc_key_management = gc_kms_config config\<rparr>\<rparr>)"

section \<open>Facts\<close>

lemma create_node_config_sel:
  fixes c :: general_config and cr ax ev
  defines "u \<equiv> rc_user (create_node_config cr ax ev c)"
  shows "cc_starting_state (uc_cryptarchia u) = StartGenesis (gcc_genesis_tx (gc_consensus_config c))"
    "cc_leader_pk (uc_cryptarchia u) = gcc_leader_pk (gc_consensus_config c)"
    "cc_leader_sk (uc_cryptarchia u) = gcc_leader_sk (gc_consensus_config c)"
    "ss_funding_pk (uc_sdp u) = cr_zk_pk cr (gcc_funding_sk (gc_consensus_config c))"
    "uc_key_management u = gc_kms_config c"
    "bu_non_ephemeral_signing_key_id (uc_blend u) = key_id_for_preload_backend cr (EdKey (gb_signer (gc_blend_config c)))"
    "bu_zk_secret_key_kms_id (uc_blend u) = key_id_for_preload_backend cr (ZkSecret (gb_secret_zk_key (gc_blend_config c)))"
    "ws_known_keys (uc_wallet u) = insert (gcc_leader_pk (gc_consensus_config c))
       (wallet_public_key (cr_zk_pk cr) ` set (gcc_wallet_accounts (gc_consensus_config c)))"
  by (simp_all add: u_def create_node_config_def cryptarchia_config_of_def build_blend_service_config_def
      build_blend_user_config_def wallet_settings_def wallet_settings_with_leader_def Let_def)

lemma create_node_config_deployment:
  "rc_deployment (create_node_config cr ax ev c) =
     build_node_deployment_settings c (build_blend_deployment_settings (gc_blend_config c) message_frequency_per_round)
       build_network_deployment_settings"
  by (simp add: create_node_config_def build_blend_service_config_def Let_def)

lemma genesis_declarations_outputs:
  assumes "genesis_wraps cr" "create_consensus_configs cr ids params wallet = Ok cs" "c \<in> set cs"
    and "create_consensus_genesis_tx cr c ps = Ok g"
  shows "mtx_ledger_tx (cr_genesis_mantle_tx cr g) =
    \<lparr>ltx_inputs = [], ltx_outputs = genesis_outputs cr ids wallet\<rparr>"
proof -
  from assms(4) have "create_genesis_tx_with_declarations cr
      \<lparr>ltx_inputs = [], ltx_outputs = genesis_outputs cr ids wallet\<rparr> ps = Ok g"
    by (simp add: create_consensus_genesis_tx_def result_iffs consensus_genesis_outputs [OF assms(1-3)])
  from create_genesis_tx_with_declarations_Ok [OF assms(1) this] show ?thesis by force
qed

lemma blend_deployment_of:
  "build_blend_deployment_settings (blend_config_for cr nid port) f =
   build_blend_deployment_settings (blend_config_for cr nid' port') f"
  by (simp add: build_blend_deployment_settings_def blend_config_for_def Let_def)

lemma blend_keys_resolve:
  assumes "key_id_for_preload_backend cr (EdKey (gb_signer bc)) \<noteq>
      key_id_for_preload_backend cr (ZkSecret (gb_secret_zk_key bc))"
  shows "kms_config_of cr accounts bc (key_id_for_preload_backend cr (EdKey (gb_signer bc))) = Some (EdKey (gb_signer bc))"
    and "kms_config_of cr accounts bc (key_id_for_preload_backend cr (ZkSecret (gb_secret_zk_key bc))) =
      Some (ZkSecret (gb_secret_zk_key bc))"
  using assms unfolding kms_config_of_def by (auto intro!: fold_insert_absent_keep)

lemma account_keys_preloaded:
  "a \<in> set accounts \<Longrightarrow> key_id_for_preload_backend cr (ZkSecret (wa_secret_key a)) \<in> dom (kms_config_of cr accounts bc)"
  unfolding kms_config_of_def fold_insert_absent_dom by (auto simp: wallet_public_key_def)

text \<open>What node \<open>i\<close> of a network with this genesis and these accounts has to be started with.\<close>

definition started_in ::
  "crypto \<Rightarrow> genesis_tx \<Rightarrow> wallet_account list \<Rightarrow> nat \<Rightarrow> general_blend_config \<Rightarrow> user_config \<Rightarrow> bool" where
  "started_in cr g accounts i bc u \<longleftrightarrow>
     (let outs = ltx_outputs (mtx_ledger_tx (cr_genesis_mantle_tx cr g)) in
      cc_starting_state (uc_cryptarchia u) = StartGenesis g \<and>
      3 * i + 2 < length outs \<and>
      outs ! (3 * i) = \<lparr>note_value = 1000, note_pk = cc_leader_pk (uc_cryptarchia u)\<rparr> \<and>
      cc_leader_pk (uc_cryptarchia u) = cr_zk_pk cr (cc_leader_sk (uc_cryptarchia u)) \<and>
      note_pk (outs ! (3 * i + 2)) = ss_funding_pk (uc_sdp u) \<and>
      uc_key_management u (bu_non_ephemeral_signing_key_id (uc_blend u)) = Some (EdKey (gb_signer bc)) \<and>
      uc_key_management u (bu_zk_secret_key_kms_id (uc_blend u)) = Some (ZkSecret (gb_secret_zk_key bc)) \<and>
      ws_known_keys (uc_wallet u) =
        insert (cc_leader_pk (uc_cryptarchia u)) (wallet_public_key (cr_zk_pk cr) ` set accounts) \<and>
      (\<forall>a \<in> set accounts. key_id_for_preload_backend cr (ZkSecret (wa_secret_key a)) \<in> dom (uc_key_management u)))"

definition key_ids_apart :: "crypto \<Rightarrow> general_blend_config \<Rightarrow> bool" where
  "key_ids_apart cr bc \<longleftrightarrow>
     key_id_for_preload_backend cr (EdKey (gb_signer bc)) \<noteq>
     key_id_for_preload_backend cr (ZkSecret (gb_secret_zk_key bc))"

section \<open>Properties\<close>

text \<open>
  Property C18.  The processes of a built topology are started consistently.  All nodes get the same
  deployment settings and the same genesis; a node's leader key pair owns its stake, output \<open>3 i\<close> of
  that genesis, and its funding key owns output \<open>3 i + 2\<close>; the two key identifiers in its blend
  settings resolve, in its own key store, to the keys of its blend configuration; its wallet knows
  the leader key and every account of the topology, and each account key is in the key store.  The
  identifiers of a node's two blend keys must be different, since they share one map.
\<close>

theorem node_run_configs_consistent:
  assumes "genesis_wraps (dp_crypto d)" "build d ev b s = (Ok t, s')"
    and "\<forall>n \<in> set (gt_nodes t). key_ids_apart (dp_crypto d) (gc_blend_config (gn_general n))"
  shows "\<exists>g dep. \<forall>i < length (gt_nodes t).
    let n = gn_general (gt_nodes t ! i); rc = create_node_config (dp_crypto d) ax ev n in
      rc_deployment rc = dep \<and>
      started_in (dp_crypto d) g (wc_accounts (tc_wallet_config (tb_config b))) i (gc_blend_config n) (rc_user rc)"
  using assms(2)
proof (rule build_Ok)
  fix ids ports and base :: base_configs and apis rest g and first :: general_consensus_config
  let ?n = "tc_n_nodes (tb_config b)" and ?cr = "dp_crypto d"
    and ?w = "tc_wallet_config (tb_config b)"
  let ?node = "node_at d ev b ids ports base apis s' g"
  assume ready: "parts_ready d ev b ids ports base apis" and f: "bs_consensus_configs base = first # rest"
    and g: "create_consensus_genesis_tx ?cr first
      (map (\<lambda>i. provider_of (bs_blend_configs base ! i) (gcc_blend_notes first ! i)) [0..<?n]) = Ok g"
    and t: "t = \<lparr>gt_config = tb_config b, gt_nodes = map ?node [0..<?n]\<rparr>"
  have cons: "create_consensus_configs ?cr ids (tc_consensus_params (tb_config b)) ?w = Ok (bs_consensus_configs base)"
    and mem: "first \<in> set (bs_consensus_configs base)" and n: "0 < ?n" "length ids = ?n" "length ports = ?n"
    and blends: "bs_blend_configs base = create_blend_configs ?cr ids ports"
    using ready f by (simp_all add: parts_ready_def Let_def)
  have outs: "ltx_outputs (mtx_ledger_tx (cr_genesis_mantle_tx ?cr g)) = genesis_outputs ?cr ids ?w"
    using genesis_declarations_outputs [OF assms(1) cons mem g] by simp
  obtain l where own: "\<And>i. i < ?n \<Longrightarrow> gcc_leader_pk (bs_consensus_configs base ! i) = role_pk ?cr prefix_ld (ids ! i)"
      "\<And>i. i < ?n \<Longrightarrow> gcc_leader_sk (bs_consensus_configs base ! i) = role_key ?cr prefix_ld (ids ! i)"
      "\<And>i. i < ?n \<Longrightarrow> gcc_funding_sk (bs_consensus_configs base ! i) = role_key ?cr prefix_sdp (ids ! i)"
      "\<And>i. i < ?n \<Longrightarrow> gcc_ledger_config (bs_consensus_configs base ! i) = l"
      "\<And>i. i < ?n \<Longrightarrow> gcc_wallet_accounts (bs_consensus_configs base ! i) = wc_accounts ?w"
    using cons n by (elim create_consensus_configs_Ok) auto
  have blend: "bs_blend_configs base ! i = blend_config_for ?cr (ids ! i) (ports ! i)" if "i < ?n" for i
    using that n by (simp add: blends create_blend_configs_nth)
  have kms: "gc_kms_config (gn_general (?node i)) = kms_config_of ?cr (wc_accounts ?w) (bs_blend_configs base ! i)"
    if "i < ?n" for i using that n by (simp add: node_at_def create_kms_configs_def blends)
  have apart: "key_id_for_preload_backend ?cr (EdKey (gb_signer (bs_blend_configs base ! i))) \<noteq>
      key_id_for_preload_backend ?cr (ZkSecret (gb_secret_zk_key (bs_blend_configs base ! i)))" if "i < ?n" for i
    using assms(3) that unfolding t by (auto simp: node_at_def key_ids_apart_def)
  define dep where "dep = rc_deployment (create_node_config ?cr ax ev (gn_general (?node 0)))"
  have dep: "rc_deployment (create_node_config ?cr ax ev (gn_general (?node i))) = dep" if "i < ?n" for i
    using blend_deployment_of [of ?cr "ids ! i" "ports ! i" message_frequency_per_round "ids ! 0" "ports ! 0"]
    by (simp add: dep_def create_node_config_deployment node_at_def blend [OF that] blend [OF n(1)] own(4) [OF that]
        own(4) [OF n(1)] build_node_deployment_settings_def cryptarchia_deployment_def time_deployment_def)
  have sel: "gc_consensus_config (gn_general (?node i)) = (bs_consensus_configs base ! i)\<lparr>gcc_genesis_tx := g\<rparr>"
    "gc_blend_config (gn_general (?node i)) = bs_blend_configs base ! i" for i
    by (simp_all add: node_at_def)
  note slots = genesis_output_at [where cr = ?cr and wallet = ?w]
  show ?thesis
  proof (intro exI [of _ g] exI [of _ dep] allI impI)
    fix i assume "i < length (gt_nodes t)"
    then have i: "i < ?n" and at: "gt_nodes t ! i = ?node i" and j: "i < length ids" by (simp_all add: t n)
    have "started_in ?cr g (wc_accounts ?w) i (gc_blend_config (gn_general (?node i)))
        (rc_user (create_node_config ?cr ax ev (gn_general (?node i))))"
      unfolding started_in_def Let_def outs create_node_config_sel sel kms [OF i]
      using own [OF i] blend_keys_resolve [OF apart [OF i]] account_keys_preloaded slots [OF j, of 0] slots [OF j, of 2]
      by (simp add: node_notes_def role_note_def role_pk_def)
    then show "let n = gn_general (gt_nodes t ! i); rc = create_node_config ?cr ax ev n in
        rc_deployment rc = dep \<and> started_in ?cr g (wc_accounts ?w) i (gc_blend_config n) (rc_user rc)"
      unfolding Let_def at using dep [OF i] by simp
  qed
qed

definition apart_deps :: deps where
  "apart_deps = demo_deps\<lparr>dp_crypto := demo_crypto\<lparr>cr_zk_pk_bytes := \<lambda>n. 0 # le_bytes 32 n\<rparr>\<rparr>"

lemma apart_deps_laws:
  "deps_succeed apart_deps" "genesis_wraps (dp_crypto apart_deps)" "key_ids_apart (dp_crypto apart_deps) bc"
proof -
  have "length (key_id_for_preload_backend (dp_crypto apart_deps) (EdKey k)) \<noteq>
      length (key_id_for_preload_backend (dp_crypto apart_deps) (ZkSecret j))" for k j
    by (simp add: apart_deps_def demo_crypto_def length_le_bytes)
  then show "key_ids_apart (dp_crypto apart_deps) bc"
    unfolding key_ids_apart_def by metis
  show "deps_succeed apart_deps" using demo_deps_succeed by (simp add: deps_succeed_def apart_deps_def)
  show "genesis_wraps (dp_crypto apart_deps)" by (simp add: genesis_wraps_def apart_deps_def)
qed

theorem node_run_configs_consistent_witness:
  "\<exists>t s' g dep. build apart_deps Map.empty demo_builder demo_os = (Ok t, s') \<and> length (gt_nodes t) = 2 \<and>
     (\<forall>i < 2. let rc = create_node_config (dp_crypto apart_deps) \<lparr>ax_address = ([], 0), ax_rate_limit_per_second = 1,
           ax_rate_limit_burst = 1, ax_max_concurrent_requests = 1, ax_remaining = 0\<rparr> Map.empty (gn_general (gt_nodes t ! i)) in
       rc_deployment rc = dep \<and> cc_starting_state (uc_cryptarchia (rc_user rc)) = StartGenesis g)"
proof -
  obtain t s' where t: "build apart_deps Map.empty demo_builder demo_os = (Ok t, s')"
    using build_is_ok [OF apart_deps_laws(1), of demo_os demo_builder Map.empty]
    by (auto simp: vector_fits_def demo_ids_def)
  have len: "length (gt_nodes t) = 2"
    using t by (rule build_Ok) simp
  from node_run_configs_consistent [OF apart_deps_laws(2) t] apart_deps_laws(3) t len show ?thesis
    unfolding Let_def started_in_def by metis
qed

end
