(* ===== verification/Cfgsync.thy ===== *)
theory Cfgsync
  imports Net_Text Node_Run_Config "HOL-Library.Product_Lexorder"
begin

text \<open>
  Configuration generation of the cfgsync server (\<^verbatim>\<open>tools/cfgsync_tf/src\<close>: \<^verbatim>\<open>host.rs\<close>, \<^verbatim>\<open>network/\<close> and
  \<^verbatim>\<open>config/\<close>): the hosts that announced themselves are put into order, validated against the
  configured network size and turned into one general configuration each.

  A \<^verbatim>\<open>HashMap<Host, GeneralConfig>\<close> is a partial map.  The clock is read once per host while the
  configurations are written; \<open>clock i\<close> is its reading for the host in position \<open>i\<close>.
\<close>

section \<open>Hosts\<close>

datatype host_kind = HostNode

record host =
  h_kind :: host_kind
  h_ip :: "u8 list"
  h_identifier :: string
  h_network_port :: u16
  h_blend_port :: u16
  h_api_port :: u16
  h_testing_http_port :: u16

record port_overrides =
  po_network_port :: "u16 option"
  po_blend_port :: "u16 option"
  po_api_port :: "u16 option"
  po_testing_http_port :: "u16 option"

definition unwrap_or :: "'a option \<Rightarrow> 'a \<Rightarrow> 'a" where
  "unwrap_or v d = (case v of None \<Rightarrow> d | Some x \<Rightarrow> x)"

lemma unwrap_or_simps [simp]: "unwrap_or None d = d" "unwrap_or (Some x) d = x"
  by (simp_all add: unwrap_or_def)

definition default_api_port :: u16 where "default_api_port = 18080"
definition default_libp2p_network_port :: u16 where "default_libp2p_network_port = 3000"
definition default_blend_network_port :: u16 where "default_blend_network_port = 3400"

definition from_parts :: "host_kind \<Rightarrow> u8 list \<Rightarrow> string \<Rightarrow> port_overrides \<Rightarrow> host" where
  "from_parts kind ip identifier ports =
     \<lparr>h_kind = kind, h_ip = ip, h_identifier = identifier,
      h_network_port = unwrap_or (po_network_port ports) default_libp2p_network_port,
      h_blend_port = unwrap_or (po_blend_port ports) default_blend_network_port,
      h_api_port = unwrap_or (po_api_port ports) default_api_port,
      h_testing_http_port = unwrap_or (po_testing_http_port ports) (default_api_port + 1)\<rparr>"

definition node_from_ip :: "u8 list \<Rightarrow> string \<Rightarrow> port_overrides \<Rightarrow> host" where
  "node_from_ip ip identifier ports = from_parts HostNode ip identifier ports"

text \<open>The sort is stable, so hosts with equal keys keep the order they were passed in.\<close>

definition host_key :: "host \<Rightarrow> nat \<times> nat" where
  "host_key h =
     (let idx = unwrap_or (parse_uint u64_max (last_segment (CHR ''-'') (h_identifier h))) 0;
          kind = (case h_kind h of HostNode \<Rightarrow> 0)
      in (kind, idx))"

definition sort_hosts :: "host list \<Rightarrow> host list" where
  "sort_hosts hosts = sort_key host_key hosts"

section \<open>Peer addresses\<close>

fun extract_udp_port :: "multiaddr \<Rightarrow> u16 option" where
  "extract_udp_port [] = None"
| "extract_udp_port (Udp port # _) = Some port"
| "extract_udp_port (_ # rest) = extract_udp_port rest"

definition find_matching_host :: "multiaddr \<Rightarrow> u16 list \<Rightarrow> nat option" where
  "find_matching_host addr original_ports =
     Option.bind (extract_udp_port addr) (\<lambda>port. position (\<lambda>candidate. candidate = port) original_ports)"

datatype peer_rewrite_error =
  HostPeerLenMismatch nat nat
| HostIndexOutOfBounds nat nat
| PeerIdIndexOutOfBounds nat nat

fun rewrite_peers ::
  "nat \<Rightarrow> u16 list \<Rightarrow> host list \<Rightarrow> nat list \<Rightarrow> multiaddr list \<Rightarrow> multiaddr list \<Rightarrow> peer_rewrite_error + multiaddr list" where
  "rewrite_peers node_idx original_ports hosts peer_ids [] node_peers = Ok node_peers"
| "rewrite_peers node_idx original_ports hosts peer_ids (addr # peers) node_peers =
     (case find_matching_host addr original_ports of
        None \<Rightarrow> rewrite_peers node_idx original_ports hosts peer_ids peers node_peers
      | Some peer_idx \<Rightarrow>
          if peer_idx = node_idx
          then rewrite_peers node_idx original_ports hosts peer_ids peers node_peers
          else and_then (ok_or (HostIndexOutOfBounds peer_idx (length hosts)) (get hosts peer_idx)) (\<lambda>h.
               and_then (ok_or (PeerIdIndexOutOfBounds peer_idx (length peer_ids)) (get peer_ids peer_idx)) (\<lambda>peer_id.
                 rewrite_peers node_idx original_ports hosts peer_ids peers
                   (node_peers @ [[Ip4 (h_ip h), Udp (h_network_port h), QuicV1, P2p peer_id]]))))"

definition rewrite_initial_peers ::
  "multiaddr list list \<Rightarrow> u16 list \<Rightarrow> host list \<Rightarrow> nat list \<Rightarrow> peer_rewrite_error + multiaddr list list" where
  "rewrite_initial_peers templates original_ports hosts peer_ids =
     (if length hosts \<noteq> length peer_ids then Err (HostPeerLenMismatch (length hosts) (length peer_ids))
      else collect_results (\<lambda>(node_idx, peers). rewrite_peers node_idx original_ports hosts peer_ids peers [])
             (enumerate 0 templates))"

section \<open>Providers, keys, tracing and validation\<close>

datatype provider_build_error =
  MissingConsensusConfigs
| ProvHostConfigLenMismatch nat nat
| NoteLenMismatch nat
| ProvInvalidMultiaddr string string

definition locator_for_host ::
  "net_lib \<Rightarrow> host list \<Rightarrow> nat \<Rightarrow> u16 \<Rightarrow> provider_build_error + multiaddr" where
  "locator_for_host nl hosts i port =
     (let value = quic_text (h_ip (hosts ! i)) port
      in map_err (\<lambda>msg. ProvInvalidMultiaddr value msg) (nl_parse_multiaddr nl value))"

definition validate_provider_inputs ::
  "host list \<Rightarrow> general_consensus_config \<Rightarrow> general_blend_config list \<Rightarrow> provider_build_error + unit" where
  "validate_provider_inputs hosts first blend_configs =
     (if length hosts \<noteq> length blend_configs
        then Err (ProvHostConfigLenMismatch (length hosts) (length blend_configs))
      else if length (gcc_blend_notes first) < length blend_configs
        then Err (NoteLenMismatch (length (gcc_blend_notes first)))
      else Ok ())"

text \<open>The indexed accesses are in range by the preceding validation.\<close>

definition build_blend_providers ::
  "net_lib \<Rightarrow> host list \<Rightarrow> general_consensus_config \<Rightarrow> general_blend_config list \<Rightarrow>
   provider_build_error + provider_info list" where
  "build_blend_providers nl hosts first blend_configs =
     collect_results (\<lambda>(i, bc).
       and_then (locator_for_host nl hosts i (h_blend_port (hosts ! i))) (\<lambda>locator.
         Ok \<lparr>pi_service_type = BlendNetwork, pi_provider_sk = gb_signer bc,
             pi_zk_sk = gb_secret_zk_key bc, pi_locator = locator,
             pi_note = gcc_blend_notes first ! i\<rparr>)) (enumerate 0 blend_configs)"

definition try_create_providers ::
  "net_lib \<Rightarrow> host list \<Rightarrow> general_consensus_config list \<Rightarrow> general_blend_config list \<Rightarrow>
   provider_build_error + provider_info list" where
  "try_create_providers nl hosts consensus_configs blend_configs =
     and_then (ok_or MissingConsensusConfigs (first_of consensus_configs)) (\<lambda>first.
     and_then (validate_provider_inputs hosts first blend_configs) (\<lambda>_.
       build_blend_providers nl hosts first blend_configs))"

definition cfgsync_kms_configs :: "crypto \<Rightarrow> general_blend_config list \<Rightarrow> kms_config list" where
  "cfgsync_kms_configs cr blend_configs =
     map (\<lambda>bc. Map.empty
            (cr_hex cr (cr_ed_pk_bytes cr (cr_ed_pk cr (gb_signer bc))) \<mapsto> EdKey (gb_signer bc),
             cr_hex cr (cr_zk_pk_bytes cr (cr_zk_pk cr (gb_secret_zk_key bc))) \<mapsto> ZkSecret (gb_secret_zk_key bc)))
       blend_configs"

definition update_tracing_identifier :: "tracing_settings \<Rightarrow> string \<Rightarrow> tracing_settings" where
  "update_tracing_identifier settings identifier =
     settings\<lparr>ts_logger := (case ts_logger settings of LokiLogger e _ \<Rightarrow> LokiLogger e identifier | other \<Rightarrow> other),
              ts_tracing := (case ts_tracing settings of
                 OtlpTracing e r _ \<Rightarrow> OtlpTracing e r identifier | NoTracing \<Rightarrow> NoTracing),
              ts_metrics := (case ts_metrics settings of
                 OtlpMetrics e _ \<Rightarrow> OtlpMetrics e identifier | NoMetrics \<Rightarrow> NoMetrics)\<rparr>"

datatype validation_error =
  HostCountMismatch nat nat
| TopologyInvariant topology_invariant_error

definition validate_inputs ::
  "host list \<Rightarrow> consensus_params \<Rightarrow> node_id list option \<Rightarrow> u16 list option \<Rightarrow> validation_error + unit" where
  "validate_inputs hosts params ids blend_ports =
     (let expected = cp_n_participants params
      in if length hosts \<noteq> expected then Err (HostCountMismatch (length hosts) expected)
         else map_err TopologyInvariant (validate_node_vectors expected ids blend_ports))"

section \<open>One configuration per host\<close>

datatype node_config_build_error =
  NcbValidation validation_error
| NcbProviders provider_build_error
| NcbBase base_config_error
| NcbGenesis consensus_config_error
| NcbPortAllocFailed
| NcbInvalidMultiaddr string string
| NcbInvalidSocketAddr string
| NcbInvalidEd25519SecretKey
| NcbMissingConsensusConfig
| NcbHostConfigLenMismatch
| NcbPeerRewrite peer_rewrite_error

definition generate_ids :: "nat \<Rightarrow> node_id list option \<Rightarrow> os \<Rightarrow> node_id list \<times> os" where
  "generate_ids count ids s = (case ids of Some is \<Rightarrow> (is, s) | None \<Rightarrow> fill_ids count s)"

definition resolve_blend_ports :: "host list \<Rightarrow> u16 list option \<Rightarrow> u16 list" where
  "resolve_blend_ports hosts blend_ports = unwrap_or blend_ports (map h_blend_port hosts)"

definition build_api_configs :: "host list \<Rightarrow> node_config_build_error + general_api_config list" where
  "build_api_configs hosts =
     collect_results (\<lambda>h.
       let address_value = ''0.0.0.0:'' @ show_nat (unat (h_api_port h));
           testing_value = ''0.0.0.0:'' @ show_nat (unat (h_testing_http_port h))
       in and_then (ok_or (NcbInvalidSocketAddr address_value) (parse_socket_addr address_value)) (\<lambda>a.
          and_then (ok_or (NcbInvalidSocketAddr testing_value) (parse_socket_addr testing_value)) (\<lambda>t.
            Ok \<lparr>api_address = a, api_testing_http_address = t\<rparr>))) hosts"

definition build_peer_ids :: "net_lib \<Rightarrow> node_id list \<Rightarrow> node_config_build_error + nat list" where
  "build_peer_ids nl ids =
     collect_results (\<lambda>bytes.
       and_then (map_err (\<lambda>_. NcbInvalidEd25519SecretKey) (nl_secret_key nl bytes)) (\<lambda>secret.
         Ok (nl_peer_id nl secret))) ids"

definition host_network_config ::
  "net_lib \<Rightarrow> host \<Rightarrow> multiaddr list \<Rightarrow> network_config \<Rightarrow> node_config_build_error + network_config" where
  "host_network_config nl h peers nc =
     (let nat_value = quic_text (h_ip h) (h_network_port h)
      in and_then (map_err (NcbInvalidMultiaddr nat_value) (nl_parse_multiaddr nl nat_value)) (\<lambda>nat_addr.
           Ok \<lparr>nc_initial_peers = peers,
               nc_swarm = (nc_swarm nc)\<lparr>sw_host := [0, 0, 0, 0], sw_port := h_network_port h,
                 sw_nat := NatStatic nat_addr\<rparr>\<rparr>))"

definition host_blend_config ::
  "net_lib \<Rightarrow> host \<Rightarrow> general_blend_config \<Rightarrow> node_config_build_error + general_blend_config" where
  "host_blend_config nl h bc =
     (let blend_value = quic_text [0, 0, 0, 0] (h_blend_port h)
      in and_then (map_err (NcbInvalidMultiaddr blend_value) (nl_parse_multiaddr nl blend_value)) (\<lambda>addr.
           Ok (bc\<lparr>gb_backend_core := (gb_backend_core bc)\<lparr>bc_listening_address := addr\<rparr>\<rparr>)))"

record host_parts =
  hp_consensus :: "general_consensus_config list"
  hp_api :: "general_api_config list"
  hp_network :: "network_config list"
  hp_blend :: "general_blend_config list"
  hp_init_peers :: "multiaddr list list"
  hp_kms :: "kms_config list"
  hp_bootstrap :: "general_bootstrap_config list"

fun configure_hosts ::
  "net_lib \<Rightarrow> env \<Rightarrow> (nat \<Rightarrow> nat) \<Rightarrow> os \<Rightarrow> tracing_settings \<Rightarrow> host_parts \<Rightarrow> nat \<Rightarrow> host list \<Rightarrow>
   (host \<Rightarrow> general_config option) \<Rightarrow> node_config_build_error + (host \<Rightarrow> general_config option)" where
  "configure_hosts nl ev clock s tracing p i [] configured = Ok configured"
| "configure_hosts nl ev clock s tracing p i (h # hs) configured =
     (if length (hp_consensus p) \<le> i \<or> length (hp_api p) \<le> i \<or> length (hp_network p) \<le> i \<or>
         length (hp_blend p) \<le> i \<or> length (hp_init_peers p) \<le> i \<or> length (hp_kms p) \<le> i \<or>
         length (hp_bootstrap p) \<le> i
      then Err NcbHostConfigLenMismatch
      else and_then (host_network_config nl h (hp_init_peers p ! i) (hp_network p ! i)) (\<lambda>network.
           and_then (host_blend_config nl h (hp_blend p ! i)) (\<lambda>blend.
             configure_hosts nl ev clock s tracing p (i + 1) hs (configured(h \<mapsto>
               \<lparr>gc_api_config = hp_api p ! i, gc_consensus_config = hp_consensus p ! i,
                gc_bootstrapping_config = hp_bootstrap p ! i, gc_network_config = network,
                gc_blend_config = blend,
                gc_tracing_config = update_tracing_identifier tracing (h_identifier h),
                gc_time_config = default_time_config ev (s\<lparr>os_now := clock i\<rparr>),
                gc_kms_config = hp_kms p ! i\<rparr>)))))"

text \<open>The body of \<^verbatim>\<open>try_create_node_configs\<close> from the API configurations on; it consults no port or random source.\<close>

definition finish_hosts ::
  "deps \<Rightarrow> env \<Rightarrow> (nat \<Rightarrow> nat) \<Rightarrow> tracing_settings \<Rightarrow> host list \<Rightarrow> node_id list \<Rightarrow> base_configs \<Rightarrow> os \<Rightarrow>
   node_config_build_error + (host \<Rightarrow> general_config option)" where
  "finish_hosts d ev clock tracing hosts ids base s =
     and_then (build_api_configs hosts) (\<lambda>apis.
     and_then (build_peer_ids (dp_net d) ids) (\<lambda>peer_ids.
     and_then (map_err NcbPeerRewrite (rewrite_initial_peers
          (map nc_initial_peers (bs_network_configs base)) (map (\<lambda>n. sw_port (nc_swarm n)) (bs_network_configs base))
          hosts peer_ids)) (\<lambda>init_peers.
     and_then (map_err NcbProviders (try_create_providers (dp_net d) hosts (bs_consensus_configs base)
          (bs_blend_configs base))) (\<lambda>providers.
     and_then (ok_or NcbMissingConsensusConfig (get (bs_consensus_configs base) 0)) (\<lambda>first.
     and_then (map_err NcbGenesis (create_genesis_tx_with_declarations (dp_crypto d)
          (mtx_ledger_tx (cr_genesis_mantle_tx (dp_crypto d) (gcc_genesis_tx first))) providers)) (\<lambda>genesis_tx.
       configure_hosts (dp_net d) ev clock s tracing
         \<lparr>hp_consensus = map (\<lambda>c. c\<lparr>gcc_genesis_tx := genesis_tx\<rparr>) (bs_consensus_configs base),
          hp_api = apis, hp_network = bs_network_configs base, hp_blend = bs_blend_configs base,
          hp_init_peers = init_peers, hp_kms = cfgsync_kms_configs (dp_crypto d) (bs_blend_configs base),
          hp_bootstrap = bs_bootstrap_configs base\<rparr> 0 hosts Map.empty))))))"

definition try_create_node_configs ::
  "deps \<Rightarrow> env \<Rightarrow> (nat \<Rightarrow> nat) \<Rightarrow> consensus_params \<Rightarrow> tracing_settings \<Rightarrow> wallet_config \<Rightarrow> node_id list option \<Rightarrow>
   u16 list option \<Rightarrow> host list \<Rightarrow> (node_config_build_error, host \<Rightarrow> general_config option) os_result" where
  "try_create_node_configs d ev clock params tracing wallet ids blend_ports hosts0 s =
     (let hosts = sort_hosts hosts0 in
      bind_os (return_os (map_err NcbValidation (validate_inputs hosts params ids blend_ports))) (\<lambda>_ s0.
        let (ids', s1) = generate_ids (cp_n_participants params) ids s0 in
        bind_os (map_err_os NcbBase (build_base_configs d ev ids' params network_params_default wallet
            (resolve_blend_ports hosts blend_ports)))
          (\<lambda>base s2. (finish_hosts d ev clock tracing hosts ids' base s2, s2)) s1) s)"

section \<open>Facts\<close>

lemma set_sort_hosts [simp]: "set (sort_hosts hosts) = set hosts" "length (sort_hosts hosts) = length hosts"
  "distinct (sort_hosts hosts) = distinct hosts"
  by (simp_all add: sort_hosts_def distinct_sort)

lemma digit_char_0: "digit_char 0 = CHR ''0''"
  by code_simp

lemma build_api_configs_eq:
  "build_api_configs hosts =
     Ok (map (\<lambda>h. \<lparr>api_address = ([0, 0, 0, 0], h_api_port h),
                   api_testing_http_address = ([0, 0, 0, 0], h_testing_http_port h)\<rparr>) hosts)"
proof -
  have any: "show_ipv4 [0, 0, 0, 0] = ''0.0.0.0''"
    by (simp add: show_ipv4_def show_nat.simps [of 0] digit_char_0)
  have "parse_socket_addr (''0.0.0.0:'' @ show_nat (unat p)) = Some ([0, 0, 0, 0], p)" for p :: u16
    using parse_socket_addr_show [of "[0, 0, 0, 0]" p] by (simp add: any)
  then show ?thesis unfolding build_api_configs_def by (intro collect_results_total) (simp add: Let_def)
qed

definition multiaddr_udp :: "net_lib \<Rightarrow> bool" where
  "multiaddr_udp nl \<longleftrightarrow> (\<forall>ip p rest. extract_udp_port (nl_multiaddr nl ip p @ rest) = Some p)"

text \<open>The rewritten dial list of host \<open>i\<close> in the default star layout.\<close>

definition star_peers :: "host list \<Rightarrow> nat list \<Rightarrow> nat \<Rightarrow> multiaddr list" where
  "star_peers hosts peer_ids i =
     (if i = 0 then [] else [quic_address (h_ip (hosts ! 0)) (h_network_port (hosts ! 0)) @ [P2p (peer_ids ! 0)]])"

lemma rewrite_star:
  assumes "multiaddr_udp nl" "length hosts = length scs" "length peer_ids = length scs"
  shows "rewrite_initial_peers
     (map (\<lambda>i. map (\<lambda>j. node_address_with_peer nl (scs ! j)) (layout_dials Star i)) [0..<length scs])
     (map sw_port scs) hosts peer_ids = Ok (map (star_peers hosts peer_ids) [0..<length scs])"
proof -
  have first: "find_matching_host (node_address_with_peer nl (scs ! 0)) (map sw_port scs) = Some 0" if "scs \<noteq> []"
    using assms(1) that
    by (cases scs) (simp_all add: find_matching_host_def node_address_with_peer_def node_address_from_port_def multiaddr_udp_def)
  have "rewrite_peers i (map sw_port scs) hosts peer_ids
      (map (\<lambda>j. node_address_with_peer nl (scs ! j)) (layout_dials Star i)) [] = Ok (star_peers hosts peer_ids i)"
    if "i < length scs" for i
  proof (cases "i = 0")
    case False
    with that have "scs \<noteq> []" by auto
    with False first assms that show ?thesis
      by (simp add: layout_dials_def star_peers_def quic_address_def get_def)
  qed (simp add: layout_dials_def star_peers_def)
  then have "collect_results (\<lambda>(node_idx, peers). rewrite_peers node_idx (map sw_port scs) hosts peer_ids peers [])
      (map (\<lambda>i. (i, map (\<lambda>j. node_address_with_peer nl (scs ! j)) (layout_dials Star i))) [0..<length scs])
      = Ok (map (\<lambda>(i, _). star_peers hosts peer_ids i)
          (map (\<lambda>i. (i, map (\<lambda>j. node_address_with_peer nl (scs ! j)) (layout_dials Star i))) [0..<length scs]))"
    by (intro collect_results_total) auto
  moreover have "enumerate 0 (map f [0..<n]) = map (\<lambda>i. (i, f i)) [0..<n]" for f :: "nat \<Rightarrow> multiaddr list" and n
    by (intro nth_equalityI) (simp_all add: nth_enumerate_eq)
  ultimately show ?thesis
    using assms by (simp add: rewrite_initial_peers_def comp_def)
qed

lemma build_peer_ids_eq:
  assumes "length scs = length ids" "\<And>i. i < length ids \<Longrightarrow> nl_secret_key nl (ids ! i) = Ok (sw_node_key (scs ! i))"
  shows "build_peer_ids nl ids = Ok (map (\<lambda>sc. nl_peer_id nl (sw_node_key sc)) scs)"
  unfolding build_peer_ids_def collect_results_Ok_iff
  using assms by (intro list_all2_all_nthI) simp_all

definition host_provider :: "host list \<Rightarrow> service_note list \<Rightarrow> general_blend_config list \<Rightarrow> nat \<Rightarrow> provider_info" where
  "host_provider hosts notes bcs i =
     (provider_of (bcs ! i) (notes ! i))\<lparr>pi_locator := quic_address (h_ip (hosts ! i)) (h_blend_port (hosts ! i))\<rparr>"

lemma try_create_providers_eq:
  assumes "multiaddr_text nl" "\<forall>h \<in> set hosts. length (h_ip h) = 4" "length hosts = length bcs"
    "length bcs \<le> length (gcc_blend_notes first)"
  shows "try_create_providers nl hosts (first # rest) bcs =
     Ok (map (host_provider hosts (gcc_blend_notes first) bcs) [0..<length bcs])"
proof -
  have "locator_for_host nl hosts i (h_blend_port (hosts ! i)) =
      Ok (quic_address (h_ip (hosts ! i)) (h_blend_port (hosts ! i)))" if "i < length hosts" for i
    using that assms(1,2) by (simp add: locator_for_host_def multiaddr_text_Ok)
  then have "build_blend_providers nl hosts first bcs =
      Ok (map (\<lambda>(i, bc). host_provider hosts (gcc_blend_notes first) bcs i) (enumerate 0 bcs))"
    unfolding build_blend_providers_def using assms(3)
    by (intro collect_results_total) (auto simp: in_set_enumerate_eq host_provider_def provider_of_def)
  with assms(3,4) show ?thesis
    by (simp add: try_create_providers_def validate_provider_inputs_def enumerate_0_map)
qed

definition host_config ::
  "env \<Rightarrow> (nat \<Rightarrow> nat) \<Rightarrow> os \<Rightarrow> tracing_settings \<Rightarrow> host_parts \<Rightarrow> nat \<Rightarrow> host \<Rightarrow> general_config" where
  "host_config ev clock s tracing p i h =
     \<lparr>gc_api_config = hp_api p ! i, gc_consensus_config = hp_consensus p ! i,
      gc_bootstrapping_config = hp_bootstrap p ! i,
      gc_network_config = \<lparr>nc_initial_peers = hp_init_peers p ! i,
         nc_swarm = (nc_swarm (hp_network p ! i))\<lparr>sw_host := [0, 0, 0, 0], sw_port := h_network_port h,
           sw_nat := NatStatic (quic_address (h_ip h) (h_network_port h))\<rparr>\<rparr>,
      gc_blend_config = (hp_blend p ! i)\<lparr>gb_backend_core := (gb_backend_core (hp_blend p ! i))
         \<lparr>bc_listening_address := quic_address [0, 0, 0, 0] (h_blend_port h)\<rparr>\<rparr>,
      gc_tracing_config = update_tracing_identifier tracing (h_identifier h),
      gc_time_config = default_time_config ev (s\<lparr>os_now := clock i\<rparr>),
      gc_kms_config = hp_kms p ! i\<rparr>"

definition parts_cover :: "host_parts \<Rightarrow> nat \<Rightarrow> bool" where
  "parts_cover p n \<longleftrightarrow> n \<le> length (hp_consensus p) \<and> n \<le> length (hp_api p) \<and> n \<le> length (hp_network p) \<and>
     n \<le> length (hp_blend p) \<and> n \<le> length (hp_init_peers p) \<and> n \<le> length (hp_kms p) \<and> n \<le> length (hp_bootstrap p)"

lemma configure_hosts_Ok:
  assumes "multiaddr_text nl" "\<forall>h \<in> set hs. length (h_ip h) = 4" "distinct hs" "parts_cover p (i + length hs)"
  shows "\<exists>m. configure_hosts nl ev clock s tracing p i hs configured = Ok m \<and>
    dom m = dom configured \<union> set hs \<and> (\<forall>h. h \<notin> set hs \<longrightarrow> m h = configured h) \<and>
    (\<forall>k < length hs. m (hs ! k) = Some (host_config ev clock s tracing p (i + k) (hs ! k)))"
  using assms
proof (induction hs arbitrary: i configured)
  case (Cons h hs)
  let ?c = "configured(h \<mapsto> host_config ev clock s tracing p i h)"
  have step: "configure_hosts nl ev clock s tracing p i (h # hs) configured =
      configure_hosts nl ev clock s tracing p (i + 1) hs ?c"
    using Cons.prems
    by (simp add: host_network_config_def host_blend_config_def Let_def multiaddr_text_Ok host_config_def parts_cover_def)
  have tail: "\<forall>h \<in> set hs. length (h_ip h) = 4" "distinct hs" "parts_cover p (i + 1 + length hs)"
    using Cons.prems by simp_all
  from Cons.IH [OF Cons.prems(1) tail, of ?c] obtain m where m:
    "configure_hosts nl ev clock s tracing p (i + 1) hs ?c = Ok m"
    "dom m = dom ?c \<union> set hs" "\<forall>h. h \<notin> set hs \<longrightarrow> m h = ?c h"
    "\<forall>k < length hs. m (hs ! k) = Some (host_config ev clock s tracing p (i + 1 + k) (hs ! k))"
    by blast
  have "m ((h # hs) ! k) = Some (host_config ev clock s tracing p (i + k) ((h # hs) ! k))" if "k < length (h # hs)" for k
    using that m(3,4) Cons.prems(3) by (cases k) auto
  with m(1-3) step show ?case by (intro exI [of _ m]) auto
qed simp

lemma validate_inputs_Ok:
  "validate_inputs hosts params ids ports = Ok u \<longleftrightarrow>
     length hosts = cp_n_participants params \<and> 0 < cp_n_participants params \<and>
     vector_fits ids (cp_n_participants params) \<and> vector_fits ports (cp_n_participants params)"
  by (auto simp: validate_inputs_def validate_node_vectors_def vector_fits_def map_err_eq_Ok Let_def
      split: option.splits)

lemma generate_ids_length:
  "generate_ids n ids s = (ids', s') \<Longrightarrow> vector_fits ids n \<Longrightarrow> length ids' = n"
  using length_fill_ids [of n s] by (auto simp: generate_ids_def vector_fits_def split: option.splits)

lemma resolve_blend_ports_length:
  "vector_fits ports (length hosts) \<Longrightarrow> length (resolve_blend_ports hosts ports) = length hosts"
  by (auto simp: resolve_blend_ports_def vector_fits_def split: option.splits)

definition parts_for ::
  "deps \<Rightarrow> host list \<Rightarrow> node_id list \<Rightarrow> base_configs \<Rightarrow> genesis_tx \<Rightarrow> nat list \<Rightarrow> host_parts" where
  "parts_for d hosts ids base g peer_ids =
     \<lparr>hp_consensus = map (\<lambda>c. c\<lparr>gcc_genesis_tx := g\<rparr>) (bs_consensus_configs base),
      hp_api = map (\<lambda>h. \<lparr>api_address = ([0, 0, 0, 0], h_api_port h),
                   api_testing_http_address = ([0, 0, 0, 0], h_testing_http_port h)\<rparr>) hosts,
      hp_network = bs_network_configs base, hp_blend = bs_blend_configs base,
      hp_init_peers = map (star_peers hosts peer_ids) [0..<length hosts],
      hp_kms = cfgsync_kms_configs (dp_crypto d) (bs_blend_configs base),
      hp_bootstrap = bs_bootstrap_configs base\<rparr>"

lemma finish_hosts_eq:
  assumes laws: "multiaddr_text (dp_net d)" "multiaddr_udp (dp_net d)"
    and hosts: "\<forall>h \<in> set hosts. length (h_ip h) = 4" "length hosts = length ids" "length ports = length ids" "ids \<noteq> []"
    and base: "build_base_configs d ev ids params network_params_default wallet ports s = (Ok base, s')"
  obtains first rest keys where "bs_consensus_configs base = first # rest"
    "length keys = length ids" "\<And>i. i < length ids \<Longrightarrow> nl_secret_key (dp_net d) (ids ! i) = Ok (keys ! i)"
    "\<And>i. i < length ids \<Longrightarrow> sw_node_key (nc_swarm (bs_network_configs base ! i)) = keys ! i"
    "\<And>g. parts_cover (parts_for d hosts ids base g (map (nl_peer_id (dp_net d)) keys)) (length hosts)"
    "finish_hosts d ev clock tracing hosts ids base s' =
       and_then (map_err NcbGenesis (create_genesis_tx_with_declarations (dp_crypto d)
          (mtx_ledger_tx (cr_genesis_mantle_tx (dp_crypto d) (gcc_genesis_tx first)))
          (map (host_provider hosts (gcc_blend_notes first) (bs_blend_configs base)) [0..<length ids]))) (\<lambda>g.
       configure_hosts (dp_net d) ev clock s' tracing
         (parts_for d hosts ids base g (map (nl_peer_id (dp_net d)) keys)) 0 hosts Map.empty)"
proof -
  note b = build_base_configs_Ok [OF base]
  obtain scs where scs: "length scs = length ids"
    "bs_network_configs base = map (\<lambda>i. \<lparr>nc_initial_peers = map (\<lambda>j. node_address_with_peer (dp_net d) (scs ! j)) (layout_dials Star i),
                     nc_swarm = scs ! i\<rparr>) [0..<length scs]"
    "\<And>i. i < length ids \<Longrightarrow> nl_secret_key (dp_net d) (ids ! i) = Ok (sw_node_key (scs ! i))"
    by (rule create_network_configs_Ok [OF b(4) [unfolded network_params_default_def]]) (simp_all add: that)
  note len = consensus_lengths [OF b(1)]
  obtain first rest where f: "bs_consensus_configs base = first # rest"
    using len(1) hosts(4) by (cases "bs_consensus_configs base") auto
  have bl: "length (bs_blend_configs base) = length ids" using hosts(3) by (simp add: b(3))
  have nts: "length (bs_blend_configs base) \<le> length (gcc_blend_notes first)" using len(2) [of first] f bl by simp
  have ports: "map (\<lambda>n. sw_port (nc_swarm n)) (bs_network_configs base) = map sw_port scs"
    unfolding scs(2) by (intro nth_equalityI) simp_all
  have peers: "map nc_initial_peers (bs_network_configs base) =
      map (\<lambda>i. map (\<lambda>j. node_address_with_peer (dp_net d) (scs ! j)) (layout_dials Star i)) [0..<length scs]"
    unfolding scs(2) by simp
  let ?keys = "map sw_node_key scs"
  have pid: "build_peer_ids (dp_net d) ids = Ok (map (nl_peer_id (dp_net d)) ?keys)"
    using build_peer_ids_eq [OF scs(1,3)] by (simp add: comp_def)
  have rw: "rewrite_initial_peers (map nc_initial_peers (bs_network_configs base))
      (map (\<lambda>n. sw_port (nc_swarm n)) (bs_network_configs base)) hosts (map (nl_peer_id (dp_net d)) ?keys) =
      Ok (map (star_peers hosts (map (nl_peer_id (dp_net d)) ?keys)) [0..<length hosts])"
    unfolding ports peers using rewrite_star [OF laws(2), of hosts scs "map (nl_peer_id (dp_net d)) ?keys"] hosts scs(1) by simp
  note pr = try_create_providers_eq [OF laws(1) hosts(1), of "bs_blend_configs base" first rest]
  show ?thesis
  proof (rule that [OF f, of ?keys])
    show "parts_cover (parts_for d hosts ids base g (map (nl_peer_id (dp_net d)) ?keys)) (length hosts)" for g
      using len(1) bl hosts scs by (simp add: parts_cover_def parts_for_def b(2) cfgsync_kms_configs_def)
    show "finish_hosts d ev clock tracing hosts ids base s' =
       and_then (map_err NcbGenesis (create_genesis_tx_with_declarations (dp_crypto d)
          (mtx_ledger_tx (cr_genesis_mantle_tx (dp_crypto d) (gcc_genesis_tx first)))
          (map (host_provider hosts (gcc_blend_notes first) (bs_blend_configs base)) [0..<length ids]))) (\<lambda>g.
       configure_hosts (dp_net d) ev clock s' tracing
         (parts_for d hosts ids base g (map (nl_peer_id (dp_net d)) ?keys)) 0 hosts Map.empty)"
      unfolding finish_hosts_def pid build_api_configs_eq and_then_Ok rw map_err_Ok
      using pr bl nts hosts(2) by (simp add: f parts_for_def get_def)
  qed (use scs in simp_all)
qed

lemma try_create_validated:
  assumes "length hosts = cp_n_participants params" "0 < cp_n_participants params"
    "vector_fits ids (cp_n_participants params)" "vector_fits ports (cp_n_participants params)"
  obtains ids' s1 where "generate_ids (cp_n_participants params) ids s = (ids', s1)"
    "length ids' = length (sort_hosts hosts)" "length (resolve_blend_ports (sort_hosts hosts) ports) = length ids'"
    "ids' \<noteq> []"
    "try_create_node_configs d ev clock params tracing wallet ids ports hosts s =
       bind_os (map_err_os NcbBase (build_base_configs d ev ids' params network_params_default wallet
            (resolve_blend_ports (sort_hosts hosts) ports)))
          (\<lambda>base s2. (finish_hosts d ev clock tracing (sort_hosts hosts) ids' base s2, s2)) s1"
proof -
  obtain ids' s1 where g: "generate_ids (cp_n_participants params) ids s = (ids', s1)"
    by (cases "generate_ids (cp_n_participants params) ids s")
  have v: "validate_inputs (sort_hosts hosts) params ids ports = Ok ()"
    using assms by (simp add: validate_inputs_Ok)
  from generate_ids_length [OF g assms(3)] assms show ?thesis
    by (intro that [OF g])
      (auto simp: resolve_blend_ports_length try_create_node_configs_def Let_def v g bind_os_def [of "return_os _"] return_os_def)
qed

lemma try_create_invalid:
  assumes "\<not> (length hosts = cp_n_participants params \<and> 0 < cp_n_participants params \<and>
    vector_fits ids (cp_n_participants params) \<and> vector_fits ports (cp_n_participants params))"
  obtains e where "validate_inputs (sort_hosts hosts) params ids ports = Err e"
    "try_create_node_configs d ev clock params tracing wallet ids ports hosts s = (Err (NcbValidation e), s)"
proof (cases "validate_inputs (sort_hosts hosts) params ids ports")
  case (Inl e)
  then show ?thesis
    by (intro that [OF Inl]) (simp add: try_create_node_configs_def Let_def bind_os_def return_os_def)
next
  case (Inr u)
  then show ?thesis using assms by (simp add: validate_inputs_Ok)
qed

lemma finish_hosts_result:
  assumes laws: "multiaddr_text (dp_net d)" "multiaddr_udp (dp_net d)"
    and hosts: "\<forall>h \<in> set hosts. length (h_ip h) = 4" "distinct hosts" "length hosts = length ids" "length ports = length ids" "ids \<noteq> []"
    and base: "build_base_configs d ev ids params network_params_default wallet ports s = (Ok base, s')"
  shows "(\<exists>m. finish_hosts d ev clock tracing hosts ids base s' = Ok m) \<or>
    (\<exists>x. finish_hosts d ev clock tracing hosts ids base s' = Err (NcbGenesis x)) \<and> \<not> deps_succeed d"
proof (rule finish_hosts_eq [OF laws hosts(1,3-5) base, of clock tracing])
  fix first rest keys
  let ?p = "\<lambda>g. parts_for d hosts ids base g (map (nl_peer_id (dp_net d)) keys)"
  let ?g = "create_genesis_tx_with_declarations (dp_crypto d)
      (mtx_ledger_tx (cr_genesis_mantle_tx (dp_crypto d) (gcc_genesis_tx first)))
      (map (host_provider hosts (gcc_blend_notes first) (bs_blend_configs base)) [0..<length ids])"
  assume cover: "\<And>g. parts_cover (?p g) (length hosts)"
    and eq: "finish_hosts d ev clock tracing hosts ids base s' = and_then (map_err NcbGenesis ?g) (\<lambda>g.
      configure_hosts (dp_net d) ev clock s' tracing (?p g) 0 hosts Map.empty)"
  have "\<exists>m. configure_hosts (dp_net d) ev clock s' tracing (?p g) 0 hosts Map.empty = Ok m" for g
    using configure_hosts_Ok [OF laws(1) hosts(1,2), of "?p g" 0] cover [of g] by fastforce
  moreover have "deps_succeed d \<Longrightarrow> is_ok ?g" by (rule create_genesis_with_declarations_is_ok)
  ultimately show ?thesis unfolding eq by (cases ?g) auto
qed

lemma cfgsync_succeeds:
  assumes "deps_succeed d" "multiaddr_text (dp_net d)" "multiaddr_udp (dp_net d)" "ports_available s"
    and "distinct hosts" "\<forall>h \<in> set hosts. length (h_ip h) = 4"
    and "length hosts = cp_n_participants params" "0 < cp_n_participants params"
      "vector_fits ids (cp_n_participants params)" "vector_fits ports (cp_n_participants params)"
  shows "\<exists>m s'. try_create_node_configs d ev clock params tracing wallet ids ports hosts s = (Ok m, s')"
proof -
  let ?hs = "sort_hosts hosts"
  have ip: "\<forall>h \<in> set ?hs. length (h_ip h) = 4" "distinct ?hs" using assms(5,6) by simp_all
  from assms(7-10) obtain ids' s1 where st: "generate_ids (cp_n_participants params) ids s = (ids', s1)" "length ids' = length ?hs"
    "length (resolve_blend_ports ?hs ports) = length ids'" "ids' \<noteq> []"
    "try_create_node_configs d ev clock params tracing wallet ids ports hosts s =
       bind_os (map_err_os NcbBase (build_base_configs d ev ids' params network_params_default wallet
            (resolve_blend_ports ?hs ports))) (\<lambda>base s2. (finish_hosts d ev clock tracing ?hs ids' base s2, s2)) s1"
    by (rule try_create_validated)
  have "ports_available s1"
    using st(1) assms(4) fill_ids_ports by (auto simp: generate_ids_def split: option.splits)
  then obtain base s2 where base: "build_base_configs d ev ids' params network_params_default wallet (resolve_blend_ports ?hs ports) s1 = (Ok base, s2)"
    using base_configs_succeed [OF assms(1)] unfolding succeeds_def by blast
  from finish_hosts_result [OF assms(2,3) ip st(2) [symmetric] st(3,4) base] assms(1) show ?thesis
    unfolding st(5) by (auto simp: bind_os_def map_err_os_def base)
qed

lemma try_create_wrong_count:
  assumes "length hosts \<noteq> cp_n_participants params"
  shows "fst (try_create_node_configs d ev clock params tracing wallet ids ports hosts s) =
    Err (NcbValidation (HostCountMismatch (length hosts) (cp_n_participants params)))"
  using assms by (simp add: try_create_node_configs_def validate_inputs_def Let_def bind_os_def return_os_def)

section \<open>Properties\<close>

text \<open>
  What the configuration of the host in position \<open>i\<close> has to be, given the shared genesis and the
  identifiers in use.
\<close>

definition host_configured ::
  "deps \<Rightarrow> genesis_tx \<Rightarrow> node_id list \<Rightarrow> host list \<Rightarrow> nat \<Rightarrow> general_config \<Rightarrow> bool" where
  "host_configured d g ids hs i c \<longleftrightarrow>
     (let h = hs ! i; bc = gc_blend_config c; cr = dp_crypto d; sw = nc_swarm (gc_network_config c) in
      gcc_genesis_tx (gc_consensus_config c) = g \<and>
      gcc_leader_sk (gc_consensus_config c) = role_key cr prefix_ld (ids ! i) \<and>
      gb_signer bc = cr_ed_from_bytes cr (ids ! i) \<and>
      bc_listening_address (gb_backend_core bc) = quic_address [0, 0, 0, 0] (h_blend_port h) \<and>
      declares_node cr (cr_genesis_mantle_tx cr g) i
        (bc\<lparr>gb_backend_core := (gb_backend_core bc)\<lparr>bc_listening_address := quic_address (h_ip h) (h_blend_port h)\<rparr>\<rparr>)
        (role_key cr prefix_bn (ids ! i)) \<and>
      nl_secret_key (dp_net d) (ids ! i) = Ok (sw_node_key sw) \<and>
      sw_port sw = h_network_port h \<and> sw_nat sw = NatStatic (quic_address (h_ip h) (h_network_port h)) \<and>
      api_address (gc_api_config c) = ([0, 0, 0, 0], h_api_port h) \<and>
      api_testing_http_address (gc_api_config c) = ([0, 0, 0, 0], h_testing_http_port h) \<and>
      dom (gc_kms_config c) = key_id_for_preload_backend cr ` {EdKey (gb_signer bc), ZkSecret (gb_secret_zk_key bc)})"

lemma host_declarations:
  assumes "genesis_wraps cr" "create_consensus_configs cr ids params wallet = Ok cs" "c \<in> set cs"
    and "create_genesis_tx_with_declarations cr (mtx_ledger_tx (cr_genesis_mantle_tx cr (gcc_genesis_tx c)))
      (map (host_provider hosts (gcc_blend_notes c) bcs) [0..<length ids]) = Ok g"
  shows "length (mtx_ops (cr_genesis_mantle_tx cr g)) = Suc (length ids)"
    and "i < length ids \<Longrightarrow> declares_node cr (cr_genesis_mantle_tx cr g) i
      ((bcs ! i)\<lparr>gb_backend_core := (gb_backend_core (bcs ! i))
        \<lparr>bc_listening_address := quic_address (h_ip (hosts ! i)) (h_blend_port (hosts ! i))\<rparr>\<rparr>)
      (role_key cr prefix_bn (ids ! i))"
proof -
  have len: "length (gcc_blend_notes c) = length ids" using consensus_lengths(2) [OF assms(2,3)] .
  have sk: "sn_sk (gcc_blend_notes c ! i) = role_key cr prefix_bn (ids ! i)" if "i < length ids" for i
    using assms(2,3) that by (elim create_consensus_configs_Ok) (auto simp: service_note_at_def)
  have "list_all (\<lambda>p. pi_note p \<in> set (gcc_blend_notes c)) (map (host_provider hosts (gcc_blend_notes c) bcs) [0..<length ids])"
    using len by (simp add: list_all_length host_provider_def provider_of_def)
  note lock = genesis_declarations_lock_outputs [OF assms(1-3) this assms(4)]
  from lock show "length (mtx_ops (cr_genesis_mantle_tx cr g)) = Suc (length ids)" by (simp add: Let_def)
  show "declares_node cr (cr_genesis_mantle_tx cr g) i
      ((bcs ! i)\<lparr>gb_backend_core := (gb_backend_core (bcs ! i))
        \<lparr>bc_listening_address := quic_address (h_ip (hosts ! i)) (h_blend_port (hosts ! i))\<rparr>\<rparr>)
      (role_key cr prefix_bn (ids ! i))" if i: "i < length ids"
    using lock [unfolded Let_def, THEN conjunct2, rule_format, of i] i sk [OF i]
    by (simp add: declares_node_def Let_def host_provider_def provider_of_def provider_id_def provider_zk_id_def)
qed

lemma host_config_configured:
  assumes base: "build_base_configs d ev ids params network_params_default wallet ports s = (Ok base, s')"
    and i: "i < length ids" "length hosts = length ids" "length ports = length ids"
    and key: "nl_secret_key (dp_net d) (ids ! i) = Ok (sw_node_key (nc_swarm (bs_network_configs base ! i)))"
    and decl: "declares_node (dp_crypto d) (cr_genesis_mantle_tx (dp_crypto d) g) i
      ((bs_blend_configs base ! i)\<lparr>gb_backend_core := (gb_backend_core (bs_blend_configs base ! i))
        \<lparr>bc_listening_address := quic_address (h_ip (hosts ! i)) (h_blend_port (hosts ! i))\<rparr>\<rparr>)
      (role_key (dp_crypto d) prefix_bn (ids ! i))"
  shows "host_configured d g ids hosts i
    (host_config ev clock s' tracing (parts_for d hosts ids base g peer_ids) i (hosts ! i))"
proof -
  note b = build_base_configs_Ok [OF base]
  have bc: "bs_blend_configs base ! i = blend_config_for (dp_crypto d) (ids ! i) (ports ! i)"
    using i by (simp add: b(3) create_blend_configs_nth)
  have ld: "gcc_leader_sk (bs_consensus_configs base ! i) = role_key (dp_crypto d) prefix_ld (ids ! i)"
    and len: "length (bs_consensus_configs base) = length ids" "length (bs_blend_configs base) = length ids"
    using b(1) i by (auto elim!: create_consensus_configs_Ok simp: b(3))
  show ?thesis
    unfolding host_configured_def Let_def
    using key decl ld i len
    by (simp add: host_config_def parts_for_def cfgsync_kms_configs_def bc blend_config_for_def Let_def insert_commute)
qed

lemma try_create_Ok:
  assumes laws: "multiaddr_text (dp_net d)" "multiaddr_udp (dp_net d)"
    and hosts: "distinct hosts" "\<forall>h \<in> set hosts. length (h_ip h) = 4"
    and Ok: "try_create_node_configs d ev clock params tracing wallet ids ports hosts s = (Ok m, s')"
  obtains ids' s1 base first rest keys g where
    "length hosts = cp_n_participants params" "0 < length hosts"
    "generate_ids (cp_n_participants params) ids s = (ids', s1)" "length ids' = length hosts"
    "length (resolve_blend_ports (sort_hosts hosts) ports) = length ids'"
    "build_base_configs d ev ids' params network_params_default wallet (resolve_blend_ports (sort_hosts hosts) ports) s1 = (Ok base, s')"
    "bs_consensus_configs base = first # rest" "length keys = length ids'"
    "\<And>i. i < length ids' \<Longrightarrow> nl_secret_key (dp_net d) (ids' ! i) = Ok (keys ! i)"
    "\<And>i. i < length ids' \<Longrightarrow> sw_node_key (nc_swarm (bs_network_configs base ! i)) = keys ! i"
    "create_genesis_tx_with_declarations (dp_crypto d)
       (mtx_ledger_tx (cr_genesis_mantle_tx (dp_crypto d) (gcc_genesis_tx first)))
       (map (host_provider (sort_hosts hosts) (gcc_blend_notes first) (bs_blend_configs base)) [0..<length ids']) = Ok g"
    "dom m = set hosts"
    "\<And>k. k < length hosts \<Longrightarrow> m (sort_hosts hosts ! k) = Some (host_config ev clock s' tracing
       (parts_for d (sort_hosts hosts) ids' base g (map (nl_peer_id (dp_net d)) keys)) k (sort_hosts hosts ! k))"
proof -
  let ?hs = "sort_hosts hosts" and ?n = "cp_n_participants params"
  have valid: "length hosts = ?n \<and> 0 < ?n \<and> vector_fits ids ?n \<and> vector_fits ports ?n"
  proof (rule ccontr)
    assume "\<not> ?thesis"
    then show False by (rule try_create_invalid [of hosts params ids ports d ev clock tracing wallet s]) (use Ok in simp)
  qed
  then obtain ids' s1 where st: "generate_ids ?n ids s = (ids', s1)" "length ids' = length ?hs"
    "length (resolve_blend_ports ?hs ports) = length ids'" "ids' \<noteq> []"
    "try_create_node_configs d ev clock params tracing wallet ids ports hosts s =
       bind_os (map_err_os NcbBase (build_base_configs d ev ids' params network_params_default wallet
            (resolve_blend_ports ?hs ports))) (\<lambda>base s2. (finish_hosts d ev clock tracing ?hs ids' base s2, s2)) s1"
    by (elim conjE) (rule try_create_validated)
  obtain base where base: "build_base_configs d ev ids' params network_params_default wallet (resolve_blend_ports ?hs ports) s1 = (Inr base, s')"
    and fin: "finish_hosts d ev clock tracing ?hs ids' base s' = Inr m"
    using Ok [unfolded st(5)] by (auto simp: os_iffs)
  have ip: "\<forall>h \<in> set ?hs. length (h_ip h) = 4" using hosts(2) by simp
  show ?thesis
  proof (rule finish_hosts_eq [OF laws ip st(2) [symmetric] st(3,4) base, of clock tracing])
    fix first rest keys
    let ?p = "\<lambda>g. parts_for d ?hs ids' base g (map (nl_peer_id (dp_net d)) keys)"
    assume f: "bs_consensus_configs base = first # rest" "length keys = length ids'"
      "\<And>i. i < length ids' \<Longrightarrow> nl_secret_key (dp_net d) (ids' ! i) = Inr (keys ! i)"
      "\<And>i. i < length ids' \<Longrightarrow> sw_node_key (nc_swarm (bs_network_configs base ! i)) = keys ! i"
      and cover: "\<And>g. parts_cover (?p g) (length ?hs)"
      and eq: "finish_hosts d ev clock tracing ?hs ids' base s' =
       and_then (map_err NcbGenesis (create_genesis_tx_with_declarations (dp_crypto d)
          (mtx_ledger_tx (cr_genesis_mantle_tx (dp_crypto d) (gcc_genesis_tx first)))
          (map (host_provider ?hs (gcc_blend_notes first) (bs_blend_configs base)) [0..<length ids']))) (\<lambda>g.
       configure_hosts (dp_net d) ev clock s' tracing (?p g) 0 ?hs Map.empty)"
    from fin [unfolded eq] obtain g where g: "create_genesis_tx_with_declarations (dp_crypto d)
          (mtx_ledger_tx (cr_genesis_mantle_tx (dp_crypto d) (gcc_genesis_tx first)))
          (map (host_provider ?hs (gcc_blend_notes first) (bs_blend_configs base)) [0..<length ids']) = Inr g"
      and m: "configure_hosts (dp_net d) ev clock s' tracing (?p g) 0 ?hs Map.empty = Inr m"
      by (auto simp: and_then_eq_Ok map_err_eq_Ok)
    have "parts_cover (?p g) (0 + length ?hs)" "distinct ?hs" using cover hosts(1) by simp_all
    from configure_hosts_Ok [OF laws(1) ip this(2,1), of ev clock s' tracing Map.empty] m
    show ?thesis using valid st(1-4) base f g by (intro that [of ids' s1 base first rest keys g]) auto
  qed
qed

text \<open>
  Property C8.  When the server has generated configurations for a set of hosts, every host has one
  and no other; all share one genesis with one declaration per host.  The host in position \<open>i\<close> of
  the sorted list is declared with its own blend keys at its announced address and blend port, locks
  an output owned by its own note key, listens on the ports it announced and dials the first host
  of the list only, at that host's announced address.  Its key store holds its two blend keys and
  nothing else, whatever accounts the wallet has, and its chain start time is the clock at the
  moment this host was written.
\<close>

theorem cfgsync_configs_consistent:
  assumes "genesis_wraps (dp_crypto d)" "multiaddr_text (dp_net d)" "multiaddr_udp (dp_net d)"
    and "distinct hosts" "\<forall>h \<in> set hosts. length (h_ip h) = 4"
    and "try_create_node_configs d ev clock params tracing wallet ids ports hosts s = (Ok m, s')"
  shows "dom m = set hosts \<and> length hosts = cp_n_participants params \<and>
    (\<exists>g ids' key0. length ids' = length hosts \<and> (\<forall>given. ids = Some given \<longrightarrow> ids' = given) \<and>
      length (mtx_ops (cr_genesis_mantle_tx (dp_crypto d) g)) = Suc (length hosts) \<and>
      nl_secret_key (dp_net d) (ids' ! 0) = Ok key0 \<and>
      (\<forall>i < length hosts. let hs = sort_hosts hosts in \<exists>c. m (hs ! i) = Some c \<and>
         host_configured d g ids' hs i c \<and> gt_chain_start_time (gc_time_config c) = clock i \<and>
         nc_initial_peers (gc_network_config c) =
           (if i = 0 then [] else [quic_address (h_ip (hs ! 0)) (h_network_port (hs ! 0)) @ [P2p (nl_peer_id (dp_net d) key0)]])))"
  using assms(2-6)
proof (rule try_create_Ok)
  fix ids' s1 base first rest keys g
  let ?hs = "sort_hosts hosts"
  let ?p = "parts_for d ?hs ids' base g (map (nl_peer_id (dp_net d)) keys)"
  assume n: "length hosts = cp_n_participants params" "0 < length hosts" "length ids' = length hosts"
      "length (resolve_blend_ports ?hs ports) = length ids'"
    and ids: "generate_ids (cp_n_participants params) ids s = (ids', s1)"
    and base: "build_base_configs d ev ids' params network_params_default wallet (resolve_blend_ports ?hs ports) s1 = (Inr base, s')"
    and f: "bs_consensus_configs base = first # rest" "length keys = length ids'"
      "\<And>i. i < length ids' \<Longrightarrow> nl_secret_key (dp_net d) (ids' ! i) = Inr (keys ! i)"
      "\<And>i. i < length ids' \<Longrightarrow> sw_node_key (nc_swarm (bs_network_configs base ! i)) = keys ! i"
    and g: "create_genesis_tx_with_declarations (dp_crypto d)
       (mtx_ledger_tx (cr_genesis_mantle_tx (dp_crypto d) (gcc_genesis_tx first)))
       (map (host_provider ?hs (gcc_blend_notes first) (bs_blend_configs base)) [0..<length ids']) = Inr g"
    and m: "dom m = set hosts" "\<And>k. k < length hosts \<Longrightarrow> m (?hs ! k) = Some (host_config ev clock s' tracing ?p k (?hs ! k))"
  note decl = host_declarations [OF assms(1) build_base_configs_Ok(1) [OF base] _ g]
  have "\<exists>c. m (?hs ! i) = Some c \<and> host_configured d g ids' ?hs i c \<and> gt_chain_start_time (gc_time_config c) = clock i \<and>
      nc_initial_peers (gc_network_config c) = (if i = 0 then []
        else [quic_address (h_ip (?hs ! 0)) (h_network_port (?hs ! 0)) @ [P2p (nl_peer_id (dp_net d) (keys ! 0))]])"
    if i: "i < length hosts" for i
  proof (intro exI conjI)
    show "m (?hs ! i) = Some (host_config ev clock s' tracing ?p i (?hs ! i))" using m(2) i by simp
    show "host_configured d g ids' ?hs i (host_config ev clock s' tracing ?p i (?hs ! i))"
      using base n i f by (intro host_config_configured decl) simp_all
  qed (use i n f(2) in \<open>simp_all add: host_config_def default_time_config_def Let_def parts_for_def star_peers_def\<close>)
  moreover have "length (mtx_ops (cr_genesis_mantle_tx (dp_crypto d) g)) = Suc (length hosts)"
    using decl(1) f(1) n by simp
  moreover have "\<forall>given. ids = Some given \<longrightarrow> ids' = given" using ids by (auto simp: generate_ids_def)
  ultimately show ?thesis
    using m(1) n f(3) [of 0] unfolding Let_def
    by (intro conjI exI [of _ g] exI [of _ ids'] exI [of _ "keys ! 0"]) simp_all
qed

definition cfgsync_deps :: deps where
  "cfgsync_deps = demo_deps\<lparr>dp_net := demo_net_lib\<lparr>nl_parse_multiaddr :=
     (\<lambda>t. case parse_quic_text t of Inl e \<Rightarrow> Ok [] | Inr a \<Rightarrow> Ok a)\<rparr>\<rparr>"

lemma cfgsync_deps_laws:
  "genesis_wraps (dp_crypto cfgsync_deps)" "deps_succeed cfgsync_deps" "multiaddr_text (dp_net cfgsync_deps)"
  "multiaddr_udp (dp_net cfgsync_deps)"
proof -
  show "genesis_wraps (dp_crypto cfgsync_deps)" by (simp add: cfgsync_deps_def)
  show "deps_succeed cfgsync_deps"
    using demo_deps_succeed by (auto simp: deps_succeed_def cfgsync_deps_def is_ok_iff split: sum.splits)
  show "multiaddr_text (dp_net cfgsync_deps)"
    by (simp add: multiaddr_text_def cfgsync_deps_def parse_quic_text_Ok)
  show "multiaddr_udp (dp_net cfgsync_deps)" by (simp add: multiaddr_udp_def cfgsync_deps_def demo_net_lib_def)
qed

definition demo_hosts :: "host list" where
  "demo_hosts = [node_from_ip [10, 0, 0, 2] ''node-1'' \<lparr>po_network_port = None, po_blend_port = None, po_api_port = None, po_testing_http_port = None\<rparr>,
                 node_from_ip [10, 0, 0, 1] ''node-0'' \<lparr>po_network_port = None, po_blend_port = None, po_api_port = None, po_testing_http_port = None\<rparr>]"

lemma demo_hosts_ok: "distinct demo_hosts" "\<forall>h \<in> set demo_hosts. length (h_ip h) = 4" "length demo_hosts = 2"
  by (simp_all add: demo_hosts_def node_from_ip_def from_parts_def)

text \<open>
  Generation refuses a wrong number of hosts with the two counts; when the calls into
  the node crates and the port queries succeed, it succeeds exactly for the configured, positive
  number of hosts and identifier and port vectors that fit it.  Whatever those calls answer, the
  only failures are refused inputs, failed base configurations and a failed genesis transaction: the
  checks on addresses, peer indices, key bytes and vector lengths further down never fire.
\<close>

theorem cfgsync_errors:
  assumes "multiaddr_text (dp_net d)" "multiaddr_udp (dp_net d)"
    and "distinct hosts" "\<forall>h \<in> set hosts. length (h_ip h) = 4"
    and r_def: "r = fst (try_create_node_configs d ev clock params tracing wallet ids ports hosts s)"
  shows "(deps_succeed d \<and> ports_available s \<longrightarrow> (is_ok r \<longleftrightarrow>
       length hosts = cp_n_participants params \<and> 0 < cp_n_participants params \<and>
       vector_fits ids (cp_n_participants params) \<and> vector_fits ports (cp_n_participants params))) \<and>
    (length hosts \<noteq> cp_n_participants params \<longrightarrow>
       r = Err (NcbValidation (HostCountMismatch (length hosts) (cp_n_participants params)))) \<and>
    (\<forall>e. r = Err e \<longrightarrow> (\<exists>x. e = NcbValidation x) \<or> (\<exists>x. e = NcbBase x) \<or> (\<exists>x. e = NcbGenesis x))"
proof (cases "length hosts = cp_n_participants params \<and> 0 < cp_n_participants params \<and>
    vector_fits ids (cp_n_participants params) \<and> vector_fits ports (cp_n_participants params)")
  case False
  show ?thesis
    by (rule try_create_invalid [OF False, of d ev clock tracing wallet s])
      (use False in \<open>auto simp: r_def validate_inputs_def\<close>)
next
  case True
  let ?hs = "sort_hosts hosts"
  have ip: "\<forall>h \<in> set ?hs. length (h_ip h) = 4" "distinct ?hs" using assms(3,4) by simp_all
  from True obtain ids' s1 where st: "generate_ids (cp_n_participants params) ids s = (ids', s1)" "length ids' = length ?hs"
    "length (resolve_blend_ports ?hs ports) = length ids'" "ids' \<noteq> []"
    "try_create_node_configs d ev clock params tracing wallet ids ports hosts s =
       bind_os (map_err_os NcbBase (build_base_configs d ev ids' params network_params_default wallet
            (resolve_blend_ports ?hs ports))) (\<lambda>base s2. (finish_hosts d ev clock tracing ?hs ids' base s2, s2)) s1"
    by (elim conjE) (rule try_create_validated)
  obtain rb s2 where rb: "build_base_configs d ev ids' params network_params_default wallet (resolve_blend_ports ?hs ports) s1 = (rb, s2)"
    by (cases "build_base_configs d ev ids' params network_params_default wallet (resolve_blend_ports ?hs ports) s1")
  have "(\<exists>m. r = Ok m) \<or> (\<exists>x. r = Err (NcbBase x)) \<or> (\<exists>x. r = Err (NcbGenesis x))"
  proof (cases rb)
    case (Inl e)
    then show ?thesis by (simp add: r_def st(5) rb bind_os_def map_err_os_def)
  next
    case (Inr base)
    have "r = finish_hosts d ev clock tracing ?hs ids' base s2"
      by (simp add: r_def st(5) rb Inr bind_os_def map_err_os_def)
    with finish_hosts_result [OF assms(1,2) ip st(2) [symmetric] st(3,4) rb [unfolded Inr]] show ?thesis by auto
  qed
  moreover have "is_ok r" if "deps_succeed d" "ports_available s"
    using cfgsync_succeeds [OF that(1) assms(1,2) that(2) assms(3,4), of params ids ports] True
    unfolding r_def by (metis fst_conv is_ok_simps(1))
  ultimately show ?thesis using True by auto
qed

theorem cfgsync_configs_consistent_witness:
  "\<exists>m s' c. try_create_node_configs cfgsync_deps Map.empty (\<lambda>i. 1000 + i)
       \<lparr>cp_n_participants = 2, cp_security_param = 10, cp_active_slot_coeff = Fin 1\<rparr> (tl_default (dp_trace demo_deps))
       wallet_config_default None None demo_hosts demo_os = (Ok m, s') \<and> dom m = set demo_hosts \<and>
     m (sort_hosts demo_hosts ! 1) = Some c \<and> gt_chain_start_time (gc_time_config c) = 1001"
proof -
  let ?params = "\<lparr>cp_n_participants = 2, cp_security_param = 10, cp_active_slot_coeff = Fin 1\<rparr>"
  let ?hs = "sort_hosts demo_hosts"
  have n: "length demo_hosts = cp_n_participants ?params" "0 < cp_n_participants ?params"
    "vector_fits None (cp_n_participants ?params)" by (simp_all add: demo_hosts_ok vector_fits_def)
  obtain m s' where m: "try_create_node_configs cfgsync_deps Map.empty (\<lambda>i. 1000 + i) ?params (tl_default (dp_trace demo_deps))
       wallet_config_default None None demo_hosts demo_os = (Ok m, s')"
    using cfgsync_succeeds [OF cfgsync_deps_laws(2-4) demo_os_ports demo_hosts_ok(1,2) n n(3)] by blast
  from cfgsync_configs_consistent [OF cfgsync_deps_laws(1,3,4) demo_hosts_ok(1,2) m] m show ?thesis
    by (auto simp: demo_hosts_ok Let_def dest!: spec [of _ "1 :: nat"])
qed

theorem cfgsync_errors_witness:
  "fst (try_create_node_configs cfgsync_deps Map.empty (\<lambda>i. 1000 + i)
       \<lparr>cp_n_participants = 3, cp_security_param = 10, cp_active_slot_coeff = Fin 1\<rparr> (tl_default (dp_trace demo_deps))
       wallet_config_default None None demo_hosts demo_os) = Err (NcbValidation (HostCountMismatch 2 3))"
  using cfgsync_errors [OF cfgsync_deps_laws(3,4) demo_hosts_ok(1,2) refl, where ev = Map.empty and clock = "\<lambda>i. 1000 + i"
      and params = "\<lparr>cp_n_participants = 3, cp_security_param = 10, cp_active_slot_coeff = Fin 1\<rparr>"
      and tracing = "tl_default (dp_trace demo_deps)" and wallet = wallet_config_default and ids = None and ports = None
      and s = demo_os]
  by (simp add: demo_hosts_ok)

end
