(* ===== verification/Cfgsync_Repo.thy ===== *)
theory Cfgsync_Repo
  imports Cfgsync State_Machine "HOL-Library.AList" "HOL-Library.Multiset"
begin

text \<open>
  The registration barrier of the cfgsync server (\<^verbatim>\<open>tools/cfgsync_tf/src/repo.rs\<close>).  Handlers of
  client requests register a host together with the sending half of a fresh reply channel, while
  one background task waits until enough hosts are registered or a timer fires, takes all waiting
  hosts and answers them.

  The background task and the handlers interleave only where the lock is free, so a run is a
  sequence of events: a registration, a poll of the number of hosts, the timer, and the task taking
  the waiting hosts.  The take event carries the order in which the hash map happens to be
  iterated.  A reply channel is a number; the log records what each channel delivers, including the
  error a receiver sees when its sender is dropped without sending.
\<close>

section \<open>State\<close>

type_synonym client = nat

datatype repo_response =
  RConfig general_config
| RTimeout
| RError string

datatype reply = Sent repo_response | SenderDropped

record cfgsync_config =
  cs_port :: u16
  cs_n_hosts :: nat
  cs_timeout :: u64
  cs_security_param :: nat
  cs_active_slot_coeff :: f64
  cs_wallet :: wallet_config
  cs_ids :: "node_id list option"
  cs_blend_ports :: "u16 list option"
  cs_subnetwork_size :: nat
  cs_dispersal_factor :: nat
  cs_num_samples :: u16
  cs_num_subnets :: u16
  cs_old_blobs_check_interval :: duration
  cs_blobs_validity_duration :: duration
  cs_min_dispersal_peers :: nat
  cs_min_replication_peers :: nat
  cs_monitor_failure_time_window :: duration
  cs_balancer_interval :: duration
  cs_retry_shares_limit :: nat
  cs_retry_commitments_limit :: nat
  cs_tracing_settings :: tracing_settings

definition to_consensus_params :: "cfgsync_config \<Rightarrow> consensus_params" where
  "to_consensus_params c =
     \<lparr>cp_n_participants = cs_n_hosts c, cp_security_param = cs_security_param c,
      cp_active_slot_coeff = cs_active_slot_coeff c\<rparr>"

definition to_tracing_settings :: "cfgsync_config \<Rightarrow> tracing_settings" where
  "to_tracing_settings c = cs_tracing_settings c"

definition cfgsync_wallet_config :: "cfgsync_config \<Rightarrow> wallet_config" where
  "cfgsync_wallet_config c = cs_wallet c"

record config_repo =
  cr_n_hosts :: nat
  cr_consensus_params :: consensus_params
  cr_tracing_settings :: tracing_settings
  cr_wallet_config :: wallet_config
  cr_timeout_duration :: duration
  cr_ids :: "node_id list option"
  cr_blend_ports :: "u16 list option"

definition repo_from_config :: "cfgsync_config \<Rightarrow> config_repo" where
  "repo_from_config c =
     \<lparr>cr_n_hosts = cs_n_hosts c, cr_consensus_params = to_consensus_params c,
      cr_tracing_settings = to_tracing_settings c, cr_wallet_config = cfgsync_wallet_config c,
      cr_timeout_duration = from_secs (unat (cs_timeout c)), cr_ids = cs_ids c, cr_blend_ports = cs_blend_ports c\<rparr>"

datatype task_phase = Waiting | AllAnnounced | Expired | Finished

record repo_state =
  rs_waiting :: "(host \<times> client) list"
  rs_phase :: task_phase
  rs_replies :: "(client \<times> reply) list"

definition repo_new :: repo_state where
  "repo_new = \<lparr>rs_waiting = [], rs_phase = Waiting, rs_replies = []\<rparr>"

section \<open>Operations\<close>

text \<open>\<^verbatim>\<open>HashMap::insert\<close>: a sender that was registered for the same host is dropped.\<close>

definition register :: "host \<Rightarrow> client \<Rightarrow> repo_state \<Rightarrow> repo_state" where
  "register h c st =
     st\<lparr>rs_waiting := AList.update h c (rs_waiting st),
        rs_replies := rs_replies st @
          (case map_of (rs_waiting st) h of None \<Rightarrow> [] | Some old \<Rightarrow> [(old, SenderDropped)])\<rparr>"

definition generate_node_configs ::
  "(node_config_build_error \<Rightarrow> string) \<Rightarrow> deps \<Rightarrow> env \<Rightarrow> (nat \<Rightarrow> nat) \<Rightarrow> os \<Rightarrow> config_repo \<Rightarrow> host list \<Rightarrow>
   string + (host \<Rightarrow> general_config option)" where
  "generate_node_configs show_err d ev clock s r hosts =
     map_err show_err (fst (try_create_node_configs d ev clock (cr_consensus_params r) (cr_tracing_settings r)
       (cr_wallet_config r) (cr_ids r) (cr_blend_ports r) hosts s))"

definition send_error_to_all :: "string \<Rightarrow> (host \<times> client) list \<Rightarrow> (client \<times> reply) list" where
  "send_error_to_all message waiting = map (\<lambda>(_, c). (c, Sent (RError message))) waiting"

definition send_timeout_to_all :: "(host \<times> client) list \<Rightarrow> (client \<times> reply) list" where
  "send_timeout_to_all waiting = map (\<lambda>(_, c). (c, Sent RTimeout)) waiting"

definition send_configs_to_all_hosts ::
  "(host \<Rightarrow> general_config option) \<Rightarrow> (host \<times> client) list \<Rightarrow> (client \<times> reply) list" where
  "send_configs_to_all_hosts configs waiting =
     map (\<lambda>(h, c). (c, Sent (case configs h of
         Some config \<Rightarrow> RConfig config
       | None \<Rightarrow> RError ''missing config for host''))) waiting"

datatype repo_event =
  Register host client
| PollHosts
| TimerFires
| TakeWaiting "(host \<times> client) list"

definition serve_all ::
  "(host list \<Rightarrow> string + (host \<Rightarrow> general_config option)) \<Rightarrow> (host \<times> client) list \<Rightarrow> (client \<times> reply) list" where
  "serve_all gen waiting =
     (case gen (map fst waiting) of
        Inl message \<Rightarrow> send_error_to_all message waiting
      | Inr configs \<Rightarrow> send_configs_to_all_hosts configs waiting)"

fun repo_step ::
  "(host list \<Rightarrow> string + (host \<Rightarrow> general_config option)) \<Rightarrow> nat \<Rightarrow> repo_event \<Rightarrow> repo_state \<Rightarrow> repo_state" where
  "repo_step gen n (Register h c) st = register h c st"
| "repo_step gen n PollHosts st =
     (if rs_phase st = Waiting \<and> n \<le> length (rs_waiting st) then st\<lparr>rs_phase := AllAnnounced\<rparr> else st)"
| "repo_step gen n TimerFires st =
     (if rs_phase st = Waiting then st\<lparr>rs_phase := Expired\<rparr> else st)"
| "repo_step gen n (TakeWaiting order) st =
     (if mset order \<noteq> mset (rs_waiting st) then st
      else if rs_phase st = AllAnnounced
        then st\<lparr>rs_waiting := [], rs_phase := Finished, rs_replies := rs_replies st @ serve_all gen order\<rparr>
      else if rs_phase st = Expired
        then st\<lparr>rs_waiting := [], rs_phase := Finished, rs_replies := rs_replies st @ send_timeout_to_all order\<rparr>
      else st)"

abbreviation repo_run where
  "repo_run gen n evs \<equiv> fold (repo_step gen n) evs repo_new"

fun registration :: "repo_event \<Rightarrow> client list" where
  "registration (Register h c) = [c]"
| "registration _ = []"

definition registered :: "repo_event list \<Rightarrow> client list" where
  "registered evs = concat (map registration evs)"

section \<open>Invariant\<close>

text \<open>The history of registrations travels along with the state.\<close>

definition traced_step ::
  "(host list \<Rightarrow> string + (host \<Rightarrow> general_config option)) \<Rightarrow> nat \<Rightarrow> repo_event \<Rightarrow> client list \<times> repo_state \<Rightarrow>
   client list \<times> repo_state" where
  "traced_step gen n e p = (fst p @ registration e, repo_step gen n e (snd p))"

definition accounted :: "client list \<times> repo_state \<Rightarrow> bool" where
  "accounted p \<longleftrightarrow>
     mset (map fst (rs_replies (snd p))) + mset (map snd (rs_waiting (snd p))) = mset (fst p) \<and>
     distinct (map fst (rs_waiting (snd p)))"

lemma mset_update:
  "mset (map snd (AList.update h c al)) +
     (case map_of al h of None \<Rightarrow> {#} | Some old \<Rightarrow> {#old#}) = mset (map snd al) + {#c#}"
  by (induction al) auto

lemma serve_all_clients: "map fst (serve_all gen order) = map snd order"
  by (auto simp: serve_all_def send_error_to_all_def send_configs_to_all_hosts_def split: sum.splits)

lemma timeout_clients: "map fst (send_timeout_to_all order) = map snd order"
  by (auto simp: send_timeout_to_all_def)

lemma served_clients:
  "image_mset fst (mset (serve_all gen order)) = image_mset snd (mset order)"
  "image_mset fst (mset (send_timeout_to_all order)) = image_mset snd (mset order)"
  by (metis mset_map serve_all_clients) (metis mset_map timeout_clients)

lemma accounted_step: "accounted p \<Longrightarrow> accounted (traced_step gen n e p)"
proof (cases e)
  case (Register h c)
  assume acc: "accounted p"
  have "mset (map fst (rs_replies (register h c (snd p)))) + mset (map snd (rs_waiting (register h c (snd p)))) =
      mset (map fst (rs_replies (snd p))) + (mset (map snd (AList.update h c (rs_waiting (snd p)))) +
        (case map_of (rs_waiting (snd p)) h of None \<Rightarrow> {#} | Some old \<Rightarrow> {#old#}))"
    by (simp add: register_def split: option.splits)
  with acc show ?thesis
    unfolding mset_update by (simp add: accounted_def traced_step_def Register register_def distinct_update)
next
  case (TakeWaiting order)
  assume acc: "accounted p"
  then show ?thesis
    by (simp add: accounted_def traced_step_def TakeWaiting served_clients)
qed (auto simp: accounted_def traced_step_def)

interpretation repo_machine: state_machine "traced_step gen n" "\<lambda>_. True" accounted for gen n
  by unfold_locales (rule accounted_step)

lemma repo_log: "\<exists>new. rs_replies (repo_step gen n e st) = rs_replies st @ new"
  by (cases e) (auto simp: register_def)

interpretation repo_replies: log_machine "repo_step gen n" "\<lambda>_. True" "\<lambda>_. True" rs_replies for gen n
  by unfold_locales (simp_all add: repo_log)

lemma traced_run:
  "fold (traced_step gen n) evs (cs, st) = (cs @ registered evs, fold (repo_step gen n) evs st)"
  by (induction evs arbitrary: cs st) (simp_all add: traced_step_def registered_def)

lemma repo_accounted: "accounted (registered evs, repo_run gen n evs)"
proof -
  have "accounted ([], repo_new)" by (simp add: accounted_def repo_new_def)
  from repo_machine.run_inv [OF this, of evs gen n] show ?thesis
    by (simp add: traced_run list_all_length)
qed

lemma finished_step:
  assumes "rs_phase st = Finished"
  shows "rs_phase (repo_step gen n e st) = Finished"
    and "\<exists>new. rs_replies (repo_step gen n e st) = rs_replies st @ new \<and> (\<forall>x \<in> set new. snd x = SenderDropped)"
  using assms by (cases e; auto simp: register_def split: option.splits)+

lemma finished_run:
  assumes "rs_phase st = Finished"
  shows "rs_phase (fold (repo_step gen n) evs st) = Finished \<and>
    (\<exists>new. rs_replies (fold (repo_step gen n) evs st) = rs_replies st @ new \<and> (\<forall>x \<in> set new. snd x = SenderDropped))"
  using assms
proof (induction evs arbitrary: st)
  case (Cons e evs)
  obtain a where a: "rs_replies (repo_step gen n e st) = rs_replies st @ a" "\<forall>x \<in> set a. snd x = SenderDropped"
    using finished_step(2) [OF Cons.prems] by blast
  obtain b where b: "rs_phase (fold (repo_step gen n) evs (repo_step gen n e st)) = Finished"
      "rs_replies (fold (repo_step gen n) evs (repo_step gen n e st)) = rs_replies (repo_step gen n e st) @ b"
      "\<forall>x \<in> set b. snd x = SenderDropped"
    using Cons.IH [OF finished_step(1) [OF Cons.prems]] by blast
  with a show ?case by (intro conjI exI [of _ "a @ b"]) auto
qed simp

lemma distinct_mset_parts:
  assumes "mset xs + mset ys = mset zs" "distinct zs"
  shows "distinct xs \<and> set xs \<inter> set ys = {} \<and> set xs \<union> set ys = set zs"
proof -
  from assms(1) have eq: "mset (xs @ ys) = mset zs" by simp
  with assms(2) have "distinct (xs @ ys)" by (metis mset_eq_imp_distinct_iff)
  with mset_eq_setD [OF eq] show ?thesis by auto
qed

section \<open>Properties\<close>

text \<open>
  Property C7.  Whatever the interleaving of registrations, polls, the timer and the background
  task, every reply channel delivers at most one result and a client that was not answered is
  still waiting, under exactly one host; replies are never withdrawn.  Once the background task
  has finished, no client receives anything any more except the error of a dropped sender: a host
  that announces itself too late waits until somebody else announces the same host.
\<close>

theorem repo_answers_once:
  assumes "distinct (registered (evs @ later))"
  shows "let st = repo_run gen n evs; st' = repo_run gen n (evs @ later) in
    distinct (map fst (rs_replies st')) \<and> distinct (map fst (rs_waiting st')) \<and>
    (\<forall>c \<in> set (registered (evs @ later)).
       c \<in> fst ` set (rs_replies st') \<longleftrightarrow> c \<notin> snd ` set (rs_waiting st')) \<and>
    (\<exists>new. rs_replies st' = rs_replies st @ new \<and>
       (rs_phase st = Finished \<longrightarrow> rs_phase st' = Finished \<and> (\<forall>x \<in> set new. snd x = SenderDropped)))"
proof -
  let ?st = "repo_run gen n evs" and ?st' = "repo_run gen n (evs @ later)"
  have acc: "mset (map fst (rs_replies ?st')) + mset (map snd (rs_waiting ?st')) = mset (registered (evs @ later))"
    and keys: "distinct (map fst (rs_waiting ?st'))"
    using repo_accounted [of "evs @ later" gen n] by (simp_all add: accounted_def)
  note parts = distinct_mset_parts [OF acc assms]
  have "\<exists>new. rs_replies ?st' = rs_replies ?st @ new \<and>
       (rs_phase ?st = Finished \<longrightarrow> rs_phase ?st' = Finished \<and> (\<forall>x \<in> set new. snd x = SenderDropped))"
    using repo_replies.run_log [of gen n later ?st] finished_run [of ?st gen n later] by auto
  with parts keys show ?thesis unfolding Let_def by auto
qed


theorem repo_answers_once_witness:
  "let gen = \<lambda>_. Err ''unavailable''; h = demo_hosts ! 0;
       st = repo_run gen 1 [Register h 1, PollHosts, TakeWaiting [(h, 1)], Register h 2] in
   distinct (map fst (rs_replies st)) \<and> rs_replies st = [(1, Sent (RError ''unavailable''))] \<and>
   rs_waiting st = [(h, 2)]"
proof -
  let ?gen = "\<lambda>_. Err ''unavailable''" and ?h = "demo_hosts ! 0"
  let ?evs = "[Register ?h 1, PollHosts, TakeWaiting [(?h, 1)]]"
  have "distinct (registered (?evs @ [Register ?h 2]))" by (simp add: registered_def)
  from repo_answers_once [OF this, of ?gen 1] show ?thesis
    by (simp add: Let_def repo_new_def register_def serve_all_def send_error_to_all_def)
qed

definition demo_cfgsync :: cfgsync_config where
  "demo_cfgsync =
     \<lparr>cs_port = 4400, cs_n_hosts = 2, cs_timeout = 30, cs_security_param = 10, cs_active_slot_coeff = Fin 1,
      cs_wallet = wallet_config_default, cs_ids = None, cs_blend_ports = None, cs_subnetwork_size = 1,
      cs_dispersal_factor = 1, cs_num_samples = 1, cs_num_subnets = 1, cs_old_blobs_check_interval = 1,
      cs_blobs_validity_duration = 1, cs_min_dispersal_peers = 1, cs_min_replication_peers = 1,
      cs_monitor_failure_time_window = 1, cs_balancer_interval = 1, cs_retry_shares_limit = 1,
      cs_retry_commitments_limit = 1, cs_tracing_settings = tl_default (dp_trace demo_deps)\<rparr>"


end
