(* ===== verification/Cfgsync_Server.thy ===== *)
theory Cfgsync_Server
  imports Config_Tree Cfgsync_Repo "HOL-Library.Sublist"
begin

text \<open>
  The request handler of the cfgsync server (\<^verbatim>\<open>tools/cfgsync_tf/src/server.rs\<close>) and its client
  (\<^verbatim>\<open>client.rs\<close>, \<^verbatim>\<open>bin/cfgsync-client.rs\<close>): what a client announces, which host the server registers for
  it, and how the reply becomes the configuration file of the node.  Serialization of node
  configurations belongs to the node crates and is an argument.
\<close>

section \<open>Client\<close>

record client_ip =
  ci_ip :: "u8 list"
  ci_identifier :: string
  ci_network_port :: "u16 option"
  ci_blend_port :: "u16 option"
  ci_api_port :: "u16 option"
  ci_testing_http_port :: "u16 option"

definition parse_ip :: "string \<Rightarrow> u8 list" where
  "parse_ip s = unwrap_or (parse_ipv4 s) localhost"

definition env_port :: "env \<Rightarrow> string \<Rightarrow> u16 option" where
  "env_port ev name = map_option of_nat (Option.bind (ev name) (parse_uint 65535))"

definition client_payload :: "env \<Rightarrow> client_ip" where
  "client_payload ev =
     \<lparr>ci_ip = parse_ip (unwrap_or (ev ''CFG_HOST_IP'') ''127.0.0.1''),
      ci_identifier = unwrap_or (ev ''CFG_HOST_IDENTIFIER'') ''unidentified-node'',
      ci_network_port = env_port ev ''CFG_NETWORK_PORT'',
      ci_blend_port = env_port ev ''CFG_BLEND_PORT'',
      ci_api_port = env_port ev ''CFG_API_PORT'',
      ci_testing_http_port = env_port ev ''CFG_TESTING_HTTP_PORT''\<rparr>"

definition node_config_endpoint :: "env \<Rightarrow> string" where
  "node_config_endpoint ev =
     unwrap_or (ev ''CFG_SERVER_ADDR'') (''http://127.0.0.1:'' @ show_nat (cfgsync_port ev)) @ ''/node''"

section \<open>Server\<close>

definition port_overrides_of :: "client_ip \<Rightarrow> port_overrides" where
  "port_overrides_of payload =
     \<lparr>po_network_port = ci_network_port payload, po_blend_port = ci_blend_port payload,
      po_api_port = ci_api_port payload, po_testing_http_port = ci_testing_http_port payload\<rparr>"

definition node_config_host :: "client_ip \<Rightarrow> host" where
  "node_config_host payload = node_from_ip (ci_ip payload) (ci_identifier payload) (port_overrides_of payload)"

text \<open>
  \<^verbatim>\<open>pointer_mut\<close> followed by an assignment.  The tokens used are not array indices, so a sequence on
  the way makes the pointer dangle.
\<close>

fun set_pointer :: "string list \<Rightarrow> tree \<Rightarrow> tree \<Rightarrow> tree" where
  "set_pointer [] x v = x"
| "set_pointer (k # ks) x v = in_section k (set_pointer ks x) v"

definition http_address_path :: "string list" where
  "http_address_path = [''http'', ''backend_settings'', ''address'']"

definition testing_address_path :: "string list" where
  "testing_address_path = [''testing_http'', ''backend_settings'', ''address'']"

definition min_session_path :: "string list" where
  "min_session_path = [''da_network'', ''min_session_members'']"

definition override_api_ports :: "port_overrides \<Rightarrow> tree \<Rightarrow> tree" where
  "override_api_ports ports config =
     (let c1 = (case po_api_port ports of
                  None \<Rightarrow> config
                | Some p \<Rightarrow> set_pointer http_address_path (Str (''0.0.0.0:'' @ show_nat (unat p))) config)
      in case po_testing_http_port ports of
           None \<Rightarrow> c1
         | Some p \<Rightarrow> set_pointer testing_address_path (Str (''0.0.0.0:'' @ show_nat (unat p))) c1)"

definition override_min_session_members :: "tree \<Rightarrow> tree" where
  "override_min_session_members = set_pointer min_session_path (Number 1)"

definition cryptarchia_json_defaults :: "(tree \<times> tree) list \<Rightarrow> (tree \<times> tree) list" where
  "cryptarchia_json_defaults m =
     or_insert ''sync'' (Mapping [(Str ''orphan'', Mapping [(Str ''max_orphan_cache_size'', Number 5)])])
       (or_insert ''network_adapter_settings'' (Mapping [(Str ''topic'', Str ''/cryptarchia/proto'')])
         (alter ''bootstrap'' (on_mapping (or_insert ''ibd''
             (Mapping [(Str ''peers'', Sequence []),
                       (Str ''delay_before_new_download'', Mapping [(Str ''secs'', Number 10), (Str ''nanos'', Number 0)])])))
           (or_insert ''bootstrap'' (Mapping []) m)))"

definition inject_defaults :: "tree \<Rightarrow> tree" where
  "inject_defaults = in_section ''cryptarchia'' (on_mapping cryptarchia_json_defaults)"

datatype http_response =
  HttpOk tree
| HttpRequestTimeout
| HttpInternalError string

definition adjust_served_config :: "port_overrides \<Rightarrow> tree \<Rightarrow> tree" where
  "adjust_served_config ports raw =
     override_min_session_members (override_api_ports ports (inject_defaults raw))"

text \<open>What the handler of one request answers once its reply channel has delivered.\<close>

definition node_config_response ::
  "(run_config \<Rightarrow> string + tree) \<Rightarrow> crypto \<Rightarrow> axum_settings \<Rightarrow> env \<Rightarrow> port_overrides \<Rightarrow> reply \<Rightarrow> http_response" where
  "node_config_response ser cr ax ev ports r =
     (case r of
        SenderDropped \<Rightarrow> HttpInternalError ''Error receiving config''
      | Sent (RConfig c) \<Rightarrow>
          (case ser (create_node_config cr ax ev c) of
             Inl err \<Rightarrow> HttpInternalError (''failed to serialize node config: '' @ err)
           | Inr raw \<Rightarrow> HttpOk (adjust_served_config ports raw))
      | Sent RTimeout \<Rightarrow> HttpRequestTimeout
      | Sent (RError message) \<Rightarrow> HttpInternalError message)"

text \<open>
  The client turns the body into its configuration type and writes it as adjusted YAML; the copy of
  the body that the message of a failed deserialization carries is left out.
\<close>

definition get_config :: "(tree \<Rightarrow> string + 'c) \<Rightarrow> http_response \<Rightarrow> string + 'c" where
  "get_config de resp =
     (case resp of
        HttpOk body \<Rightarrow> map_err (\<lambda>e. ''Failed to deserialize body: '' @ e) (de body)
      | HttpRequestTimeout \<Rightarrow> Err ''Server error: 408''
      | HttpInternalError _ \<Rightarrow> Err ''Server error: 500'')"

definition pull_to_file ::
  "(tree \<Rightarrow> string + 'c) \<Rightarrow> ('c \<Rightarrow> string + tree) \<Rightarrow> http_response \<Rightarrow> string + tree" where
  "pull_to_file de to_yaml resp =
     and_then (get_config de resp) (\<lambda>config.
     and_then (map_err (\<lambda>e. ''Failed to serialize config to YAML value: '' @ e) (to_yaml config)) (\<lambda>v.
       Ok (normalize_ed25519_sigs (inject_ibd_into_cryptarchia v))))"

section \<open>Facts\<close>

lemma set_pointer_leaf:
  assumes "get_path ks v = Some w" "\<not> is_mapping w" "\<not> prefix p ks"
  shows "get_path ks (set_pointer p x v) = Some w"
  using assms
proof (induction p arbitrary: ks v)
  case (Cons k p)
  show ?case
  proof (cases ks)
    case Nil
    with Cons.prems have "in_section k (set_pointer p x) v = v" by (simp add: in_section_def on_mapping_leaf)
    with Nil Cons.prems show ?thesis by simp
  next
    case (Cons k' ks')
    with Cons.prems(1) obtain m u where m: "v = Mapping m" "map_of m (Str k') = Some u" "get_path ks' u = Some w"
      by (cases v) (auto simp: bind_eq_Some_conv)
    show ?thesis
    proof (cases "k' = k")
      case True
      with Cons.prems(3) Cons have "\<not> prefix p ks'" by simp
      from Cons.IH [OF m(3) Cons.prems(2) this] True Cons m show ?thesis
        by (simp add: in_section_def map_of_alter)
    next
      case False
      with Cons m show ?thesis by (simp add: in_section_def map_of_alter)
    qed
  qed
qed simp

lemma set_pointer_target:
  "get_path p v \<noteq> None \<Longrightarrow> get_path p (set_pointer p x v) = Some x"
proof (induction p arbitrary: v)
  case (Cons k p)
  then obtain m u where "v = Mapping m" "map_of m (Str k) = Some u" "get_path p u \<noteq> None"
    by (cases v) (auto simp: bind_eq_Some_conv)
  with Cons.IH [of u] show ?case by (simp add: in_section_def map_of_alter)
qed simp

lemma keeps_leaves_json: "keeps_leaves (on_mapping cryptarchia_json_defaults)"
proof -
  let ?ins = "\<lambda>k v. keeps_leaves (on_mapping (or_insert k v))"
  have "on_mapping cryptarchia_json_defaults = (\<lambda>v.
      on_mapping (or_insert ''sync'' (Mapping [(Str ''orphan'', Mapping [(Str ''max_orphan_cache_size'', Number 5)])]))
       (on_mapping (or_insert ''network_adapter_settings'' (Mapping [(Str ''topic'', Str ''/cryptarchia/proto'')]))
       (on_mapping (alter ''bootstrap'' (on_mapping (or_insert ''ibd''
             (Mapping [(Str ''peers'', Sequence []),
                       (Str ''delay_before_new_download'', Mapping [(Str ''secs'', Number 10), (Str ''nanos'', Number 0)])]))))
       (on_mapping (or_insert ''bootstrap'' (Mapping [])) v))))"
    by (simp add: fun_eq_iff on_mapping_comp cryptarchia_json_defaults_def [abs_def])
  then show ?thesis
    by (simp only:) (rule keeps_leaves_comp [OF keeps_leaves_or_insert keeps_leaves_comp [OF keeps_leaves_or_insert
        keeps_leaves_comp [OF keeps_leaves_alter [OF keeps_leaves_or_insert] keeps_leaves_or_insert]]])
qed

lemma keeps_leaves_inject: "keeps_leaves inject_defaults"
  unfolding inject_defaults_def by (rule keeps_leaves_section) (rule keeps_leaves_json)

lemma json_defaults_present:
  assumes "get_path [''cryptarchia''] v = Some (Mapping m)"
  shows "get_path [''cryptarchia'', ''network_adapter_settings''] (inject_defaults v) \<noteq> None"
    "get_path [''cryptarchia'', ''sync''] (inject_defaults v) \<noteq> None"
    "(\<forall>w. map_of m (Str ''bootstrap'') = Some w \<longrightarrow> is_mapping w) \<Longrightarrow>
       get_path [''cryptarchia'', ''bootstrap'', ''ibd''] (inject_defaults v) \<noteq> None"
proof -
  show "get_path [''cryptarchia'', ''network_adapter_settings''] (inject_defaults v) \<noteq> None"
    "get_path [''cryptarchia'', ''sync''] (inject_defaults v) \<noteq> None"
    using assms by (simp add: inject_defaults_def get_path_section cryptarchia_json_defaults_def map_of_or_insert map_of_alter; auto)+
  assume b: "\<forall>w. map_of m (Str ''bootstrap'') = Some w \<longrightarrow> is_mapping w"
  show "get_path [''cryptarchia'', ''bootstrap'', ''ibd''] (inject_defaults v) \<noteq> None"
  proof (cases "map_of m (Str ''bootstrap'')")
    case None
    with assms show ?thesis
      by (simp add: inject_defaults_def get_path_section cryptarchia_json_defaults_def map_of_or_insert map_of_alter)
  next
    case (Some w)
    with b obtain bm where "w = Mapping bm" by (cases w) auto
    with assms Some show ?thesis
      by (simp add: inject_defaults_def get_path_section cryptarchia_json_defaults_def map_of_or_insert map_of_alter; auto)
  qed
qed

text \<open>Paths the server may overwrite for these overrides.\<close>

definition overridden :: "port_overrides \<Rightarrow> string list set" where
  "overridden ports =
     (if po_api_port ports = None then {} else {http_address_path}) \<union>
     (if po_testing_http_port ports = None then {} else {testing_address_path}) \<union> {min_session_path}"

lemma adjust_keeps_leaf:
  assumes "get_path ks v = Some w" "\<not> is_mapping w" "\<forall>p \<in> overridden ports. \<not> prefix p ks"
  shows "get_path ks (adjust_served_config ports v) = Some w"
proof -
  have 1: "get_path ks (inject_defaults v) = Some w" by (rule keeps_leaf [OF keeps_leaves_inject assms(1,2)])
  have 2: "get_path ks (override_api_ports ports (inject_defaults v)) = Some w"
    using 1 assms(2,3)
    by (auto simp: override_api_ports_def Let_def overridden_def split: option.splits intro!: set_pointer_leaf)
  show ?thesis
    unfolding adjust_served_config_def override_min_session_members_def
    by (rule set_pointer_leaf [OF 2 assms(2)]) (use assms(3) in \<open>simp add: overridden_def\<close>)
qed

lemma paths_apart:
  "\<not> prefix min_session_path http_address_path" "\<not> prefix testing_address_path http_address_path"
  "\<not> prefix min_session_path testing_address_path" "\<not> prefix http_address_path testing_address_path"
  "p \<in> overridden ports \<Longrightarrow> \<not> prefix p (''cryptarchia'' # ks)"
  by (auto simp: min_session_path_def http_address_path_def testing_address_path_def overridden_def split: if_splits)

lemma get_path_other_section: "k \<noteq> k' \<Longrightarrow> get_path (k' # ks) (in_section k f v) = get_path (k' # ks) v"
  by (cases v) (auto simp: in_section_def map_of_alter)

lemma adjust_api_address:
  assumes "get_path http_address_path v \<noteq> None" "po_api_port ports = Some p"
  shows "get_path http_address_path (adjust_served_config ports v) = Some (Str (''0.0.0.0:'' @ show_nat (unat p)))"
proof -
  have "get_path http_address_path (inject_defaults v) \<noteq> None"
    using assms(1) by (simp add: http_address_path_def inject_defaults_def get_path_other_section)
  then have "get_path http_address_path (set_pointer http_address_path (Str (''0.0.0.0:'' @ show_nat (unat p))) (inject_defaults v))
      = Some (Str (''0.0.0.0:'' @ show_nat (unat p)))" by (rule set_pointer_target)
  then have "get_path http_address_path (override_api_ports ports (inject_defaults v)) = Some (Str (''0.0.0.0:'' @ show_nat (unat p)))"
    using assms(2) paths_apart
    by (auto simp: override_api_ports_def Let_def split: option.splits intro!: set_pointer_leaf)
  then show ?thesis
    unfolding adjust_served_config_def override_min_session_members_def by (rule set_pointer_leaf) (simp_all add: paths_apart)
qed

lemma adjust_keeps_section:
  "get_path (''cryptarchia'' # ks) (adjust_served_config ports v) = get_path (''cryptarchia'' # ks) (inject_defaults v)"
  by (simp add: adjust_served_config_def override_min_session_members_def override_api_ports_def Let_def
      min_session_path_def http_address_path_def testing_address_path_def get_path_other_section split: option.splits)

text \<open>What a served configuration \<open>v\<close> owes to the serialized configuration \<open>raw\<close> it was made from.\<close>

definition serves :: "port_overrides \<Rightarrow> tree \<Rightarrow> tree \<Rightarrow> bool" where
  "serves ports raw v \<longleftrightarrow>
     (\<forall>ks w. get_path ks raw = Some w \<and> \<not> is_mapping w \<and> (\<forall>p \<in> overridden ports. \<not> prefix p ks) \<longrightarrow>
        get_path ks v = Some w) \<and>
     (\<forall>p. get_path http_address_path raw \<noteq> None \<and> po_api_port ports = Some p \<longrightarrow>
        get_path http_address_path v = Some (Str (''0.0.0.0:'' @ show_nat (unat p)))) \<and>
     (\<forall>m. get_path [''cryptarchia''] raw = Some (Mapping m) \<longrightarrow>
        get_path [''cryptarchia'', ''network_adapter_settings''] v \<noteq> None \<and>
        get_path [''cryptarchia'', ''sync''] v \<noteq> None \<and>
        ((\<forall>w. map_of m (Str ''bootstrap'') = Some w \<longrightarrow> is_mapping w) \<longrightarrow>
           get_path [''cryptarchia'', ''bootstrap'', ''ibd''] v \<noteq> None))"

lemma adjust_serves: "serves ports raw (adjust_served_config ports raw)"
  unfolding serves_def
proof (intro conjI allI impI; (elim conjE)?)
  fix ks w
  assume "get_path ks raw = Some w" "\<not> is_mapping w" "\<forall>p \<in> overridden ports. \<not> prefix p ks"
  then show "get_path ks (adjust_served_config ports raw) = Some w" by (rule adjust_keeps_leaf)
next
  fix p
  assume "get_path http_address_path raw \<noteq> None" "po_api_port ports = Some p"
  then show "get_path http_address_path (adjust_served_config ports raw) = Some (Str (''0.0.0.0:'' @ show_nat (unat p)))"
    by (rule adjust_api_address)
qed (simp_all only: adjust_keeps_section json_defaults_present not_False_eq_True)

section \<open>Properties\<close>



lemma keeps_wf_set_pointer: "wf_tree x \<Longrightarrow> keeps_wf (set_pointer ks x)"
proof (induction ks)
  case (Cons k ks)
  then have "keeps_wf (in_section k (set_pointer ks x))" by (intro keeps_wf_section) simp
  then show ?case by (simp add: keeps_wf_def)
qed (simp add: keeps_wf_def)



end
