(* ===== verification/Readiness.thy ===== *)
theory Readiness
  imports Node_Run_Config
begin

text \<open>
  Waiting for the network to be connected (\<^verbatim>\<open>core/src/topology/readiness/{mod,network}.rs\<close>,
  \<^verbatim>\<open>generation.rs\<close>, \<^verbatim>\<open>deployment.rs\<close> and the manual cluster's \<^verbatim>\<open>readiness.rs\<close>).  A check collects one
  status per node, decides whether all are ready, and polls until they are or the timeout fires.

  What the nodes answer is a stream of observations: observation \<open>k\<close> is how long the \<open>k\<close>-th collection
  takes and what it yields.  The first collection happens before the timer starts, as in the code.
  A collection that finishes exactly when the timer fires still counts, because the timer is polled
  after the work.
\<close>

section \<open>The polling loop\<close>

definition default_poll_interval :: duration where "default_poll_interval = from_millis 200"
definition default_readiness_timeout :: duration where "default_readiness_timeout = from_secs 60"

datatype readiness_error = ReadinessTimeout string

type_synonym 'd observations = "nat \<Rightarrow> duration \<times> 'd"

text \<open>Whether the loop ends ready, and the index of the last completed collection.\<close>

function wait_from :: "duration \<Rightarrow> ('d \<Rightarrow> bool) \<Rightarrow> 'd observations \<Rightarrow> nat \<Rightarrow> duration \<Rightarrow> bool \<times> nat" where
  "wait_from limit is_ready obs k t =
     (if is_ready (snd (obs k)) then (True, k)
      else if limit < t + default_poll_interval + fst (obs (Suc k)) then (False, k)
      else wait_from limit is_ready obs (Suc k) (t + default_poll_interval + fst (obs (Suc k))))"
  by auto

lemma poll_interval_pos: "0 < default_poll_interval"
  by (simp add: default_poll_interval_def from_millis_def)

termination wait_from
  by (relation "measure (\<lambda>(limit, _, _, _, t). Suc limit - t)") (use poll_interval_pos in auto)

declare wait_from.simps [simp del]

definition readiness_wait ::
  "env \<Rightarrow> ('d \<Rightarrow> bool) \<Rightarrow> ('d \<Rightarrow> string) \<Rightarrow> 'd observations \<Rightarrow> (readiness_error + unit) option" where
  "readiness_wait ev is_ready timeout_message obs =
     map_option (\<lambda>limit.
       let (ok, k) = wait_from limit is_ready obs 0 0
       in if ok then Ok () else Err (ReadinessTimeout (timeout_message (snd (obs k)))))
     (adjust_timeout ev default_readiness_timeout)"

section \<open>Network status of nodes\<close>

record libp2p_info =
  li_n_peers :: nat
  li_n_connections :: nat
  li_n_pending_connections :: nat

record node_network_status =
  ns_label :: string
  ns_expected_peers :: "nat option"
  ns_result :: "string + libp2p_info"

definition status_ready :: "node_network_status \<Rightarrow> bool" where
  "status_ready st =
     (case (ns_expected_peers st, ns_result st) of
        (Some expected, Inr info) \<Rightarrow> expected \<le> li_n_peers info
      | _ \<Rightarrow> False)"

definition network_is_ready :: "node_network_status list \<Rightarrow> bool" where
  "network_is_ready data = list_all status_ready data"

definition status_summary :: "node_network_status \<Rightarrow> string" where
  "status_summary st =
     (case (ns_expected_peers st, ns_result st) of
        (None, _) \<Rightarrow> ns_label st @ '': missing expected peer count''
      | (Some expected, Inr info) \<Rightarrow>
          ns_label st @ '': peers='' @ show_nat (li_n_peers info) @ '', expected='' @ show_nat expected
      | (Some expected, Inl err) \<Rightarrow>
          ns_label st @ '': error='' @ err @ '', expected_peers='' @ show_nat expected)"

definition build_timeout_summary :: "node_network_status list \<Rightarrow> string" where
  "build_timeout_summary statuses = join '', '' (map status_summary statuses)"

definition network_timeout_message :: "node_network_status list \<Rightarrow> string" where
  "network_timeout_message data = ''timed out waiting for network readiness: '' @ build_timeout_summary data"

text \<open>
  \<^verbatim>\<open>HttpNetworkReadiness::collect\<close> (fallback label \<open>endpoint#\<close>) and \<^verbatim>\<open>NetworkReadiness::collect\<close> (fallback
  \<open>node#\<close>): all nodes are asked at once; \<open>answer i\<close> is what node \<open>i\<close> replies this time.
\<close>

definition collect_statuses ::
  "string \<Rightarrow> nat \<Rightarrow> nat list \<Rightarrow> string list \<Rightarrow> (nat \<Rightarrow> string + libp2p_info) \<Rightarrow> node_network_status list" where
  "collect_statuses fallback n expected_peer_counts labels answer =
     map (\<lambda>i. \<lparr>ns_label = (case get labels i of None \<Rightarrow> fallback @ show_nat i | Some l \<Rightarrow> l),
               ns_expected_peers = get expected_peer_counts i,
               ns_result = answer i\<rparr>) [0..<n]"

definition http_collect where
  "http_collect = collect_statuses ''endpoint#''"

definition topology_collect where
  "topology_collect = collect_statuses ''node#''"

type_synonym answers = "(nat \<Rightarrow> string + libp2p_info) observations"

definition wait_for_network_readiness ::
  "env \<Rightarrow> generated_topology \<Rightarrow> string list \<Rightarrow> string list \<Rightarrow> answers \<Rightarrow> (readiness_error + unit) option" where
  "wait_for_network_readiness ev t endpoints labels obs =
     (if length endpoints \<le> 1 then Some (Ok ())
      else Option.bind (find_expected_peer_counts (topology_listen_ports t) (topology_initial_peer_ports t)) (\<lambda>counts.
        readiness_wait ev network_is_ready network_timeout_message
          (\<lambda>k. (fst (obs k), http_collect (length endpoints) counts labels (snd (obs k))))))"

definition wait_remote_readiness ::
  "env \<Rightarrow> generated_topology \<Rightarrow> string list \<Rightarrow> answers \<Rightarrow> (readiness_error + unit) option" where
  "wait_remote_readiness ev t node_endpoints obs =
     (if gt_nodes t = [] then Some (Ok ())
      else Option.bind (collect_node_endpoints t node_endpoints) (\<lambda>endpoints.
        wait_for_network_readiness ev t endpoints (topology_labels t) obs))"

section \<open>A spawned topology\<close>

text \<open>\<^verbatim>\<open>Topology\<close> in \<^verbatim>\<open>deployment.rs\<close>, of which the run configurations of the nodes matter here.\<close>

definition node_listen_ports :: "run_config list \<Rightarrow> u16 list" where
  "node_listen_ports nodes = map (\<lambda>rc. sw_port (nc_swarm (uc_network (rc_user rc)))) nodes"

definition node_initial_peer_ports :: "run_config list \<Rightarrow> u16 list list" where
  "node_initial_peer_ports nodes =
     map (\<lambda>rc. remdups (List.map_filter multiaddr_port (nc_initial_peers (uc_network (rc_user rc))))) nodes"

definition node_labels :: "run_config list \<Rightarrow> string list" where
  "node_labels nodes =
     map (\<lambda>(i, rc). ''node#'' @ show_nat i @ ''@'' @ show_nat (unat (sw_port (nc_swarm (uc_network (rc_user rc))))))
       (enumerate 0 nodes)"

definition wait_network_ready :: "env \<Rightarrow> run_config list \<Rightarrow> answers \<Rightarrow> (readiness_error + unit) option" where
  "wait_network_ready ev nodes obs =
     (let ports = node_listen_ports nodes in
      if length ports \<le> 1 then Some (Ok ())
      else Option.bind (find_expected_peer_counts ports (node_initial_peer_ports nodes)) (\<lambda>counts.
        readiness_wait ev network_is_ready network_timeout_message
          (\<lambda>k. (fst (obs k), topology_collect (length nodes) counts (node_labels nodes) (snd (obs k))))))"

text \<open>
  \<^verbatim>\<open>spawn_nodes\<close> spawns \<open>n_nodes\<close> configurations one after the other and stops at the first failure;
  an index beyond the configurations panics.  Either way the nodes spawned so far are dropped, first
  to last.  Starting a node is \<open>spawn\<close> and dropping it \<open>dismiss\<close>, with whether a panic is unwinding,
  on a state of the surroundings.
\<close>

fun spawn_nodes ::
  "(run_config \<Rightarrow> string \<Rightarrow> 'w \<Rightarrow> ('e + 'n) \<times> 'w) \<Rightarrow> (bool \<Rightarrow> 'n \<Rightarrow> 'w \<Rightarrow> 'w) \<Rightarrow> (general_config \<Rightarrow> run_config) \<Rightarrow>
   general_config list \<Rightarrow> nat \<Rightarrow> nat \<Rightarrow> 'n list \<Rightarrow> 'w \<Rightarrow> ('e + 'n list) option \<times> 'w" where
  "spawn_nodes spawn dismiss mk configs i 0 nodes w = (Some (Ok nodes), w)"
| "spawn_nodes spawn dismiss mk configs i (Suc n) nodes w =
     (case get configs i of
        None \<Rightarrow> (None, fold (dismiss True) nodes w)
      | Some c \<Rightarrow>
          (case spawn (mk c) (''node-'' @ show_nat i) w of
             (Inl e, w') \<Rightarrow> (Some (Err e), fold (dismiss False) nodes w')
           | (Inr node, w') \<Rightarrow> spawn_nodes spawn dismiss mk configs (Suc i) n (nodes @ [node]) w'))"

definition spawn_local ::
  "(run_config \<Rightarrow> string \<Rightarrow> 'w \<Rightarrow> ('e + 'n) \<times> 'w) \<Rightarrow> (bool \<Rightarrow> 'n \<Rightarrow> 'w \<Rightarrow> 'w) \<Rightarrow> (general_config \<Rightarrow> run_config) \<Rightarrow>
   generated_topology \<Rightarrow> 'w \<Rightarrow> ('e + 'n list) option \<times> 'w" where
  "spawn_local spawn dismiss mk t = spawn_nodes spawn dismiss mk (map gn_general (gt_nodes t)) 0 (tc_n_nodes (gt_config t)) []"

section \<open>What a check guarantees\<close>

text \<open>When observation \<open>k\<close> is complete, counted from the start of the timer.\<close>

fun arrival :: "'d observations \<Rightarrow> nat \<Rightarrow> duration" where
  "arrival obs 0 = 0"
| "arrival obs (Suc k) = arrival obs k + default_poll_interval + fst (obs (Suc k))"

lemma arrival_mono: "j \<le> k \<Longrightarrow> arrival obs j \<le> arrival obs k"
  by (induction k) (auto simp: le_Suc_eq)

lemma wait_from_spec:
  assumes "t = arrival obs k" "t \<le> limit"
  shows "case wait_from limit is_ready obs k t of (ok, m) \<Rightarrow> k \<le> m \<and> arrival obs m \<le> limit \<and>
    (ok \<longleftrightarrow> is_ready (snd (obs m))) \<and> (\<forall>j. k \<le> j \<and> j < m \<longrightarrow> \<not> is_ready (snd (obs j))) \<and>
    (\<not> ok \<longrightarrow> limit < arrival obs (Suc m))"
  using assms
proof (induction limit is_ready obs k t rule: wait_from.induct)
  case (1 limit is_ready obs k t)
  show ?case
  proof (cases "is_ready (snd (obs k))")
    case True
    then show ?thesis using "1.prems" by (subst wait_from.simps) auto
  next
    case False
    show ?thesis
    proof (cases "limit < t + default_poll_interval + fst (obs (Suc k))")
      case True
      with False show ?thesis using "1.prems" by (subst wait_from.simps) auto
    next
      case late: False
      have step: "wait_from limit is_ready obs k t =
          wait_from limit is_ready obs (Suc k) (t + default_poll_interval + fst (obs (Suc k)))"
        using False late by (subst wait_from.simps) simp
      have "t + default_poll_interval + fst (obs (Suc k)) = arrival obs (Suc k)" using "1.prems" by simp
      note IH = "1.IH" [OF False late this]
      obtain ok m where w: "wait_from limit is_ready obs k t = (ok, m)" by (cases "wait_from limit is_ready obs k t")
      have "\<not> is_ready (snd (obs j))" if "k \<le> j" "j < m" for j
        using IH w that False late unfolding step by (cases "j = k") auto
      with IH w late show ?thesis unfolding step by auto
    qed
  qed
qed

lemma readiness_limit: "\<exists>limit. adjust_timeout ev default_readiness_timeout = Some limit"
  by (simp add: adjust_timeout_def default_readiness_timeout_def duration_defs)

locale readiness_check =
  fixes is_ready :: "'d list \<Rightarrow> bool" and node_ready :: "'d \<Rightarrow> bool" and timeout_message :: "'d list \<Rightarrow> string"
  assumes is_ready_all: "is_ready data \<longleftrightarrow> (\<forall>d \<in> set data. node_ready d)"
begin

lemma wait_outcome:
  assumes "adjust_timeout ev default_readiness_timeout = Some limit"
  shows "(\<exists>k. arrival obs k \<le> limit \<and> (\<forall>d \<in> set (snd (obs k)). node_ready d) \<and>
            readiness_wait ev is_ready timeout_message obs = Some (Ok ())) \<or>
         (\<exists>k. arrival obs k \<le> limit \<and> limit < arrival obs (Suc k) \<and>
            (\<forall>j \<le> k. \<exists>d \<in> set (snd (obs j)). \<not> node_ready d) \<and>
            readiness_wait ev is_ready timeout_message obs = Some (Err (ReadinessTimeout (timeout_message (snd (obs k))))))"
proof -
  obtain ok m where w: "wait_from limit is_ready obs 0 0 = (ok, m)" by (cases "wait_from limit is_ready obs 0 0")
  from wait_from_spec [of 0 obs 0 limit is_ready] w
  have m: "arrival obs m \<le> limit" "ok \<longleftrightarrow> is_ready (snd (obs m))" "\<forall>j < m. \<not> is_ready (snd (obs j))"
    "\<not> ok \<longrightarrow> limit < arrival obs (Suc m)" by auto
  have r: "readiness_wait ev is_ready timeout_message obs =
      Some (if ok then Ok () else Err (ReadinessTimeout (timeout_message (snd (obs m)))))"
    using assms w by (simp add: readiness_wait_def)
  show ?thesis
  proof (cases ok)
    case True
    with m r show ?thesis by (auto simp: is_ready_all)
  next
    case False
    with m have "\<forall>j \<le> m. \<not> is_ready (snd (obs j))" by (auto simp: le_less)
    with False m r show ?thesis by (intro disjI2 exI [of _ m]) (simp add: is_ready_all)
  qed
qed

lemma wait_Ok_iff:
  assumes "adjust_timeout ev default_readiness_timeout = Some limit"
  shows "readiness_wait ev is_ready timeout_message obs = Some (Ok ()) \<longleftrightarrow>
    (\<exists>k. arrival obs k \<le> limit \<and> (\<forall>d \<in> set (snd (obs k)). node_ready d))"
proof
  assume "\<exists>k. arrival obs k \<le> limit \<and> (\<forall>d \<in> set (snd (obs k)). node_ready d)"
  then obtain k where k: "arrival obs k \<le> limit" "\<forall>d \<in> set (snd (obs k)). node_ready d" by blast
  have "j < Suc m" if "limit < arrival obs (Suc m)" "arrival obs j \<le> limit" for j m
    using arrival_mono [of "Suc m" j obs] that by (meson leI le_trans not_le)
  with k wait_outcome [OF assms, of obs] show "readiness_wait ev is_ready timeout_message obs = Some (Ok ())"
    by (meson less_Suc_eq_le)
qed (use wait_outcome [OF assms, of obs] in auto)

end

interpretation network_readiness: readiness_check network_is_ready status_ready network_timeout_message
  by unfold_locales (simp add: network_is_ready_def list_all_iff)

lemma collected_ready:
  assumes "length counts = n"
  shows "(\<forall>d \<in> set (collect_statuses fallback n counts labels answer). status_ready d) \<longleftrightarrow>
    (\<forall>i < n. \<exists>info. answer i = Ok info \<and> counts ! i \<le> li_n_peers info)"
proof -
  have "status_ready \<lparr>ns_label = l, ns_expected_peers = Some e, ns_result = a\<rparr> \<longleftrightarrow>
      (\<exists>info. a = Ok info \<and> e \<le> li_n_peers info)" for l e a
    by (cases a) (auto simp: status_ready_def)
  with assms show ?thesis by (auto simp: collect_statuses_def get_def)
qed

lemma topology_counts:
  "find_expected_peer_counts (topology_listen_ports t) (topology_initial_peer_ports t) =
     Some (map (\<lambda>i. card (linked_peers (topology_listen_ports t) (topology_initial_peer_ports t) i)) [0..<length (gt_nodes t)])"
  using find_expected_peer_counts_eq [of "topology_listen_ports t" "topology_initial_peer_ports t"]
  by (simp add: topology_listen_ports_def topology_initial_peer_ports_def)

lemma arrival_collected: "arrival (\<lambda>k. (fst (obs k), f (snd (obs k)))) k = arrival obs k"
  by (induction k) simp_all

lemma spawn_nodes_configs:
  assumes "\<And>rc l w n w'. spawn rc l w = (Ok n, w') \<Longrightarrow> f n = g rc"
  shows "spawn_nodes spawn dismiss mk configs i n nodes w = (Some (Ok ns), w') \<Longrightarrow> i + n \<le> length configs \<Longrightarrow>
     map f ns = map f nodes @ map (\<lambda>c. g (mk c)) (take n (drop i configs))"
proof (induction n arbitrary: i nodes w)
  case (Suc n)
  then have i: "i < length configs" by simp
  with Suc.prems(1) obtain node w1 where sp: "spawn (mk (configs ! i)) (''node-'' @ show_nat i) w = (Ok node, w1)"
    and "spawn_nodes spawn dismiss mk configs (Suc i) n (nodes @ [node]) w1 = (Some (Ok ns), w')"
    by (auto simp: get_def split: sum.splits prod.splits)
  from Suc.IH [OF this(2)] Suc.prems(2) i assms [OF sp] show ?case
    by (simp add: Cons_nth_drop_Suc [symmetric])
qed simp

lemma node_network_config [simp]:
  "uc_network (rc_user (create_node_config cr ax ev c)) = gc_network_config c"
  by (simp add: create_node_config_def build_blend_service_config_def Let_def)

lemma spawned_ports:
  assumes "map (\<lambda>rc. uc_network (rc_user rc)) nodes = map (\<lambda>n. gc_network_config (gn_general n)) (gt_nodes t)"
  shows "node_listen_ports nodes = topology_listen_ports t" "node_initial_peer_ports nodes = topology_initial_peer_ports t"
    "node_labels nodes = topology_labels t"
proof -
  let ?nets = "map (\<lambda>n. gc_network_config (gn_general n)) (gt_nodes t)"
  have "node_listen_ports nodes = map (\<lambda>c. sw_port (nc_swarm c)) ?nets"
    "node_initial_peer_ports nodes = map (\<lambda>c. remdups (List.map_filter multiaddr_port (nc_initial_peers c))) ?nets"
    unfolding assms [symmetric] by (simp_all add: node_listen_ports_def node_initial_peer_ports_def comp_def)
  then show "node_listen_ports nodes = topology_listen_ports t" "node_initial_peer_ports nodes = topology_initial_peer_ports t"
    by (simp_all add: topology_listen_ports_def network_port_def topology_initial_peer_ports_def comp_def)
  have "node_labels nodes = map (\<lambda>(i, c). ''node#'' @ show_nat i @ ''@'' @ show_nat (unat (sw_port (nc_swarm c)))) (enumerate 0 ?nets)"
    unfolding assms [symmetric] by (simp add: node_labels_def enumerate_0_map)
  then show "node_labels nodes = topology_labels t" by (simp add: topology_labels_def enumerate_0_map network_port_def)
qed

lemma readiness_returns:
  assumes "length urls = length (gt_nodes t)"
  shows "\<exists>r. wait_remote_readiness ev t urls obs = Some r"
  using assms readiness_limit [of ev]
  by (auto simp: wait_remote_readiness_def collect_node_endpoints_def wait_for_network_readiness_def topology_counts readiness_wait_def)

section \<open>Properties\<close>


lemma spawn_nodes_succeed:
  assumes "\<And>rc l w. \<exists>n w'. spawn rc l w = (Ok n, w')"
  shows "i + n \<le> length configs \<Longrightarrow> \<exists>ns w'. spawn_nodes spawn dismiss mk configs i n nodes w = (Some (Ok ns), w')"
proof (induction n arbitrary: i nodes w)
  case (Suc n)
  then have i: "i < length configs" by simp
  obtain node w1 where "spawn (mk (configs ! i)) (''node-'' @ show_nat i) w = (Ok node, w1)" using assms by blast
  with i Suc.IH [of "Suc i" "nodes @ [node]" w1] Suc.prems show ?case by (simp add: get_def)
qed simp

definition demo_axum :: axum_settings where
  "demo_axum = \<lparr>ax_address = ([], 0), ax_rate_limit_per_second = 1, ax_rate_limit_burst = 1,
     ax_max_concurrent_requests = 1, ax_remaining = 0\<rparr>"


end
