(* ===== verification/Http_Probe.thy ===== *)
theory Http_Probe
  imports Readiness
begin

text \<open>
  Probing node HTTP endpoints until they answer (\<^verbatim>\<open>core/src/scenario/http_probe.rs\<close>), and the shared
  list of API clients (\<^verbatim>\<open>runtime/node_clients.rs\<close>).

  The attempts at one endpoint are a stream of observations: how long attempt \<open>k\<close> takes, including
  what the pause before it exceeds the poll interval by, and whether it is answered with a success
  status.  The request has no timeout of its own, so an attempt may take arbitrarily long.  Instants
  are unbounded.
\<close>

section \<open>One endpoint\<close>

record http_readiness_error =
  he_role :: string
  he_port :: u16
  he_timeout :: duration

definition node_role :: string where "node_role = ''node''"

text \<open>The loop: whether it ends with an answer, and the last attempt made.\<close>

partial_function (option) probe_from :: "duration \<Rightarrow> duration \<Rightarrow> bool observations \<Rightarrow> nat \<Rightarrow> duration \<Rightarrow> (bool \<times> nat) option" where
  [code]: "probe_from limit poll obs k t =
     (if snd (obs k) then Some (True, k)
      else if limit \<le> t then Some (False, k)
      else probe_from limit poll obs (Suc k) (t + poll + fst (obs (Suc k))))"

definition wait_for_single_port ::
  "bool observations \<Rightarrow> u16 \<Rightarrow> string \<Rightarrow> duration \<Rightarrow> duration \<Rightarrow> (http_readiness_error + unit) option" where
  "wait_for_single_port obs port role timeout_duration poll_interval =
     map_option (\<lambda>(ok, _). if ok then Ok () else Err \<lparr>he_role = role, he_port = port, he_timeout = timeout_duration\<rparr>)
       (probe_from timeout_duration poll_interval obs 0 (fst (obs 0)))"

section \<open>All endpoints\<close>

text \<open>
  \<^verbatim>\<open>try_join_all\<close> runs the probes at once and ends with the error of one that fails, if any does.  Which
  of several failing probes that is depends on their timing: \<open>first_err\<close> picks it.
\<close>

definition failing :: "('e + 'a) option list \<Rightarrow> nat list" where
  "failing rs = filter (\<lambda>i. case rs ! i of Some (Inl _) \<Rightarrow> True | _ \<Rightarrow> False) [0..<length rs]"

definition try_join_all :: "(nat list \<Rightarrow> nat) \<Rightarrow> ('e + 'a) option list \<Rightarrow> ('e + unit) option" where
  "try_join_all first_err rs =
     (if failing rs \<noteq> [] then map_option (\<lambda>r. and_then r (\<lambda>_. Ok ())) (rs ! first_err (failing rs))
      else if None \<in> set rs then None
      else Some (Ok ()))"

definition picks_one :: "(nat list \<Rightarrow> nat) \<Rightarrow> bool" where
  "picks_one first_err \<longleftrightarrow> (\<forall>is. is \<noteq> [] \<longrightarrow> first_err is \<in> set is)"

text \<open>What the network answers to probe number \<open>i\<close>, which asks for the given address.\<close>

type_synonym probe_net = "nat \<Rightarrow> string \<Rightarrow> bool observations"

definition probe_url :: "string \<Rightarrow> string \<Rightarrow> u16 \<Rightarrow> string" where
  "probe_url info_path host port = ''http://'' @ host @ '':'' @ show_nat (unat port) @ info_path"

definition wait_for_http_ports_with_host ::
  "(nat list \<Rightarrow> nat) \<Rightarrow> string \<Rightarrow> probe_net \<Rightarrow> u16 list \<Rightarrow> string \<Rightarrow> string \<Rightarrow> duration \<Rightarrow> duration \<Rightarrow>
   (http_readiness_error + unit) option" where
  "wait_for_http_ports_with_host first_err info_path net ports role host timeout_duration poll_interval =
     (if ports = [] then Some (Ok ())
      else try_join_all first_err
        (map (\<lambda>(i, port). wait_for_single_port (net i (probe_url info_path host port)) port role timeout_duration poll_interval)
          (enumerate 0 ports)))"

definition wait_for_http_ports ::
  "(nat list \<Rightarrow> nat) \<Rightarrow> string \<Rightarrow> probe_net \<Rightarrow> u16 list \<Rightarrow> string \<Rightarrow> duration \<Rightarrow> duration \<Rightarrow>
   (http_readiness_error + unit) option" where
  "wait_for_http_ports first_err info_path net ports role timeout_duration poll_interval =
     wait_for_http_ports_with_host first_err info_path net ports role ''127.0.0.1'' timeout_duration poll_interval"

section \<open>Node clients\<close>

text \<open>Clients are numbers; random choices are arguments.\<close>

type_synonym node_clients = "nat list"

definition random_node :: "(nat \<Rightarrow> nat) \<Rightarrow> node_clients \<Rightarrow> nat option" where
  "random_node draw nodes = (if nodes = [] then None else get nodes (draw (length nodes)))"

definition any_client :: "(nat \<Rightarrow> nat) \<Rightarrow> node_clients \<Rightarrow> nat option" where
  "any_client draw nodes = (if length nodes = 0 then None else get nodes (draw (length nodes)))"

definition add_node :: "nat \<Rightarrow> node_clients \<Rightarrow> node_clients" where
  "add_node client nodes = nodes @ [client]"

fun ask_clients :: "(nat \<Rightarrow> nat \<Rightarrow> string + 'a) \<Rightarrow> nat \<Rightarrow> node_clients \<Rightarrow> string option \<Rightarrow> string + 'a" where
  "ask_clients f i [] last_err = Err (case last_err of None \<Rightarrow> ''cluster client exhausted all nodes'' | Some e \<Rightarrow> e)"
| "ask_clients f i (c # cs) last_err =
     (case f i c of Inr v \<Rightarrow> Ok v | Inl e \<Rightarrow> ask_clients f (Suc i) cs (Some e))"

definition try_all_clients ::
  "(node_clients \<Rightarrow> node_clients) \<Rightarrow> (nat \<Rightarrow> nat \<Rightarrow> string + 'a) \<Rightarrow> node_clients \<Rightarrow> string + 'a" where
  "try_all_clients shuffle f nodes =
     (if nodes = [] then Err ''cluster client has no api clients'' else ask_clients f 0 (shuffle nodes) None)"

section \<open>The probe loop\<close>

text \<open>When attempt \<open>k\<close> is over, counted from the start.\<close>

fun probe_time :: "duration \<Rightarrow> bool observations \<Rightarrow> nat \<Rightarrow> duration" where
  "probe_time poll obs 0 = fst (obs 0)"
| "probe_time poll obs (Suc k) = probe_time poll obs k + poll + fst (obs (Suc k))"

lemma probe_time_lower: "k * poll \<le> probe_time poll obs k"
  by (induction k) auto

lemma probe_from_returns:
  assumes "0 < poll"
  shows "\<exists>r. probe_from limit poll obs k t = Some r"
proof (induction "Suc limit - t" arbitrary: k t rule: less_induct)
  case less
  show ?case
  proof (cases "snd (obs k) \<or> limit \<le> t")
    case True
    then show ?thesis by (subst probe_from.simps) auto
  next
    case False
    with assms have "Suc limit - (t + poll + fst (obs (Suc k))) < Suc limit - t" by linarith
    from less [OF this] False show ?thesis by (subst probe_from.simps) auto
  qed
qed

text \<open>
  An endpoint is reached in attempt \<open>m\<close> if that attempt is the first to succeed and every earlier one
  was over before the deadline; it is given up in attempt \<open>m\<close> if none succeeds up to then and \<open>m\<close> is the
  first to end at or after the deadline.
\<close>

definition reached :: "duration \<Rightarrow> duration \<Rightarrow> bool observations \<Rightarrow> nat \<Rightarrow> bool" where
  "reached limit poll obs m \<longleftrightarrow> snd (obs m) \<and> (\<forall>j < m. \<not> snd (obs j) \<and> probe_time poll obs j < limit)"

definition given_up :: "duration \<Rightarrow> duration \<Rightarrow> bool observations \<Rightarrow> nat \<Rightarrow> bool" where
  "given_up limit poll obs m \<longleftrightarrow>
     \<not> snd (obs m) \<and> limit \<le> probe_time poll obs m \<and> (\<forall>j < m. \<not> snd (obs j) \<and> probe_time poll obs j < limit)"

lemma probe_from_spec:
  assumes "0 < poll" "probe_from limit poll obs k t = Some (ok, m)" "t = probe_time poll obs k"
    and "\<forall>j < k. \<not> snd (obs j) \<and> probe_time poll obs j < limit"
  shows "if ok then reached limit poll obs m else given_up limit poll obs m"
  using assms(2-)
proof (induction "Suc limit - t" arbitrary: k t rule: less_induct)
  case less
  show ?case
  proof (cases "snd (obs k) \<or> limit \<le> t")
    case True
    with less.prems show ?thesis
      by (subst (asm) probe_from.simps) (auto simp: reached_def given_up_def split: if_splits)
  next
    case False
    let ?t = "t + poll + fst (obs (Suc k))"
    from False less.prems(1) have run: "probe_from limit poll obs (Suc k) ?t = Some (ok, m)"
      by (subst (asm) probe_from.simps) simp
    have "Suc limit - ?t < Suc limit - t" using False assms(1) by linarith
    moreover have "\<forall>j < Suc k. \<not> snd (obs j) \<and> probe_time poll obs j < limit"
      using False less.prems by (simp add: less_Suc_eq)
    ultimately show ?thesis using less.hyps [OF _ run] less.prems(2) by simp
  qed
qed

lemma reached_iff:
  assumes "0 < poll"
  shows "(\<exists>m. reached limit poll obs m) \<longleftrightarrow> \<not> (\<exists>m. given_up limit poll obs m)"
proof
  assume "\<exists>m. reached limit poll obs m"
  then obtain m where m: "reached limit poll obs m" by blast
  show "\<not> (\<exists>m. given_up limit poll obs m)"
  proof
    assume "\<exists>n. given_up limit poll obs n"
    then obtain n where "given_up limit poll obs n" by blast
    with m show False by (cases m n rule: linorder_cases) (auto simp: reached_def given_up_def)
  qed
next
  assume none: "\<not> (\<exists>m. given_up limit poll obs m)"
  obtain ok m where "probe_from limit poll obs 0 (fst (obs 0)) = Some (ok, m)"
    using probe_from_returns [OF assms, of limit obs 0 "fst (obs 0)"] by auto
  from probe_from_spec [OF assms this] none show "\<exists>m. reached limit poll obs m" by (auto split: if_splits)
qed

lemma wait_for_single_port_eq:
  assumes "0 < poll"
  shows "wait_for_single_port obs port role limit poll =
    Some (if \<exists>m. reached limit poll obs m then Ok () else Err \<lparr>he_role = role, he_port = port, he_timeout = limit\<rparr>)"
proof -
  obtain ok m where r: "probe_from limit poll obs 0 (fst (obs 0)) = Some (ok, m)"
    using probe_from_returns [OF assms, of limit obs 0 "fst (obs 0)"] by auto
  have "ok \<longleftrightarrow> (\<exists>m. reached limit poll obs m)"
    using probe_from_spec [OF assms r] reached_iff [OF assms, of limit obs] by (auto split: if_splits)
  with r show ?thesis by (auto simp: wait_for_single_port_def)
qed

lemma try_join_all_Some:
  assumes "picks_one first_err" "None \<notin> set rs"
  shows "try_join_all first_err rs =
    (if \<forall>r \<in> set rs. is_ok (the r) then Some (Ok ()) else map_option (\<lambda>r. and_then r (\<lambda>_. Ok ())) (rs ! first_err (failing rs)))"
    and "\<not> (\<forall>r \<in> set rs. is_ok (the r)) \<Longrightarrow> \<exists>i e. i < length rs \<and> first_err (failing rs) = i \<and> rs ! i = Some (Inl e)"
proof -
  have "is_ok (the (rs ! i)) \<longleftrightarrow> \<not> (case rs ! i of Some (Inl _) \<Rightarrow> True | _ \<Rightarrow> False)" if "i < length rs" for i
    using assms(2) that nth_mem [OF that] by (cases "rs ! i") (auto simp: is_ok_def split: sum.splits)
  then have fail: "failing rs = [] \<longleftrightarrow> (\<forall>r \<in> set rs. is_ok (the r))"
    by (auto simp: failing_def filter_empty_conv all_set_conv_all_nth)
  show "try_join_all first_err rs =
    (if \<forall>r \<in> set rs. is_ok (the r) then Some (Ok ()) else map_option (\<lambda>r. and_then r (\<lambda>_. Ok ())) (rs ! first_err (failing rs)))"
    using assms(2) by (simp add: try_join_all_def fail)
  assume "\<not> (\<forall>r \<in> set rs. is_ok (the r))"
  with fail assms(1) have "first_err (failing rs) \<in> set (failing rs)" by (simp add: picks_one_def)
  then show "\<exists>i e. i < length rs \<and> first_err (failing rs) = i \<and> rs ! i = Some (Inl e)"
    by (auto simp: failing_def split: option.splits sum.splits)
qed

lemma last_attempt_bound:
  assumes "0 < poll" "reached limit poll obs m \<or> given_up limit poll obs m"
  shows "m \<le> limit div poll + 1"
proof (cases m)
  case (Suc k)
  then have "probe_time poll obs k < limit" using assms(2) by (auto simp: reached_def given_up_def)
  with probe_time_lower [of k poll obs] have "k * poll \<le> limit" by linarith
  with assms(1) have "k \<le> limit div poll" by (simp add: less_eq_div_iff_mult_less_eq)
  with Suc show ?thesis by simp
qed simp

lemma ask_clients_result:
  "ask_clients f i cs le = Inr v \<longleftrightarrow> (\<exists>k < length cs. f (i + k) (cs ! k) = Inr v \<and> (\<forall>j < k. \<not> is_ok (f (i + j) (cs ! j))))"
proof (induction cs arbitrary: i le)
  case (Cons c cs)
  show ?case
  proof (cases "f i c")
    case (Inl e)
    with Cons show ?thesis by (simp add: Ex_less_Suc2 All_less_Suc2)
  next
    case (Inr w)
    then show ?thesis by (auto simp: Ex_less_Suc2 All_less_Suc2)
  qed
qed simp

lemma ask_clients_last_error:
  "ask_clients f i cs le = Inl e \<Longrightarrow> cs \<noteq> [] \<Longrightarrow> f (i + length cs - 1) (last cs) = Inl e"
  by (induction cs arbitrary: i le) (fastforce split: sum.splits)+

lemma http_wait_outcome:
  assumes "0 < poll" "picks_one first_err"
  obtains (ok) "wait_for_http_ports_with_host first_err info_path net ports role host limit poll = Some (Ok ())"
      "\<forall>i < length ports. \<exists>m. reached limit poll (net i (probe_url info_path host (ports ! i))) m"
    | (err) i where "i < length ports" "\<exists>m. given_up limit poll (net i (probe_url info_path host (ports ! i))) m"
      "wait_for_http_ports_with_host first_err info_path net ports role host limit poll =
         Some (Err \<lparr>he_role = role, he_port = ports ! i, he_timeout = limit\<rparr>)"
proof -
  let ?obs = "\<lambda>i. net i (probe_url info_path host (ports ! i))"
  let ?one = "\<lambda>i. if \<exists>m. reached limit poll (?obs i) m then Ok () else Err \<lparr>he_role = role, he_port = ports ! i, he_timeout = limit\<rparr>"
  define rs where "rs = map (\<lambda>i. Some (?one i)) [0..<length ports]"
  have wait: "wait_for_http_ports_with_host first_err info_path net ports role host limit poll = try_join_all first_err rs"
  proof (cases "ports = []")
    case True
    then show ?thesis by (simp add: wait_for_http_ports_with_host_def rs_def try_join_all_def failing_def)
  next
    case False
    have "map (\<lambda>(i, port). wait_for_single_port (net i (probe_url info_path host port)) port role limit poll) (enumerate 0 ports) = rs"
      by (rule nth_equalityI) (simp_all add: rs_def nth_enumerate_eq wait_for_single_port_eq [OF assms(1)])
    with False show ?thesis by (simp add: wait_for_http_ports_with_host_def)
  qed
  have none: "None \<notin> set rs" by (auto simp: rs_def)
  have all: "(\<forall>r \<in> set rs. is_ok (the r)) \<longleftrightarrow> (\<forall>i < length ports. \<exists>m. reached limit poll (?obs i) m)"
    by (auto simp: rs_def)
  show thesis
  proof (cases "\<forall>r \<in> set rs. is_ok (the r)")
    case True
    with all try_join_all_Some(1) [OF assms(2) none] show thesis by (intro ok) (simp_all add: wait)
  next
    case False
    from try_join_all_Some(2) [OF assms(2) none False] obtain i e where
      i: "i < length ports" "first_err (failing rs) = i" "rs ! i = Some (Inl e)" by (auto simp: rs_def)
    then have "\<nexists>m. reached limit poll (?obs i) m" and e: "e = \<lparr>he_role = role, he_port = ports ! i, he_timeout = limit\<rparr>"
      by (auto simp: rs_def split: if_splits)
    with reached_iff [OF assms(1), of limit "?obs i"] have "\<exists>m. given_up limit poll (?obs i) m" by blast
    moreover have "try_join_all first_err rs = Some (Err e)"
      using try_join_all_Some(1) [OF assms(2) none] False i by simp
    ultimately show thesis using i(1) e by (intro err) (simp_all add: wait)
  qed
qed

section \<open>Properties\<close>



end
