(* ===== verification/Deployment.thy ===== *)
theory Deployment
  imports Runner
begin

text \<open>
  What a deployer promises its caller (\<^verbatim>\<open>Deployer\<close> in \<^verbatim>\<open>core/src/scenario/runtime/deployer.rs\<close>,
  \<^verbatim>\<open>CleanupGuard\<close> in \<^verbatim>\<open>context.rs\<close>).  A deployment acquires resources outside the program; if it
  succeeds, it hands the runner a guard whose \<^verbatim>\<open>cleanup\<close> releases them, and if it fails, it has
  released them itself.  The contract is stated once for all deployers; each names the errors on
  which its code breaks it.

  A resource counts as released once its removal has been requested, as the code only logs
  removals that fail.
\<close>

section \<open>Resources\<close>

datatype resource =
  HelmRelease string string
| Namespace string
| PortForwardProcess nat
| ComposeStack string
| CfgsyncContainer string
| NodeProcess nat
| BlockFeedTask

datatype resource_event = Acquire resource | Release resource

fun apply_event :: "resource_event \<Rightarrow> resource set \<Rightarrow> resource set" where
  "apply_event (Acquire r) rs = insert r rs"
| "apply_event (Release r) rs = rs - {r}"

definition held :: "resource_event list \<Rightarrow> resource set" where
  "held evs = fold apply_event evs {}"

lemma held_Nil [simp]: "held [] = {}"
  by (simp add: held_def)

lemma held_snoc [simp]: "held (evs @ [e]) = apply_event e (held evs)"
  by (simp add: held_def)

lemma held_append: "held (evs @ fs) = fold apply_event fs (held evs)"
  by (simp add: held_def)

lemma fold_acquire: "fold apply_event (map Acquire rs) S = S \<union> set rs"
  by (induction rs arbitrary: S) auto

lemma fold_release: "fold apply_event (map Release rs) S = S - set rs"
  by (induction rs arbitrary: S) auto

section \<open>Actions\<close>

text \<open>An action of a deployer changes its state and panics, fails or yields a value; \<open>bind_act\<close> is \<^verbatim>\<open>?\<close>.\<close>

type_synonym ('w, 'e, 'a) act = "'w \<Rightarrow> ('e + 'a) option \<times> 'w"

definition bind_act :: "('w, 'e, 'a) act \<Rightarrow> ('a \<Rightarrow> ('w, 'e, 'b) act) \<Rightarrow> ('w, 'e, 'b) act" where
  "bind_act m f w =
     (case m w of
        (None, w') \<Rightarrow> (None, w')
      | (Some (Inl e), w') \<Rightarrow> (Some (Inl e), w')
      | (Some (Inr x), w') \<Rightarrow> f x w')"

definition return_act :: "'e + 'a \<Rightarrow> ('w, 'e, 'a) act" where
  "return_act r w = (Some r, w)"

named_theorems act_simps \<open>equations that run actions\<close>

lemma bind_act_simps [act_simps]:
  "m w = (None, w') \<Longrightarrow> bind_act m f w = (None, w')"
  "m w = (Some (Inl e), w') \<Longrightarrow> bind_act m f w = (Some (Inl e), w')"
  "m w = (Some (Inr x), w') \<Longrightarrow> bind_act m f w = f x w'"
  by (simp_all add: bind_act_def)

lemma bind_return_act [simp]:
  "bind_act (return_act (Inl e)) f w = (Some (Inl e), w)" "bind_act (return_act (Inr x)) f w = f x w"
  by (simp_all add: bind_act_def return_act_def)

text \<open>
  Total correctness of an action from a state: it does not panic, an error satisfies \<open>E\<close> and a value
  \<open>Q\<close>, each with the state reached.  The rules follow the ways actions are composed.
\<close>

definition ends_in :: "('w, 'e, 'a) act \<Rightarrow> 'w \<Rightarrow> ('e \<Rightarrow> 'w \<Rightarrow> bool) \<Rightarrow> ('a \<Rightarrow> 'w \<Rightarrow> bool) \<Rightarrow> bool" where
  "ends_in m w E Q \<longleftrightarrow>
     (case m w of
        (None, _) \<Rightarrow> False
      | (Some (Inl e), w') \<Rightarrow> E e w'
      | (Some (Inr x), w') \<Rightarrow> Q x w')"

lemma ends_in_cases:
  assumes "ends_in m w E Q"
  obtains (Err) e w' where "m w = (Some (Inl e), w')" "E e w'"
    | (Ok) x w' where "m w = (Some (Inr x), w')" "Q x w'"
  using assms by (auto simp: ends_in_def split: prod.splits option.splits sum.splits)

lemma ends_in_bind:
  assumes "ends_in m w E R" "\<And>x w'. R x w' \<Longrightarrow> ends_in (f x) w' E Q"
  shows "ends_in (bind_act m f) w E Q"
  using assms(1)
proof (cases rule: ends_in_cases)
  case (Ok x w')
  with assms(2) [of x w'] show ?thesis by (simp add: ends_in_def bind_act_def)
qed (simp add: ends_in_def bind_act_def)

lemma ends_in_return:
  "(\<And>e. r = Inl e \<Longrightarrow> E e w) \<Longrightarrow> (\<And>x. r = Inr x \<Longrightarrow> Q x w) \<Longrightarrow> ends_in (return_act r) w E Q"
  by (cases r) (simp_all add: ends_in_def return_act_def)

lemma ends_in_bind_result:
  assumes "\<And>e. r = Inl e \<Longrightarrow> E (g e) w" "\<And>x. r = Inr x \<Longrightarrow> ends_in (f x) w E Q"
  shows "ends_in (bind_act (return_act (map_err g r)) f) w E Q"
  using assms by (cases r) (simp_all add: ends_in_def)

lemma ends_in_bind_return:
  assumes "\<And>e. r = Inl e \<Longrightarrow> E e w" "\<And>x. r = Inr x \<Longrightarrow> ends_in (f x) w E Q"
  shows "ends_in (bind_act (return_act r) f) w E Q"
  using assms by (cases r) (simp_all add: ends_in_def)

section \<open>The contract\<close>

text \<open>
  A whole session: deploy, then run the scenario, performing the guard's clean-up wherever the
  runner asks for it.
\<close>

definition session ::
  "('i \<Rightarrow> ('e + 'g) option \<times> resource_event list) \<Rightarrow> ('i \<Rightarrow> 'g \<Rightarrow> resource_event list) \<Rightarrow> 'i \<Rightarrow> ('g \<Rightarrow> run_event list) \<Rightarrow>
   resource_event list" where
  "session deploy release i run_log =
     (case deploy i of
        (None, evs) \<Rightarrow> evs
      | (Some (Inl e), evs) \<Rightarrow> evs
      | (Some (Inr g), evs) \<Rightarrow> evs @ concat (map (\<lambda>ev. if ev = EvCleanup then release i g else []) (run_log g)))"

text \<open>
  \<open>deploy\<close> yields the guard or an error, or panics, and what it did; \<open>release\<close> is what the guard's clean-up does.
  \<open>supported\<close> are the surroundings in which clean-up can run at all and is not switched off.
\<close>

locale deployer =
  fixes deploy :: "'i \<Rightarrow> ('e + 'g) option \<times> resource_event list"
    and release :: "'i \<Rightarrow> 'g \<Rightarrow> resource_event list"
    and supported :: "'i \<Rightarrow> bool"
    and leaky :: "'e \<Rightarrow> bool"
  assumes deploy_returns: "supported i \<Longrightarrow> fst (deploy i) \<noteq> None"
    and deploy_Ok: "supported i \<Longrightarrow> deploy i = (Some (Ok g), evs) \<Longrightarrow> held (evs @ release i g) = {}"
    and deploy_Err: "supported i \<Longrightarrow> deploy i = (Some (Err e), evs) \<Longrightarrow> \<not> leaky e \<Longrightarrow> held evs = {}"
begin

lemma session_releases:
  assumes "supported i" "\<And>g evs. deploy i = (Some (Ok g), evs) \<Longrightarrow> count_list (run_log g) EvCleanup = 1"
    and "\<And>e evs. deploy i = (Some (Err e), evs) \<Longrightarrow> \<not> leaky e"
  shows "held (session deploy release i run_log) = {}"
proof -
  have one: "concat (map (\<lambda>ev. if ev = EvCleanup then r else []) evs) = r" if "count_list evs EvCleanup = 1" for r :: "resource_event list" and evs
  proof -
    have none: "concat (map (\<lambda>ev. if ev = EvCleanup then r else []) evs) = []" if "count_list evs EvCleanup = 0" for evs
      using that by (simp add: count_list_0_iff)
    from that show ?thesis by (induction evs) (auto simp: none count_list_0_iff split: if_splits)
  qed
  obtain r evs where d: "deploy i = (Some r, evs)" using deploy_returns [OF assms(1)] by (cases "deploy i") auto
  show ?thesis
  proof (cases r)
    case (Inl e)
    with d assms deploy_Err show ?thesis by (simp add: session_def)
  next
    case (Inr g)
    with d have ok: "deploy i = (Some (Ok g), evs)" by simp
    then show ?thesis using deploy_Ok [OF assms(1) ok] one [OF assms(2) [OF ok]] by (simp add: session_def)
  qed
qed

end

section \<open>What the runner asks for\<close>

text \<open>The events of a run together with those of dropping the handle it returns.\<close>

definition run_to_drop ::
  "('e \<Rightarrow> (string + 'e) option) \<Rightarrow> ('e \<Rightarrow> (string + unit) option) \<Rightarrow> ('e \<Rightarrow> string) \<Rightarrow>
   (nat option \<times> workload_end) list \<Rightarrow> nat \<Rightarrow> duration \<Rightarrow> 'e list \<Rightarrow> runner \<Rightarrow> run_event list" where
  "run_to_drop capture evaluate name_of behaviour lag duration es r =
     (case run capture evaluate name_of behaviour lag duration es r of
        (Some (Inr h), evs) \<Rightarrow> run_handle_drop h evs
      | (_, evs) \<Rightarrow> evs)"

lemma phases_no_cleanup: "count_list (take k (phases n w)) EvCleanup = 0"
  by (auto simp: phases_def count_list_0_iff dest!: in_set_takeD)

lemma run_to_drop_cleanup:
  "count_list (run_to_drop capture evaluate name_of behaviour lag duration es (runner_new ctx True)) EvCleanup = 1"
proof (rule run_log_shape [of capture evaluate name_of behaviour lag duration es ctx True])
  fix result k
  assume "run capture evaluate name_of behaviour lag duration es (runner_new ctx True) =
      (result, take k (phases (length es) (length behaviour)) @ (if True then [EvCleanup] else []))"
    and "\<forall>h. result \<noteq> Some (Ok h)"
  then show ?thesis by (auto simp: run_to_drop_def phases_no_cleanup split: option.splits sum.splits)
next
  assume "run capture evaluate name_of behaviour lag duration es (runner_new ctx True) =
      (Some (Ok (from_shared ctx True)), phases (length es) (length behaviour))"
  then show ?thesis
    using phases_no_cleanup [of "length (phases (length es) (length behaviour))" "length es" "length behaviour"]
    by (simp add: run_to_drop_def run_handle_drop_def from_shared_def)
qed

text \<open>A topology to instantiate the properties of the deployers with.\<close>

lemma demo_topology_exists:
  obtains t s n0 n1 where "build demo_deps Map.empty demo_builder demo_os = (Ok t, s)" "gt_nodes t = [n0, n1]"
    "\<forall>d control. run_context_new t d control \<noteq> None"
proof -
  obtain t s where t: "build demo_deps Map.empty demo_builder demo_os = (Ok t, s)"
    using build_is_ok [of demo_deps demo_os demo_builder Map.empty] by (auto simp: vector_fits_def demo_ids_def)
  have "length (gt_nodes t) = 2" using t by (rule build_Ok) simp
  then obtain n0 n1 where n: "gt_nodes t = [n0, n1]" by (auto simp: length_Suc_conv numeral_2_eq_2)
  have r: "round64 (2 :: rat) = Fin 2" "round_half_even 2000000000 = 2000000000"
    using round64_exact_nat [of 2] round_half_even_of_int [of 2000000000] by simp_all
  have "slot_duration t = Some (from_secs 2)" "cp_active_slot_coeff (tc_consensus_params (gt_config t)) = Fin 1"
    using build_slot_duration [OF t] by (simp_all add: default_time_config_def demo_params_def)
  then have "run_context_new t d control \<noteq> None" for d control
    by (simp add: run_context_new_def run_metrics_new_def from_topology_def Let_def as_secs_f64_whole mul_f64_def r f64_clamp_def)
  with t n that show ?thesis by blast
qed

end
