(* ===== verification/K8s_Wait.thy ===== *)
theory K8s_Wait
  imports Http_Probe Deployment
begin

text \<open>
  Waiting for a deployed kubernetes stack (\<^verbatim>\<open>deployers/k8s/src/lifecycle/wait\<close>, \<^verbatim>\<open>host.rs\<close>): every
  deployment has to become ready and its service to expose node ports; the nodes have to answer on
  these ports or, failing that, through \<^verbatim>\<open>kubectl port-forward\<close> processes.

  What the cluster answers is an argument: one stream per polled object, indexed by attempt.  The
  port-forward processes this program has started and not stopped are tracked in the state, as they
  outlive a failing call unless the code stops them.
\<close>

section \<open>Settings\<close>

definition node_host :: "env \<Rightarrow> string" where
  "node_host ev =
     (case ev ''K8S_RUNNER_NODE_HOST'' of
        Some host \<Rightarrow> host
      | None \<Rightarrow>
          (case ev ''KUBERNETES_SERVICE_HOST'' of
             Some host \<Rightarrow> if host \<noteq> [] then host else ''127.0.0.1''
           | None \<Rightarrow> ''127.0.0.1''))"

definition default_http_poll_interval :: duration where "default_http_poll_interval = from_secs 1"
definition default_node_http_timeout :: duration where "default_node_http_timeout = from_secs 240"
definition default_node_http_probe_timeout :: duration where "default_node_http_probe_timeout = from_secs 30"
definition default_k8s_deployment_timeout :: duration where "default_k8s_deployment_timeout = from_secs 180"

definition env_duration_secs :: "env \<Rightarrow> string \<Rightarrow> duration \<Rightarrow> duration" where
  "env_duration_secs ev key dflt =
     (case Option.bind (ev key) (parse_uint u64_max) of None \<Rightarrow> dflt | Some n \<Rightarrow> from_secs n)"

definition deployment_timeout :: "env \<Rightarrow> duration" where
  "deployment_timeout ev = env_duration_secs ev ''K8S_RUNNER_DEPLOYMENT_TIMEOUT_SECS'' default_k8s_deployment_timeout"

definition node_http_timeout :: "env \<Rightarrow> duration" where
  "node_http_timeout ev = env_duration_secs ev ''K8S_RUNNER_HTTP_TIMEOUT_SECS'' default_node_http_timeout"

definition node_http_probe_timeout :: "env \<Rightarrow> duration" where
  "node_http_probe_timeout ev = env_duration_secs ev ''K8S_RUNNER_HTTP_PROBE_TIMEOUT_SECS'' default_node_http_probe_timeout"

definition http_poll_interval :: "env \<Rightarrow> duration" where
  "http_poll_interval ev = env_duration_secs ev ''K8S_RUNNER_HTTP_POLL_INTERVAL_SECS'' default_http_poll_interval"

section \<open>Data\<close>

record node_config_ports =
  ncp_api :: u16
  ncp_testing :: u16

record node_port_allocation =
  npa_api :: u16
  npa_testing :: u16

record cluster_ports =
  cp_nodes :: "node_port_allocation list"
  cp_node_host :: string

text \<open>A port-forward handle is the number of the process it owns.\<close>

record cluster_ready =
  crd_ports :: cluster_ports
  crd_port_forwards :: "nat list"

datatype cluster_wait_error =
  DeploymentTimeout string string duration
| DeploymentFetch string string
| ServiceFetch string string
| NodePortUnavailable string u16
| MissingNode
| NodeHttpTimeout string u16 duration
| PortForward string u16 string
| PortForwardTask string

section \<open>Deployments\<close>

definition deployment_poll_interval :: duration where "deployment_poll_interval = from_secs 2"

text \<open>The replica counts of a deployment, where present.\<close>

record deployment_status =
  ds_replicas :: "int option"
  ds_ready_replicas :: "int option"

definition deployment_is_ready :: "deployment_status \<Rightarrow> bool" where
  "deployment_is_ready d =
     ((case ds_replicas d of None \<Rightarrow> 1 | Some n \<Rightarrow> n) \<le> (case ds_ready_replicas d of None \<Rightarrow> 0 | Some n \<Rightarrow> n))"

function deployment_loop ::
  "duration \<Rightarrow> string \<Rightarrow> string \<Rightarrow> (nat \<Rightarrow> string + deployment_status) \<Rightarrow> nat \<Rightarrow> duration \<Rightarrow> (cluster_wait_error + unit) option" where
  "deployment_loop limit namespace name fetch k elapsed =
     (if limit < elapsed then Some (Err (DeploymentTimeout name namespace limit))
      else case fetch k of
        Inl err \<Rightarrow> Some (Err (DeploymentFetch name err))
      | Inr d \<Rightarrow>
          if deployment_is_ready d then Some (Ok ())
          else case dur_checked_add elapsed deployment_poll_interval of
            None \<Rightarrow> None
          | Some elapsed' \<Rightarrow> deployment_loop limit namespace name fetch (Suc k) elapsed')"
  by pat_completeness auto

lemma deployment_poll_interval_pos: "0 < deployment_poll_interval"
  by (simp add: deployment_poll_interval_def duration_defs)

lemma dur_checked_add_Some: "dur_checked_add a b = Some c \<Longrightarrow> c = a + b"
  by (auto simp: dur_checked_add_def split: if_splits)

termination deployment_loop
  by (relation "measure (\<lambda>(limit, _, _, _, _, elapsed). Suc limit - elapsed)")
    (use deployment_poll_interval_pos in \<open>auto dest: dur_checked_add_Some\<close>)

declare deployment_loop.simps [simp del]

definition wait_for_deployment_ready ::
  "env \<Rightarrow> (nat \<Rightarrow> string + deployment_status) \<Rightarrow> string \<Rightarrow> string \<Rightarrow> (cluster_wait_error + unit) option" where
  "wait_for_deployment_ready ev fetch namespace name = deployment_loop (deployment_timeout ev) namespace name fetch 0 0"

section \<open>Node ports\<close>

definition node_port_lookup_attempts :: nat where "node_port_lookup_attempts = 120"

text \<open>A service port of the cluster API: its number and the node port, both 32-bit signed.\<close>

type_synonym service_port = "int \<times> int option"

fun matching_node_port :: "u16 \<Rightarrow> service_port list \<Rightarrow> u16 option" where
  "matching_node_port service_port [] = None"
| "matching_node_port service_port ((p, node_port) # ports) =
     (if p = int (unat service_port) \<and> node_port \<noteq> None then Some (word_of_int (the node_port))
      else matching_node_port service_port ports)"

fun lookup_node_port ::
  "(nat \<Rightarrow> string + service_port list option) \<Rightarrow> string \<Rightarrow> u16 \<Rightarrow> nat \<Rightarrow> nat \<Rightarrow> cluster_wait_error + u16" where
  "lookup_node_port fetch service_name service_port k 0 = Err (NodePortUnavailable service_name service_port)"
| "lookup_node_port fetch service_name service_port k (Suc n) =
     (case fetch k of
        Inl err \<Rightarrow> Err (ServiceFetch service_name err)
      | Inr ports \<Rightarrow>
          (case Option.bind ports (matching_node_port service_port) of
             Some p \<Rightarrow> Ok p
           | None \<Rightarrow> lookup_node_port fetch service_name service_port (Suc k) n))"

definition find_node_port ::
  "(nat \<Rightarrow> string + service_port list option) \<Rightarrow> string \<Rightarrow> u16 \<Rightarrow> cluster_wait_error + u16" where
  "find_node_port fetch service_name service_port =
     lookup_node_port fetch service_name service_port 0 node_port_lookup_attempts"

definition discover_node_ports ::
  "(bool \<Rightarrow> nat \<Rightarrow> string + service_port list option) \<Rightarrow> string \<Rightarrow> node_config_ports \<Rightarrow> cluster_wait_error + node_port_allocation" where
  "discover_node_ports fetch service_name config_ports =
     and_then (find_node_port (fetch False) service_name (ncp_api config_ports)) (\<lambda>api.
     and_then (find_node_port (fetch True) service_name (ncp_testing config_ports)) (\<lambda>testing.
       Ok \<lparr>npa_api = api, npa_testing = testing\<rparr>))"

section \<open>Port forwarding\<close>

text \<open>Processes are numbered in the order they are started; the log records what was acquired and released.\<close>

record process_world =
  pw_started :: nat
  pw_log :: "resource_event list"

record forward_answers =
  fa_local_port :: "string + u16"
  fa_spawn :: "string list \<Rightarrow> string + unit"
  fa_exit :: "nat \<Rightarrow> string option"
  fa_connect :: "nat \<Rightarrow> bool"

definition port_forward_ready_attempts :: nat where "port_forward_ready_attempts = 240"

definition stop_process :: "nat \<Rightarrow> process_world \<Rightarrow> process_world" where
  "stop_process pid w = w\<lparr>pw_log := pw_log w @ [Release (PortForwardProcess pid)]\<rparr>"

definition kill_port_forwards :: "nat list \<Rightarrow> process_world \<Rightarrow> process_world" where
  "kill_port_forwards handles w = fold stop_process handles w"

fun await_forward :: "forward_answers \<Rightarrow> nat \<Rightarrow> nat \<Rightarrow> string + unit" where
  "await_forward a k 0 = Err ''port-forward did not become ready''"
| "await_forward a k (Suc n) =
     (case fa_exit a k of
        Some status \<Rightarrow> Err (''kubectl exited with '' @ status)
      | None \<Rightarrow> if fa_connect a k then Ok () else await_forward a (Suc k) n)"

definition kubectl_args :: "string \<Rightarrow> string \<Rightarrow> u16 \<Rightarrow> u16 \<Rightarrow> string list" where
  "kubectl_args namespace service local_port remote_port =
     [''port-forward'', ''-n'', namespace, ''svc/'' @ service,
      show_nat (unat local_port) @ '':'' @ show_nat (unat remote_port)]"

definition port_forward_service ::
  "forward_answers \<Rightarrow> string \<Rightarrow> string \<Rightarrow> u16 \<Rightarrow> process_world \<Rightarrow> (cluster_wait_error + u16 \<times> nat) \<times> process_world" where
  "port_forward_service a namespace service remote_port w =
     (case fa_local_port a of
        Inl e \<Rightarrow> (Err (PortForward service remote_port e), w)
      | Inr local_port \<Rightarrow>
          (case fa_spawn a (kubectl_args namespace service local_port remote_port) of
             Inl e \<Rightarrow> (Err (PortForward service remote_port e), w)
           | Inr _ \<Rightarrow>
               (let pid = pw_started w;
                    w1 = w\<lparr>pw_started := pw_started w + 1, pw_log := pw_log w @ [Acquire (PortForwardProcess pid)]\<rparr>
                in case await_forward a 0 port_forward_ready_attempts of
                     Inl e \<Rightarrow> (Err (PortForward service remote_port e), stop_process pid w1)
                   | Inr _ \<Rightarrow> (Ok (local_port, pid), w1))))"

text \<open>
  A failing group stops the forwards collected so far; if the testing forward fails, the handle of
  the API forward goes out of scope and its process is stopped too.
\<close>

fun port_forward_group ::
  "(nat \<Rightarrow> bool \<Rightarrow> forward_answers) \<Rightarrow> string \<Rightarrow> string \<Rightarrow> string \<Rightarrow> nat \<Rightarrow> node_config_ports list \<Rightarrow>
   nat list \<Rightarrow> node_port_allocation list \<Rightarrow> process_world \<Rightarrow>
   (cluster_wait_error + nat list \<times> node_port_allocation list) \<times> process_world" where
  "port_forward_group ans namespace release kind index [] forwards allocations w = (Ok (forwards, allocations), w)"
| "port_forward_group ans namespace release kind index (p # ps) forwards allocations w =
     (let service = release @ ''-'' @ kind @ ''-'' @ show_nat index in
      case port_forward_service (ans index False) namespace service (ncp_api p) w of
        (Inl e, w1) \<Rightarrow> (Err e, kill_port_forwards forwards w1)
      | (Inr (api_local, api_forward), w1) \<Rightarrow>
          (case port_forward_service (ans index True) namespace service (ncp_testing p) w1 of
             (Inl e, w2) \<Rightarrow> (Err e, stop_process api_forward (kill_port_forwards forwards w2))
           | (Inr (testing_local, testing_forward), w2) \<Rightarrow>
               port_forward_group ans namespace release kind (Suc index) ps (forwards @ [api_forward, testing_forward])
                 (allocations @ [\<lparr>npa_api = api_local, npa_testing = testing_local\<rparr>]) w2))"

section \<open>The cluster\<close>

record cluster_answers =
  ca_deployment :: "nat \<Rightarrow> nat \<Rightarrow> string + deployment_status"
  ca_service :: "nat \<Rightarrow> bool \<Rightarrow> nat \<Rightarrow> string + service_port list option"
  ca_node_net :: probe_net
  ca_forward :: "nat \<Rightarrow> bool \<Rightarrow> forward_answers"
  ca_task_error :: "string option"
  ca_forward_net :: probe_net
  ca_first_err :: "nat list \<Rightarrow> nat"
  ca_info_path :: string

definition map_http_error :: "http_readiness_error \<Rightarrow> cluster_wait_error" where
  "map_http_error e = NodeHttpTimeout (he_role e) (he_port e) (he_timeout e)"

definition wait_for_node_http_on_host ::
  "env \<Rightarrow> cluster_answers \<Rightarrow> probe_net \<Rightarrow> u16 list \<Rightarrow> string \<Rightarrow> string \<Rightarrow> duration \<Rightarrow> (cluster_wait_error + unit) option" where
  "wait_for_node_http_on_host ev ca net ports role host limit =
     map_option (map_err map_http_error)
       (wait_for_http_ports_with_host (ca_first_err ca) (ca_info_path ca) net ports role host limit (http_poll_interval ev))"

definition wait_for_node_http_nodeport ::
  "env \<Rightarrow> cluster_answers \<Rightarrow> u16 list \<Rightarrow> string \<Rightarrow> (cluster_wait_error + unit) option" where
  "wait_for_node_http_nodeport ev ca ports role =
     wait_for_node_http_on_host ev ca (ca_node_net ca) ports role (node_host ev) (node_http_probe_timeout ev)"

definition wait_for_node_http_port_forward ::
  "env \<Rightarrow> cluster_answers \<Rightarrow> u16 list \<Rightarrow> string \<Rightarrow> (cluster_wait_error + unit) option" where
  "wait_for_node_http_port_forward ev ca ports role =
     wait_for_node_http_on_host ev ca (ca_forward_net ca) ports role ''127.0.0.1'' (node_http_timeout ev)"

fun discover_nodes ::
  "env \<Rightarrow> cluster_answers \<Rightarrow> string \<Rightarrow> string \<Rightarrow> nat \<Rightarrow> node_config_ports list \<Rightarrow>
   (cluster_wait_error + node_port_allocation list) option" where
  "discover_nodes ev ca namespace release index [] = Some (Ok [])"
| "discover_nodes ev ca namespace release index (p # ps) =
     (let name = release @ ''-node-'' @ show_nat index in
      case wait_for_deployment_ready ev (ca_deployment ca index) namespace name of
        None \<Rightarrow> None
      | Some (Inl e) \<Rightarrow> Some (Err e)
      | Some (Inr _) \<Rightarrow>
          (case discover_node_ports (ca_service ca index) name p of
             Inl e \<Rightarrow> Some (Err e)
           | Inr allocation \<Rightarrow>
               map_option (\<lambda>r. and_then r (\<lambda>rest. Ok (allocation # rest)))
                 (discover_nodes ev ca namespace release (Suc index) ps)))"

text \<open>
  If the task that starts the forwards does not complete, what it started is stopped as its
  variables go out of scope.
\<close>

definition forward_nodes ::
  "env \<Rightarrow> cluster_answers \<Rightarrow> string \<Rightarrow> string \<Rightarrow> node_config_ports list \<Rightarrow> process_world \<Rightarrow>
   (cluster_wait_error + cluster_ready) option \<times> process_world" where
  "forward_nodes ev ca namespace release node_ports w =
     (case ca_task_error ca of
        Some e \<Rightarrow> (Some (Err (PortForwardTask e)), w)
      | None \<Rightarrow>
          (case port_forward_group (ca_forward ca) namespace release ''node'' 0 node_ports [] [] w of
             (Inl e, w1) \<Rightarrow> (Some (Err e), w1)
           | (Inr (forwards, allocations), w1) \<Rightarrow>
               (case wait_for_node_http_port_forward ev ca (map npa_api allocations) node_role of
                  None \<Rightarrow> (None, w1)
                | Some (Inl e) \<Rightarrow> (Some (Err e), kill_port_forwards forwards w1)
                | Some (Inr _) \<Rightarrow>
                    (Some (Ok \<lparr>crd_ports = \<lparr>cp_nodes = allocations, cp_node_host = ''127.0.0.1''\<rparr>,
                              crd_port_forwards = forwards\<rparr>), w1))))"

definition wait_for_cluster_ready ::
  "env \<Rightarrow> cluster_answers \<Rightarrow> string \<Rightarrow> string \<Rightarrow> node_config_ports list \<Rightarrow> process_world \<Rightarrow>
   (cluster_wait_error + cluster_ready) option \<times> process_world" where
  "wait_for_cluster_ready ev ca namespace release node_ports w =
     (if node_ports = [] then (Some (Err MissingNode), w)
      else case discover_nodes ev ca namespace release 0 node_ports of
        None \<Rightarrow> (None, w)
      | Some (Inl e) \<Rightarrow> (Some (Err e), w)
      | Some (Inr allocations) \<Rightarrow>
          (case wait_for_node_http_nodeport ev ca (map npa_api allocations) node_role of
             None \<Rightarrow> (None, w)
           | Some (Inr _) \<Rightarrow>
               (Some (Ok \<lparr>crd_ports = \<lparr>cp_nodes = allocations, cp_node_host = node_host ev\<rparr>, crd_port_forwards = []\<rparr>), w)
           | Some (Inl _) \<Rightarrow> forward_nodes ev ca namespace release node_ports w))"

section \<open>Polling\<close>

definition deployment_seen_ready :: "duration \<Rightarrow> (nat \<Rightarrow> string + deployment_status) \<Rightarrow> bool" where
  "deployment_seen_ready limit fetch \<longleftrightarrow>
     (\<exists>m. m * deployment_poll_interval \<le> limit \<and> (\<exists>d. fetch m = Ok d \<and> deployment_is_ready d) \<and>
       (\<forall>j < m. \<exists>d. fetch j = Ok d \<and> \<not> deployment_is_ready d))"

lemma deployment_loop_spec:
  assumes "limit + deployment_poll_interval \<le> dur_max"
    and "elapsed = k * deployment_poll_interval" "\<forall>j < k. \<exists>d. fetch j = Ok d \<and> \<not> deployment_is_ready d"
  shows "\<exists>r. deployment_loop limit namespace name fetch k elapsed = Some r \<and> (is_ok r \<longleftrightarrow> deployment_seen_ready limit fetch)"
  using assms
proof (induction limit namespace name fetch k elapsed rule: deployment_loop.induct)
  case (1 limit namespace name fetch k elapsed)
  let ?seen = "deployment_seen_ready limit fetch"
  have unique: "?seen \<longleftrightarrow> m * deployment_poll_interval \<le> limit \<and> (\<exists>d. fetch m = Ok d \<and> deployment_is_ready d)"
    if "\<forall>j < m. \<exists>d. fetch j = Ok d \<and> \<not> deployment_is_ready d" "\<not> (\<exists>d. fetch m = Ok d \<and> \<not> deployment_is_ready d)" for m
  proof
    assume ?seen
    then obtain n where n: "n * deployment_poll_interval \<le> limit" "\<exists>d. fetch n = Ok d \<and> deployment_is_ready d"
      "\<forall>j < n. \<exists>d. fetch j = Ok d \<and> \<not> deployment_is_ready d" by (auto simp: deployment_seen_ready_def)
    with that have "n = m" by (cases n m rule: linorder_cases) fastforce+
    with n show "m * deployment_poll_interval \<le> limit \<and> (\<exists>d. fetch m = Ok d \<and> deployment_is_ready d)" by simp
  qed (use that in \<open>auto simp: deployment_seen_ready_def\<close>)
  show ?case
  proof (cases "limit < elapsed")
    case True
    have "\<not> ?seen"
    proof
      assume ?seen
      then obtain n where n: "n * deployment_poll_interval \<le> limit" "\<exists>d. fetch n = Ok d \<and> deployment_is_ready d"
        by (auto simp: deployment_seen_ready_def)
      then have "\<not> n < k" using "1.prems"(3) by fastforce
      then have "k * deployment_poll_interval \<le> n * deployment_poll_interval" by simp
      with n(1) True "1.prems"(2) show False by linarith
    qed
    with True show ?thesis by (subst deployment_loop.simps) simp
  next
    case within: False
    show ?thesis
    proof (cases "fetch k")
      case (Inl err)
      then have "\<not> ?seen" using unique [of k] "1.prems"(3) by simp
      with within Inl show ?thesis by (subst deployment_loop.simps) simp
    next
      case (Inr d)
      show ?thesis
      proof (cases "deployment_is_ready d")
        case True
        then have ?seen using unique [of k] "1.prems"(2,3) Inr within by simp
        with within Inr True show ?thesis by (subst deployment_loop.simps) simp
      next
        case False
        have add: "dur_checked_add elapsed deployment_poll_interval = Some (elapsed + deployment_poll_interval)"
          using within "1.prems"(1) by (simp add: dur_checked_add_def)
        have "elapsed + deployment_poll_interval = Suc k * deployment_poll_interval" using "1.prems"(2) by simp
        moreover have "\<forall>j < Suc k. \<exists>d. fetch j = Ok d \<and> \<not> deployment_is_ready d"
          using "1.prems"(3) Inr False by (auto simp: less_Suc_eq)
        ultimately have "\<exists>r. deployment_loop limit namespace name fetch (Suc k) (elapsed + deployment_poll_interval) = Some r \<and>
            (is_ok r \<longleftrightarrow> ?seen)"
          using "1.IH" [OF within Inr False add] "1.prems"(1) by blast
        with within Inr False add show ?thesis by (subst deployment_loop.simps) simp
      qed
    qed
  qed
qed

definition timeouts_fit :: "env \<Rightarrow> bool" where
  "timeouts_fit ev \<longleftrightarrow> deployment_timeout ev + deployment_poll_interval \<le> dur_max \<and> 0 < http_poll_interval ev"

lemma wait_for_deployment_ready_cases:
  assumes "timeouts_fit ev"
  obtains (ready) "wait_for_deployment_ready ev fetch namespace name = Some (Ok ())" "deployment_seen_ready (deployment_timeout ev) fetch"
    | (failed) e where "wait_for_deployment_ready ev fetch namespace name = Some (Err e)"
        "\<not> deployment_seen_ready (deployment_timeout ev) fetch"
proof -
  obtain r where "wait_for_deployment_ready ev fetch namespace name = Some r"
    "is_ok r \<longleftrightarrow> deployment_seen_ready (deployment_timeout ev) fetch"
    using deployment_loop_spec [of "deployment_timeout ev" 0 0 fetch namespace name] assms
    by (auto simp: wait_for_deployment_ready_def timeouts_fit_def)
  then show thesis using ready failed by (cases r) auto
qed

text \<open>A node port is one the service exposes for the wanted port, cut to 16 bits.\<close>

definition exposed :: "(nat \<Rightarrow> string + service_port list option) \<Rightarrow> u16 \<Rightarrow> u16 \<Rightarrow> bool" where
  "exposed fetch service_port p \<longleftrightarrow>
     (\<exists>k < node_port_lookup_attempts. \<exists>ports node_port. fetch k = Ok (Some ports) \<and>
        (int (unat service_port), Some node_port) \<in> set ports \<and> p = word_of_int node_port)"

lemma matching_node_port_Some:
  "matching_node_port sp ports = Some p \<Longrightarrow> \<exists>np. (int (unat sp), Some np) \<in> set ports \<and> p = word_of_int np"
  by (induction sp ports rule: matching_node_port.induct) (auto split: if_splits)

lemma lookup_node_port_Ok:
  "lookup_node_port fetch name sp k n = Ok p \<Longrightarrow>
     \<exists>j < k + n. \<exists>ports np. fetch j = Ok (Some ports) \<and> (int (unat sp), Some np) \<in> set ports \<and> p = word_of_int np"
proof (induction fetch name sp k n rule: lookup_node_port.induct)
  case (2 fetch name sp k n)
  from "2.prems" obtain ports where f: "fetch k = Ok ports" by (auto split: sum.splits)
  show ?case
  proof (cases "Option.bind ports (matching_node_port sp)")
    case None
    from "2.IH" [OF f None] "2.prems" f None show ?thesis by auto
  next
    case (Some q)
    then obtain ps where "ports = Some ps" "matching_node_port sp ps = Some q" by (auto simp: Option.bind_eq_Some_conv)
    with matching_node_port_Some [of sp ps q] "2.prems" f Some show ?thesis
      by (intro exI [of _ k]) auto
  qed
qed simp

lemma find_node_port_Ok: "find_node_port fetch name sp = Ok p \<Longrightarrow> exposed fetch sp p"
  using lookup_node_port_Ok [of fetch name sp 0 node_port_lookup_attempts p] by (simp add: find_node_port_def exposed_def)

definition node_discovered :: "env \<Rightarrow> cluster_answers \<Rightarrow> nat \<Rightarrow> node_config_ports \<Rightarrow> node_port_allocation \<Rightarrow> bool" where
  "node_discovered ev ca i p a \<longleftrightarrow>
     deployment_seen_ready (deployment_timeout ev) (ca_deployment ca i) \<and>
     exposed (ca_service ca i False) (ncp_api p) (npa_api a) \<and> exposed (ca_service ca i True) (ncp_testing p) (npa_testing a)"

lemma discover_nodes_result:
  assumes "timeouts_fit ev"
  shows "\<exists>r. discover_nodes ev ca namespace release index ps = Some r \<and>
    (\<forall>as. r = Ok as \<longrightarrow> length as = length ps \<and> (\<forall>i < length ps. node_discovered ev ca (index + i) (ps ! i) (as ! i)))"
proof (induction ps arbitrary: index)
  case (Cons p ps)
  let ?name = "release @ ''-node-'' @ show_nat index"
  from assms show ?case
  proof (cases rule: wait_for_deployment_ready_cases [where fetch = "ca_deployment ca index" and namespace = namespace and name = ?name])
    case (failed e)
    then show ?thesis by (simp add: Let_def)
  next
    case ready
    show ?thesis
    proof (cases "discover_node_ports (ca_service ca index) ?name p")
      case (Inl e)
      with ready show ?thesis by (simp add: Let_def)
    next
      case (Inr a)
      then have a: "node_discovered ev ca index p a"
        using ready by (auto simp: discover_node_ports_def node_discovered_def result_iffs dest: find_node_port_Ok)
      obtain r where r: "discover_nodes ev ca namespace release (Suc index) ps = Some r"
        "\<forall>as. r = Ok as \<longrightarrow> length as = length ps \<and> (\<forall>i < length ps. node_discovered ev ca (Suc index + i) (ps ! i) (as ! i))"
        using Cons.IH by blast
      with ready Inr a show ?thesis by (auto simp: Let_def result_iffs All_less_Suc2)
    qed
  qed
qed simp

section \<open>Processes\<close>

abbreviation pw_held :: "process_world \<Rightarrow> resource set" where
  "pw_held w \<equiv> held (pw_log w)"

definition process_wf :: "process_world \<Rightarrow> bool" where
  "process_wf w \<longleftrightarrow> (\<forall>pid. PortForwardProcess pid \<in> pw_held w \<longrightarrow> pid < pw_started w)"

lemma stop_process_held [simp]: "pw_held (stop_process pid w) = pw_held w - {PortForwardProcess pid}" "pw_started (stop_process pid w) = pw_started w"
  by (simp_all add: stop_process_def)

lemma kill_port_forwards_held [simp]:
  "pw_held (kill_port_forwards hs w) = pw_held w - PortForwardProcess ` set hs" "pw_started (kill_port_forwards hs w) = pw_started w"
  by (induction hs arbitrary: w) (auto simp: kill_port_forwards_def)

lemma port_forward_service_Err:
  assumes "port_forward_service a namespace service p w = (Err e, w')" "process_wf w"
  shows "pw_held w' = pw_held w" "process_wf w'"
  using assms by (auto simp: port_forward_service_def process_wf_def Let_def split: sum.splits)

lemma port_forward_service_Ok:
  assumes "port_forward_service a namespace service p w = (Ok (lp, pid), w')" "process_wf w"
  shows "pid = pw_started w" "PortForwardProcess pid \<notin> pw_held w" "pw_held w' = insert (PortForwardProcess pid) (pw_held w)" "process_wf w'"
  using assms by (auto simp: port_forward_service_def process_wf_def Let_def split: sum.splits)

lemma port_forward_group_result:
  assumes "port_forward_group ans namespace release kind index ps forwards allocations w = (r, w')"
    and "process_wf w" "PortForwardProcess ` set forwards \<subseteq> pw_held w"
  shows "process_wf w' \<and> (case r of
      Inl e \<Rightarrow> pw_held w' = pw_held w - PortForwardProcess ` set forwards
    | Inr (fs, as) \<Rightarrow> (\<exists>new. fs = forwards @ new \<and> length new = 2 * length ps \<and> distinct new \<and>
        pw_held w' = pw_held w \<union> PortForwardProcess ` set new \<and> PortForwardProcess ` set new \<inter> pw_held w = {}) \<and> length as = length allocations + length ps)"
  using assms
proof (induction ps arbitrary: index forwards allocations w)
  case (Cons p ps)
  let ?service = "release @ ''-'' @ kind @ ''-'' @ show_nat index"
  obtain r1 w1 where api: "port_forward_service (ans index False) namespace ?service (ncp_api p) w = (r1, w1)"
    by (cases "port_forward_service (ans index False) namespace ?service (ncp_api p) w")
  show ?case
  proof (cases r1)
    case (Inl e)
    with port_forward_service_Err [OF api [unfolded Inl] Cons.prems(2)] api Cons.prems show ?thesis
      by (auto simp: Let_def process_wf_def)
  next
    case (Inr q1)
    obtain lp1 pid1 where q1: "q1 = (lp1, pid1)" by (cases q1)
    note ok1 = port_forward_service_Ok [OF api [unfolded Inr q1] Cons.prems(2)]
    obtain r2 w2 where testing: "port_forward_service (ans index True) namespace ?service (ncp_testing p) w1 = (r2, w2)"
      by (cases "port_forward_service (ans index True) namespace ?service (ncp_testing p) w1")
    show ?thesis
    proof (cases r2)
      case e: (Inl e)
      from port_forward_service_Err [OF testing [unfolded e] ok1(4)] ok1 api testing Inr q1 e Cons.prems show ?thesis
        by (auto simp: Let_def process_wf_def)
    next
      case ok: (Inr q2)
      obtain lp2 pid2 where q2: "q2 = (lp2, pid2)" by (cases q2)
      note ok2 = port_forward_service_Ok [OF testing [unfolded ok q2] ok1(4)]
      let ?forwards = "forwards @ [pid1, pid2]" and ?allocations = "allocations @ [\<lparr>npa_api = lp1, npa_testing = lp2\<rparr>]"
      have run: "port_forward_group ans namespace release kind (Suc index) ps ?forwards ?allocations w2 = (r, w')"
        using Cons.prems(1) api testing Inr ok q1 q2 by (simp add: Let_def)
      have pids: "pw_held w2 = pw_held w \<union> {PortForwardProcess pid1, PortForwardProcess pid2}" "pid1 \<noteq> pid2" "{PortForwardProcess pid1, PortForwardProcess pid2} \<inter> pw_held w = {}"
        using ok1 ok2 by auto
      have "PortForwardProcess ` set ?forwards \<subseteq> pw_held w2" using pids Cons.prems(3) by auto
      from Cons.IH [OF run ok2(4) this] have IH: "process_wf w'" "case r of
          Inl e \<Rightarrow> pw_held w' = pw_held w2 - PortForwardProcess ` set ?forwards
        | Inr (fs, as) \<Rightarrow> (\<exists>new. fs = ?forwards @ new \<and> length new = 2 * length ps \<and> distinct new \<and>
            pw_held w' = pw_held w2 \<union> PortForwardProcess ` set new \<and> PortForwardProcess ` set new \<inter> pw_held w2 = {}) \<and> length as = length ?allocations + length ps"
        by simp_all
      show ?thesis
      proof (cases r)
        case (Inl e)
        with IH pids show ?thesis by auto
      next
        case r: (Inr fa)
        obtain fs as where fa: "fa = (fs, as)" by (cases fa)
        from IH(2) r fa obtain new where new: "fs = ?forwards @ new" "length new = 2 * length ps" "distinct new"
          "pw_held w' = pw_held w2 \<union> PortForwardProcess ` set new" "PortForwardProcess ` set new \<inter> pw_held w2 = {}" "length as = length ?allocations + length ps" by auto
        have "fs = forwards @ [pid1, pid2] @ new \<and> length ([pid1, pid2] @ new) = 2 * length (p # ps) \<and> distinct ([pid1, pid2] @ new) \<and>
          pw_held w' = pw_held w \<union> PortForwardProcess ` set ([pid1, pid2] @ new) \<and> PortForwardProcess ` set ([pid1, pid2] @ new) \<inter> pw_held w = {}"
          using new pids by auto
        with IH(1) r fa new(6) show ?thesis by auto
      qed
    qed
  qed
qed auto

definition answered :: "env \<Rightarrow> cluster_answers \<Rightarrow> probe_net \<Rightarrow> string \<Rightarrow> duration \<Rightarrow> node_port_allocation list \<Rightarrow> bool" where
  "answered ev ca net host limit as \<longleftrightarrow>
     (\<forall>i < length as. \<exists>m. reached limit (http_poll_interval ev) (net i (probe_url (ca_info_path ca) host (npa_api (as ! i)))) m)"

lemma wait_for_node_http_cases:
  assumes "timeouts_fit ev" "picks_one (ca_first_err ca)"
  obtains (ok) "wait_for_node_http_on_host ev ca net (map npa_api as) role host limit = Some (Ok ())" "answered ev ca net host limit as"
    | (err) e where "wait_for_node_http_on_host ev ca net (map npa_api as) role host limit = Some (Err e)"
proof -
  have "0 < http_poll_interval ev" using assms(1) by (simp add: timeouts_fit_def)
  from this assms(2) show thesis
  proof (cases rule: http_wait_outcome [where info_path = "ca_info_path ca" and net = net and ports = "map npa_api as" and
        role = role and host = host and limit = limit])
    case ok
    then show thesis by (intro that(1)) (simp_all add: wait_for_node_http_on_host_def answered_def)
  next
    case (err i)
    then show thesis by (intro that(2)) (simp add: wait_for_node_http_on_host_def)
  qed
qed

text \<open>
  What waiting for the cluster achieves: either the nodes answer on their node ports and no process
  was started, or each of them answers through a forward of its own, or nothing is left running.
\<close>

definition cluster_outcome ::
  "env \<Rightarrow> cluster_answers \<Rightarrow> node_config_ports list \<Rightarrow> process_world \<Rightarrow> cluster_wait_error + cluster_ready \<Rightarrow> process_world \<Rightarrow> bool" where
  "cluster_outcome ev ca ps w r w' \<longleftrightarrow> process_wf w' \<and>
     (case r of
        Inl e \<Rightarrow> pw_held w' = pw_held w
      | Inr c \<Rightarrow> (let as = cp_nodes (crd_ports c); host = cp_node_host (crd_ports c); fs = crd_port_forwards c in
          ps \<noteq> [] \<and> length as = length ps \<and> pw_held w' = pw_held w \<union> PortForwardProcess ` set fs \<and> PortForwardProcess ` set fs \<inter> pw_held w = {} \<and>
          (fs = [] \<and> host = node_host ev \<and> answered ev ca (ca_node_net ca) host (node_http_probe_timeout ev) as \<and>
             (\<forall>i < length ps. node_discovered ev ca i (ps ! i) (as ! i)) \<or>
           length fs = 2 * length ps \<and> distinct fs \<and> host = ''127.0.0.1'' \<and>
             answered ev ca (ca_forward_net ca) host (node_http_timeout ev) as)))"

lemma forward_nodes_outcome:
  assumes "timeouts_fit ev" "picks_one (ca_first_err ca)" "process_wf w" "ps \<noteq> []"
  shows "\<exists>r w'. forward_nodes ev ca namespace release ps w = (Some r, w') \<and> cluster_outcome ev ca ps w r w'"
proof (cases "ca_task_error ca")
  case (Some e)
  with assms(3) show ?thesis by (simp add: forward_nodes_def cluster_outcome_def)
next
  case None
  obtain r1 w1 where g: "port_forward_group (ca_forward ca) namespace release ''node'' 0 ps [] [] w = (r1, w1)"
    by (cases "port_forward_group (ca_forward ca) namespace release ''node'' 0 ps [] [] w")
  note res = port_forward_group_result [OF g assms(3)]
  show ?thesis
  proof (cases r1)
    case (Inl e)
    with None g res show ?thesis by (simp add: forward_nodes_def cluster_outcome_def)
  next
    case (Inr fa)
    obtain fs as where fa: "fa = (fs, as)" by (cases fa)
    from res Inr fa have fs: "process_wf w1" "length fs = 2 * length ps" "distinct fs"
      "pw_held w1 = pw_held w \<union> PortForwardProcess ` set fs" "PortForwardProcess ` set fs \<inter> pw_held w = {}" "length as = length ps" by auto
    from assms(1,2) show ?thesis
    proof (cases rule: wait_for_node_http_cases [where net = "ca_forward_net ca" and as = as and role = node_role and
          host = "''127.0.0.1''" and limit = "node_http_timeout ev"])
      case ok
      with None g Inr fa fs assms(4) show ?thesis
        by (simp add: forward_nodes_def cluster_outcome_def wait_for_node_http_port_forward_def)
    next
      case (err e)
      with fs have "cluster_outcome ev ca ps w (Err e) (kill_port_forwards fs w1)"
        by (auto simp: cluster_outcome_def process_wf_def)
      with err None g Inr fa show ?thesis
        by (simp add: forward_nodes_def wait_for_node_http_port_forward_def)
    qed
  qed
qed

lemma wait_for_cluster_ready_outcome:
  assumes "timeouts_fit ev" "picks_one (ca_first_err ca)" "process_wf w"
  shows "\<exists>r w'. wait_for_cluster_ready ev ca namespace release ps w = (Some r, w') \<and> cluster_outcome ev ca ps w r w'"
proof (cases "ps = []")
  case True
  with assms(3) show ?thesis by (simp add: wait_for_cluster_ready_def cluster_outcome_def)
next
  case False
  obtain r1 where r1: "discover_nodes ev ca namespace release 0 ps = Some r1"
    "\<forall>as. r1 = Ok as \<longrightarrow> length as = length ps \<and> (\<forall>i < length ps. node_discovered ev ca i (ps ! i) (as ! i))"
    using discover_nodes_result [OF assms(1), of ca namespace release 0 ps] by auto
  show ?thesis
  proof (cases r1)
    case (Inl e)
    with False r1 assms(3) show ?thesis by (simp add: wait_for_cluster_ready_def cluster_outcome_def)
  next
    case (Inr as)
    from assms(1,2) show ?thesis
    proof (cases rule: wait_for_node_http_cases [where net = "ca_node_net ca" and as = as and role = node_role and
          host = "node_host ev" and limit = "node_http_probe_timeout ev"])
      case ok
      with False r1 Inr assms(3) show ?thesis
        by (simp add: wait_for_cluster_ready_def cluster_outcome_def wait_for_node_http_nodeport_def)
    next
      case (err e)
      with False r1 Inr forward_nodes_outcome [OF assms False] show ?thesis
        by (simp add: wait_for_cluster_ready_def wait_for_node_http_nodeport_def)
    qed
  qed
qed

section \<open>Properties\<close>

text \<open>
  Property C15.  Waiting for a cluster always returns, provided the poll interval is positive and the
  deployment timeout leaves room for one more interval.  If it reports the cluster ready, there is
  one port pair per node, and either every deployment was seen ready, the ports are the node ports
  its service exposes, every node answered on them and no process was started; or every node
  answered through a pair of forwarding processes of its own, which are running and are the only
  ones started that still run.  If it reports an error, no forwarding process it started is left.
\<close>

theorem cluster_wait_no_stray_forwards:
  assumes "timeouts_fit ev" "picks_one (ca_first_err ca)" "process_wf w"
  shows "\<exists>r w'. wait_for_cluster_ready ev ca namespace release ps w = (Some r, w') \<and> process_wf w' \<and>
    (case r of
       Inl e \<Rightarrow> pw_held w' = pw_held w
     | Inr c \<Rightarrow> (let as = cp_nodes (crd_ports c); host = cp_node_host (crd_ports c); fs = crd_port_forwards c in
         ps \<noteq> [] \<and> length as = length ps \<and> pw_held w' = pw_held w \<union> PortForwardProcess ` set fs \<and>
         PortForwardProcess ` set fs \<inter> pw_held w = {} \<and>
         (fs = [] \<and> host = node_host ev \<and> answered ev ca (ca_node_net ca) host (node_http_probe_timeout ev) as \<and>
            (\<forall>i < length ps. node_discovered ev ca i (ps ! i) (as ! i)) \<or>
          length fs = 2 * length ps \<and> distinct fs \<and> host = ''127.0.0.1'' \<and>
            answered ev ca (ca_forward_net ca) host (node_http_timeout ev) as)))"
  using wait_for_cluster_ready_outcome [OF assms, of namespace release ps] by (simp add: cluster_outcome_def)

definition demo_answers :: cluster_answers where
  "demo_answers =
     \<lparr>ca_deployment = (\<lambda>_ _. Ok \<lparr>ds_replicas = Some 1, ds_ready_replicas = Some 1\<rparr>),
      ca_service = (\<lambda>_ testing _. Ok (Some [(18080, Some 30080), (18081, Some 30081)])),
      ca_node_net = (\<lambda>_ _ k. (0, True)),
      ca_forward = (\<lambda>i testing. \<lparr>fa_local_port = Ok 40000, fa_spawn = (\<lambda>_. Ok ()), fa_exit = (\<lambda>_. None), fa_connect = (\<lambda>_. True)\<rparr>),
      ca_task_error = None, ca_forward_net = (\<lambda>_ _ k. (0, True)), ca_first_err = hd, ca_info_path = ''/cryptarchia/info''\<rparr>"

lemma demo_timeouts: "timeouts_fit Map.empty"
  by (simp add: timeouts_fit_def deployment_timeout_def env_duration_secs_def default_k8s_deployment_timeout_def
      http_poll_interval_def default_http_poll_interval_def deployment_poll_interval_def duration_defs)

theorem cluster_wait_no_stray_forwards_witness:
  "\<exists>r w'. wait_for_cluster_ready Map.empty demo_answers ''ns'' ''rel'' [\<lparr>ncp_api = 18080, ncp_testing = 18081\<rparr>]
       \<lparr>pw_started = 0, pw_log = []\<rparr> = (Some r, w') \<and> (\<forall>e. r = Err e \<longrightarrow> pw_held w' = {})"
  using cluster_wait_no_stray_forwards [of Map.empty demo_answers "\<lparr>pw_started = 0, pw_log = []\<rparr>" "''ns''" "''rel''"
      "[\<lparr>ncp_api = 18080, ncp_testing = 18081\<rparr>]"] demo_timeouts
  by (fastforce simp: picks_one_def demo_answers_def process_wf_def)

end
