(* ===== verification/Container_Hosts.thy ===== *)
theory Container_Hosts
  imports Cfgsync_Server Scenario_Dsl
begin

text \<open>
  What the container deployers have in common: the settings of the cfgsync server that follow from
  the topology (\<^verbatim>\<open>core/src/scenario/cfgsync.rs\<close>) and the environment variables through which a container
  tells the server which node it is.  The locale states what such an environment has to contain; the
  kubernetes and the compose deployer interpret it on the environments they write.
\<close>

section \<open>Paths\<close>

text \<open>A path is its text.\<close>

text \<open>\<^verbatim>\<open>Path::join\<close> with a relative path.\<close>

definition path_join :: "string \<Rightarrow> string \<Rightarrow> string" where
  "path_join p q = (if p = [] then q else if last p = CHR ''/'' then p @ q else p @ ''/'' @ q)"

definition path_of :: "string list \<Rightarrow> string" where
  "path_of components = ''/'' @ join ''/'' components"

definition path_parent :: "string list \<Rightarrow> string list option" where
  "path_parent components = (if components = [] then None else Some (butlast components))"

definition default_assets_stack_dir :: string where "default_assets_stack_dir = ''testing-framework/assets/stack''"

section \<open>Addresses of nodes\<close>

definition host_url :: "string \<Rightarrow> u16 \<Rightarrow> string" where
  "host_url host port = ''http://'' @ host @ '':'' @ show_nat (unat port) @ ''/''"

text \<open>An API client is the pair of its base and testing address.\<close>

type_synonym api_urls = "url \<times> url option"

section \<open>What the topology sets in the configuration of the server\<close>

text \<open>The serializable copy of the configuration has the same fields and is the record itself.\<close>

definition apply_topology_overrides :: "generated_topology \<Rightarrow> cfgsync_config \<Rightarrow> cfgsync_config" where
  "apply_topology_overrides t cfg =
     cfg\<lparr>cs_n_hosts := length (gt_nodes t),
         cs_security_param := cp_security_param (tc_consensus_params (gt_config t)),
         cs_active_slot_coeff := cp_active_slot_coeff (tc_consensus_params (gt_config t)),
         cs_wallet := tc_wallet_config (gt_config t),
         cs_ids := Some (map gn_id (gt_nodes t)),
         cs_blend_ports := Some (map gn_blend_port (gt_nodes t))\<rparr>"

definition port_text :: "u16 \<Rightarrow> string" where
  "port_text p = show_nat (unat p)"

section \<open>Registration of the containers\<close>

text \<open>
  The host the server registers for a container with the given environment, and the host of node \<open>i\<close>
  at a given address.
\<close>

definition announced_host :: "env \<Rightarrow> host" where
  "announced_host ev = node_config_host (client_payload ev)"

definition expected_host :: "generated_topology \<Rightarrow> (nat \<Rightarrow> u8 list) \<Rightarrow> nat \<Rightarrow> host" where
  "expected_host t ip i = \<lparr>h_kind = HostNode, h_ip = ip i, h_identifier = ''node-'' @ show_nat i,
       h_network_port = network_port (gt_nodes t ! i), h_blend_port = gn_blend_port (gt_nodes t ! i),
       h_api_port = api_port (gt_nodes t ! i), h_testing_http_port = testing_http_port (gt_nodes t ! i)\<rparr>"

text \<open>A configuration of the server that agrees with the topology.\<close>

definition configured_from :: "generated_topology \<Rightarrow> cfgsync_config \<Rightarrow> bool" where
  "configured_from t cfg \<longleftrightarrow> cs_n_hosts cfg = length (gt_nodes t) \<and> cs_ids cfg = Some (map gn_id (gt_nodes t)) \<and>
     cs_blend_ports cfg = Some (map gn_blend_port (gt_nodes t)) \<and> cs_wallet cfg = tc_wallet_config (gt_config t) \<and>
     to_consensus_params cfg = (tc_consensus_params (gt_config t))\<lparr>cp_n_participants := length (gt_nodes t)\<rparr>"

lemma env_port_text: "ev name = Some (port_text p) \<Longrightarrow> env_port ev name = Some p"
  by (simp add: env_port_def port_text_def parse_show_nat port_bound)

lemma expected_host_key:
  assumes "i < n" "n \<le> u64_max"
  shows "host_key (expected_host t ip i) = (0, i)"
proof -
  have "last_segment (CHR ''-'') (''node'' @ CHR ''-'' # show_nat i) = show_nat i"
    by (rule last_segment_append) (use show_nat_chars in blast)
  then have "last_segment (CHR ''-'') (''node-'' @ show_nat i) = show_nat i" by simp
  with assms show ?thesis by (simp add: expected_host_def host_key_def parse_show_nat)
qed

lemma sort_expected_hosts:
  assumes "n \<le> u64_max" "mset order = mset (map (expected_host t ip) [0..<n])"
  shows "sort_hosts order = map (expected_host t ip) [0..<n]"
proof -
  let ?hs = "map (expected_host t ip) [0..<n]"
  have "map host_key ?hs = map (Pair 0) [0..<n]" using assms(1) by (simp add: expected_host_key)
  then have "sorted (map host_key ?hs)" by (simp add: sorted_iff_nth_mono less_eq_prod_def)
  moreover have "inj_on host_key (set order)"
    unfolding mset_eq_setD [OF assms(2)] using assms(1) by (auto intro!: inj_onI simp: expected_host_key)
  ultimately show ?thesis unfolding sort_hosts_def by (intro sort_key_inj_key_eq [OF assms(2)])
qed

locale container_hosts =
  fixes client_env :: "'c \<Rightarrow> generated_topology \<Rightarrow> (nat \<Rightarrow> string) \<Rightarrow> nat \<Rightarrow> env"
  assumes announces: "i < length (gt_nodes t) \<Longrightarrow>
      client_env c t ips i ''CFG_HOST_IP'' = Some (ips i) \<and>
      client_env c t ips i ''CFG_HOST_IDENTIFIER'' = Some (''node-'' @ show_nat i) \<and>
      client_env c t ips i ''CFG_NETWORK_PORT'' = Some (port_text (network_port (gt_nodes t ! i))) \<and>
      client_env c t ips i ''CFG_BLEND_PORT'' = Some (port_text (gn_blend_port (gt_nodes t ! i))) \<and>
      client_env c t ips i ''CFG_API_PORT'' = Some (port_text (api_port (gt_nodes t ! i))) \<and>
      client_env c t ips i ''CFG_TESTING_HTTP_PORT'' = Some (port_text (testing_http_port (gt_nodes t ! i)))"
begin

lemma announces_expected:
  assumes "i < length (gt_nodes t)" "length (ip i) = 4"
  shows "announced_host (client_env c t (\<lambda>i. show_ipv4 (ip i)) i) = expected_host t ip i"
  using announces [OF assms(1), of c "\<lambda>i. show_ipv4 (ip i)"] assms(2)
  by (simp add: announced_host_def expected_host_def node_config_host_def client_payload_def port_overrides_of_def
      node_from_ip_def from_parts_def env_port_text parse_ip_def parse_show_ipv4)

lemma hosts_in_order:
  assumes "length (gt_nodes t) \<le> u64_max" "\<forall>i. length (ip i) = 4"
    and "mset order = mset (map (\<lambda>i. announced_host (client_env c t (\<lambda>i. show_ipv4 (ip i)) i)) [0..<length (gt_nodes t)])"
  shows "sort_hosts order = map (expected_host t ip) [0..<length (gt_nodes t)]" "distinct (sort_hosts order)"
proof -
  have "mset order = mset (map (expected_host t ip) [0..<length (gt_nodes t)])"
    unfolding assms(3) using assms(2) by (intro arg_cong [of _ _ mset] map_cong refl announces_expected) auto
  with assms(1) show eq: "sort_hosts order = map (expected_host t ip) [0..<length (gt_nodes t)]" by (rule sort_expected_hosts)
  have "inj_on (expected_host t ip) {0..<length (gt_nodes t)}" by (auto intro!: inj_onI simp: expected_host_def)
  then show "distinct (sort_hosts order)" by (simp add: eq distinct_map)
qed

lemma configs_from_topology:
  assumes "0 < length (gt_nodes t)" "length (gt_nodes t) \<le> u64_max" "\<forall>i. length (ip i) = 4"
    and "mset order = mset (map (\<lambda>i. announced_host (client_env c t (\<lambda>i. show_ipv4 (ip i)) i)) [0..<length (gt_nodes t)])"
    and cfg: "configured_from t cfg"
  shows "try_create_node_configs d ev' clock (to_consensus_params cfg) tracing (cs_wallet cfg) (cs_ids cfg) (cs_blend_ports cfg) order s =
      bind_os (map_err_os NcbBase (build_base_configs d ev' (map gn_id (gt_nodes t))
          ((tc_consensus_params (gt_config t))\<lparr>cp_n_participants := length (gt_nodes t)\<rparr>) network_params_default
          (tc_wallet_config (gt_config t)) (map gn_blend_port (gt_nodes t))))
        (\<lambda>base s2. (finish_hosts d ev' clock tracing (sort_hosts order) (map gn_id (gt_nodes t)) base s2, s2)) s"
proof -
  have len: "length order = length (gt_nodes t)" using arg_cong [OF hosts_in_order(1) [OF assms(2-4)], of length] by simp
  obtain ids' s1 where v: "generate_ids (length (gt_nodes t)) (Some (map gn_id (gt_nodes t))) s = (ids', s1)"
    "try_create_node_configs d ev' clock (to_consensus_params cfg) tracing (cs_wallet cfg) (cs_ids cfg) (cs_blend_ports cfg) order s =
       bind_os (map_err_os NcbBase (build_base_configs d ev' ids' (to_consensus_params cfg) network_params_default (cs_wallet cfg)
            (resolve_blend_ports (sort_hosts order) (cs_blend_ports cfg))))
          (\<lambda>base s2. (finish_hosts d ev' clock tracing (sort_hosts order) ids' base s2, s2)) s1"
    by (rule try_create_validated [of order "to_consensus_params cfg" "cs_ids cfg" "cs_blend_ports cfg" s d ev' clock tracing "cs_wallet cfg"])
      (use len assms(1) cfg in \<open>simp_all add: configured_from_def vector_fits_def\<close>)
  show ?thesis
    using v(1) cfg unfolding v(2) by (simp add: generate_ids_def configured_from_def resolve_blend_ports_def)
qed

end

end
