(* ===== verification/K8s_Assets.thy ===== *)
theory K8s_Assets
  imports Container_Hosts
begin

text \<open>
  What the kubernetes deployer hands to the helm chart (\<^verbatim>\<open>deployers/k8s/src/infrastructure/assets.rs\<close>):
  the chart values, the configuration of the cfgsync server rendered from a template and the
  topology (\<^verbatim>\<open>core/src/scenario/cfgsync.rs\<close>), and the paths of scripts and chart.

  The file system and the YAML writer are arguments.  A path is its text.
\<close>

section \<open>Configuration of the cfgsync server\<close>

definition cfgsync_k8s_timeout_secs :: u64 where "cfgsync_k8s_timeout_secs = 300"

definition k8s_cfgsync_config :: "generated_topology \<Rightarrow> url option \<Rightarrow> cfgsync_config \<Rightarrow> cfgsync_config" where
  "k8s_cfgsync_config t metrics_otlp_ingest_url template =
     (let c1 = apply_topology_overrides t template;
          c2 = (case metrics_otlp_ingest_url of
                  None \<Rightarrow> c1
                | Some endpoint \<Rightarrow> c1\<lparr>cs_tracing_settings := (cs_tracing_settings c1)\<lparr>ts_metrics := OtlpMetrics endpoint ''node''\<rparr>\<rparr>)
      in c2\<lparr>cs_timeout := max (cs_timeout c2) cfgsync_k8s_timeout_secs\<rparr>)"

section \<open>Chart values\<close>

record node_values =
  nv_api_port :: u16
  nv_testing_http_port :: u16
  nv_env :: env

record node_group =
  ng_count :: nat
  ng_nodes :: "node_values list"

record helm_values =
  hv_image_pull_policy :: string
  hv_cfgsync_port :: nat
  hv_nodes :: node_group

definition pol_proof_mode :: "env \<Rightarrow> string" where
  "pol_proof_mode ev = unwrap_or (pol_proof_dev_mode ev) ''true''"

definition build_node_values :: "string \<Rightarrow> nat \<Rightarrow> generated_node_config \<Rightarrow> string \<Rightarrow> node_values" where
  "build_node_values kind index node pol_mode =
     \<lparr>nv_api_port = api_port node, nv_testing_http_port = testing_http_port node,
      nv_env = Map.empty
        (''POL_PROOF_DEV_MODE'' \<mapsto> pol_mode,
         ''CFG_NETWORK_PORT'' \<mapsto> port_text (network_port node),
         ''CFG_BLEND_PORT'' \<mapsto> port_text (gn_blend_port node),
         ''CFG_API_PORT'' \<mapsto> port_text (api_port node),
         ''CFG_TESTING_HTTP_PORT'' \<mapsto> port_text (testing_http_port node),
         ''CFG_HOST_KIND'' \<mapsto> kind,
         ''CFG_HOST_IDENTIFIER'' \<mapsto> kind @ ''-'' @ show_nat index)\<rparr>"

definition build_node_group :: "string \<Rightarrow> generated_node_config list \<Rightarrow> string \<Rightarrow> node_group" where
  "build_node_group kind nodes pol_mode =
     \<lparr>ng_count = length nodes,
      ng_nodes = map (\<lambda>(index, node). build_node_values kind index node pol_mode) (enumerate 0 nodes)\<rparr>"

definition build_values :: "env \<Rightarrow> generated_topology \<Rightarrow> helm_values" where
  "build_values ev t =
     \<lparr>hv_image_pull_policy = unwrap_or (nomos_testnet_image_pull_policy ev) ''IfNotPresent'',
      hv_cfgsync_port = cfgsync_port ev,
      hv_nodes = build_node_group ''node'' (gt_nodes t) (pol_proof_mode ev)\<rparr>"

section \<open>Preparing the assets\<close>

datatype assets_error =
  AeWorkspaceRoot string
| AeCfgsync string
| AeMissingScript string
| AeMissingChart string
| AeTempDir string
| AeIo string string
| AeValues string

record runner_assets =
  ra_image :: string
  ra_chart_path :: string
  ra_cfgsync_file :: string
  ra_run_cfgsync_script :: string
  ra_run_nomos_script :: string
  ra_run_nomos_node_script :: string
  ra_values_file :: string

text \<open>The file system as the deployer sees it; the manifest directory is fixed at compile time.\<close>

record asset_fs =
  fs_manifest_dir :: "string list"
  fs_exists :: "string \<Rightarrow> bool"
  fs_tempdir :: "string + string"
  fs_load_template :: "string \<Rightarrow> string + cfgsync_config"
  fs_cfgsync_yaml :: "cfgsync_config \<Rightarrow> string + string"
  fs_values_yaml :: "helm_values \<Rightarrow> string + string"
  fs_write :: "string \<Rightarrow> string \<Rightarrow> string + unit"

definition workspace_root :: "env \<Rightarrow> asset_fs \<Rightarrow> string + string" where
  "workspace_root ev fs =
     (case ev ''CARGO_WORKSPACE_DIR'' of
        Some base \<Rightarrow> Ok base
      | None \<Rightarrow> ok_or ''resolving workspace root from manifest dir''
          (map_option path_of
            (Option.bind (path_parent (fs_manifest_dir fs)) (\<lambda>p. Option.bind (path_parent p) path_parent))))"

definition stack_assets_root :: "asset_fs \<Rightarrow> string \<Rightarrow> string" where
  "stack_assets_root fs base =
     (let new_layout = path_join base default_assets_stack_dir
      in if fs_exists fs new_layout then new_layout else path_join base ''testnet'')"

definition stack_scripts_root :: "asset_fs \<Rightarrow> string \<Rightarrow> string" where
  "stack_scripts_root fs base =
     (let new_layout = path_join (path_join base default_assets_stack_dir) ''scripts''
      in if fs_exists fs new_layout then new_layout else path_join base ''testnet/scripts'')"

definition render_cfgsync_config ::
  "asset_fs \<Rightarrow> string \<Rightarrow> generated_topology \<Rightarrow> url option \<Rightarrow> assets_error + string" where
  "render_cfgsync_config fs base t metrics_otlp_ingest_url =
     and_then (map_err AeCfgsync (fs_load_template fs (path_join (stack_assets_root fs base) ''cfgsync.yaml''))) (\<lambda>template.
       map_err AeCfgsync (fs_cfgsync_yaml fs (k8s_cfgsync_config t metrics_otlp_ingest_url template)))"

definition write_temp_file :: "asset_fs \<Rightarrow> string \<Rightarrow> string \<Rightarrow> string \<Rightarrow> assets_error + string" where
  "write_temp_file fs dir name contents =
     (let path = path_join dir name
      in and_then (map_err (AeIo path) (fs_write fs path contents)) (\<lambda>_. Ok path))"

definition render_and_write_cfgsync ::
  "asset_fs \<Rightarrow> string \<Rightarrow> generated_topology \<Rightarrow> url option \<Rightarrow> string \<Rightarrow> assets_error + string" where
  "render_and_write_cfgsync fs base t metrics_otlp_ingest_url tempdir =
     and_then (render_cfgsync_config fs base t metrics_otlp_ingest_url) (write_temp_file fs tempdir ''cfgsync.yaml'')"

definition render_values_yaml :: "env \<Rightarrow> asset_fs \<Rightarrow> generated_topology \<Rightarrow> assets_error + string" where
  "render_values_yaml ev fs t = map_err AeValues (fs_values_yaml fs (build_values ev t))"

definition render_and_write_values :: "env \<Rightarrow> asset_fs \<Rightarrow> generated_topology \<Rightarrow> string \<Rightarrow> assets_error + string" where
  "render_and_write_values ev fs t tempdir =
     and_then (render_values_yaml ev fs t) (write_temp_file fs tempdir ''values.yaml'')"

record script_paths =
  sp_run_cfgsync :: string
  sp_run_shared :: string
  sp_run_node :: string

definition validate_scripts :: "asset_fs \<Rightarrow> string \<Rightarrow> assets_error + script_paths" where
  "validate_scripts fs base =
     (let dir = stack_scripts_root fs base;
          run_cfgsync = path_join dir ''run_cfgsync.sh'';
          run_shared = path_join dir ''run_nomos.sh'';
          run_node = path_join dir ''run_nomos_node.sh''
      in case find (\<lambda>p. \<not> fs_exists fs p) [run_cfgsync, run_shared, run_node] of
           Some p \<Rightarrow> Err (AeMissingScript p)
         | None \<Rightarrow> Ok \<lparr>sp_run_cfgsync = run_cfgsync, sp_run_shared = run_shared, sp_run_node = run_node\<rparr>)"

definition helm_chart_path :: "asset_fs \<Rightarrow> assets_error + string" where
  "helm_chart_path fs =
     (let path = path_join (path_of (fs_manifest_dir fs)) ''helm/nomos-runner''
      in if fs_exists fs path then Ok path else Err (AeMissingChart path))"

definition testnet_image :: "env \<Rightarrow> string" where
  "testnet_image ev = unwrap_or (nomos_testnet_image ev) ''public.ecr.aws/r4s5t9y4/logos/logos-blockchain:test''"

definition prepare_assets ::
  "env \<Rightarrow> asset_fs \<Rightarrow> generated_topology \<Rightarrow> url option \<Rightarrow> assets_error + runner_assets" where
  "prepare_assets ev fs t metrics_otlp_ingest_url =
     and_then (map_err AeWorkspaceRoot (workspace_root ev fs)) (\<lambda>base.
     and_then (map_err AeTempDir (fs_tempdir fs)) (\<lambda>tempdir.
     and_then (render_and_write_cfgsync fs base t metrics_otlp_ingest_url tempdir) (\<lambda>cfgsync_file.
     and_then (validate_scripts fs base) (\<lambda>scripts.
     and_then (helm_chart_path fs) (\<lambda>chart_path.
     and_then (render_and_write_values ev fs t tempdir) (\<lambda>values_file.
       Ok \<lparr>ra_image = testnet_image ev, ra_chart_path = chart_path, ra_cfgsync_file = cfgsync_file,
           ra_run_cfgsync_script = sp_run_cfgsync scripts, ra_run_nomos_script = sp_run_shared scripts,
           ra_run_nomos_node_script = sp_run_node scripts, ra_values_file = values_file\<rparr>))))))"

section \<open>Containers and the cfgsync server\<close>

text \<open>
  The environment of the container of node \<open>i\<close>: the chart passes the values on, and the start script
  adds the address of the container.
\<close>

definition container_env :: "env \<Rightarrow> generated_topology \<Rightarrow> (nat \<Rightarrow> string) \<Rightarrow> nat \<Rightarrow> env" where
  "container_env ev t ips i = (nv_env (ng_nodes (hv_nodes (build_values ev t)) ! i))(''CFG_HOST_IP'' \<mapsto> ips i)"

lemma prepare_assets_Ok:
  assumes "prepare_assets ev fs t otlp = Ok assets"
  obtains template cfg_yaml values_yaml where
    "fs_cfgsync_yaml fs (k8s_cfgsync_config t otlp template) = Ok cfg_yaml" "fs_write fs (ra_cfgsync_file assets) cfg_yaml = Ok ()"
    "fs_values_yaml fs (build_values ev t) = Ok values_yaml" "fs_write fs (ra_values_file assets) values_yaml = Ok ()"
    "fs_exists fs (ra_run_cfgsync_script assets)" "fs_exists fs (ra_run_nomos_script assets)"
    "fs_exists fs (ra_run_nomos_node_script assets)" "fs_exists fs (ra_chart_path assets)"
  using assms
  by (auto simp: prepare_assets_def render_and_write_cfgsync_def render_cfgsync_config_def render_and_write_values_def
      render_values_yaml_def write_temp_file_def validate_scripts_def helm_chart_path_def result_iffs Let_def
      split: if_splits option.splits)

lemma k8s_cfgsync_config_from: "configured_from t (k8s_cfgsync_config t otlp template)"
  by (simp add: k8s_cfgsync_config_def configured_from_def apply_topology_overrides_def to_consensus_params_def Let_def split: option.split)

lemma k8s_cfgsync_wait: "300 \<le> unat (cs_timeout (k8s_cfgsync_config t otlp template))"
proof -
  have "cfgsync_k8s_timeout_secs \<le> cs_timeout (k8s_cfgsync_config t otlp template)" by (simp add: k8s_cfgsync_config_def Let_def)
  then show ?thesis by (simp add: cfgsync_k8s_timeout_secs_def word_le_nat_alt)
qed

interpretation k8s_containers: container_hosts container_env
  by standard (simp add: container_env_def build_values_def build_node_group_def nth_enumerate_eq build_node_values_def)

section \<open>Properties\<close>

text \<open>
  Property C17.  When the assets of a topology are prepared, all referenced files exist, and the
  container of each node announces to the cfgsync server the identifier, ports and address of that
  node.  In whatever order the containers register, the server sorts them into the order of the
  topology, its checks pass, and it builds the base configurations from the node identifiers,
  consensus parameters, wallet and blend ports of the topology, waiting at least 300 seconds for the
  hosts.  The network layout is the default one, not that of the topology.
\<close>

theorem k8s_hosts_match_topology:
  assumes "prepare_assets ev fs t otlp = Ok assets" "0 < length (gt_nodes t)" "length (gt_nodes t) \<le> u64_max"
    and "\<forall>i. length (ip i) = 4"
    and "mset order = mset (map (\<lambda>i. announced_host (container_env ev t (\<lambda>i. show_ipv4 (ip i)) i)) [0..<length (gt_nodes t)])"
  shows "\<exists>template yaml. let cfg = k8s_cfgsync_config t otlp template; hosts = sort_hosts order; n = length (gt_nodes t) in
    fs_cfgsync_yaml fs cfg = Ok yaml \<and> fs_write fs (ra_cfgsync_file assets) yaml = Ok () \<and>
    fs_exists fs (ra_chart_path assets) \<and> fs_exists fs (ra_run_nomos_node_script assets) \<and>
    300 \<le> unat (cs_timeout cfg) \<and> distinct hosts \<and>
    hosts = map (\<lambda>i. \<lparr>h_kind = HostNode, h_ip = ip i, h_identifier = ''node-'' @ show_nat i,
       h_network_port = network_port (gt_nodes t ! i), h_blend_port = gn_blend_port (gt_nodes t ! i),
       h_api_port = api_port (gt_nodes t ! i), h_testing_http_port = testing_http_port (gt_nodes t ! i)\<rparr>) [0..<n] \<and>
    try_create_node_configs d ev' clock (to_consensus_params cfg) tracing (cs_wallet cfg) (cs_ids cfg) (cs_blend_ports cfg) order s =
      bind_os (map_err_os NcbBase (build_base_configs d ev' (map gn_id (gt_nodes t))
          ((tc_consensus_params (gt_config t))\<lparr>cp_n_participants := n\<rparr>) network_params_default
          (tc_wallet_config (gt_config t)) (map gn_blend_port (gt_nodes t))))
        (\<lambda>base s2. (finish_hosts d ev' clock tracing hosts (map gn_id (gt_nodes t)) base s2, s2)) s"
proof -
  obtain template yaml where f: "fs_cfgsync_yaml fs (k8s_cfgsync_config t otlp template) = Ok yaml"
    "fs_write fs (ra_cfgsync_file assets) yaml = Ok ()" "fs_exists fs (ra_chart_path assets)" "fs_exists fs (ra_run_nomos_node_script assets)"
    using assms(1) by (rule prepare_assets_Ok)
  note hosts = k8s_containers.hosts_in_order [OF assms(3-5)]
  show ?thesis
    unfolding Let_def
    by (intro exI [of _ template] exI [of _ yaml] conjI f k8s_cfgsync_wait hosts(2) hosts(1) [unfolded expected_host_def]
        k8s_containers.configs_from_topology [OF assms(2-5) k8s_cfgsync_config_from])
qed

definition demo_fs :: asset_fs where
  "demo_fs = \<lparr>fs_manifest_dir = [''work'', ''testing-framework'', ''deployers'', ''k8s''], fs_exists = (\<lambda>_. True),
     fs_tempdir = Ok ''/tmp/nomos-helm'', fs_load_template = (\<lambda>_. Ok demo_cfgsync), fs_cfgsync_yaml = (\<lambda>_. Ok ''cfg''),
     fs_values_yaml = (\<lambda>_. Ok ''values''), fs_write = (\<lambda>_ _. Ok ())\<rparr>"

lemma demo_assets: "\<exists>assets. prepare_assets Map.empty demo_fs t otlp = Ok assets"
  by (simp add: prepare_assets_def demo_fs_def workspace_root_def path_parent_def render_and_write_cfgsync_def
      render_cfgsync_config_def write_temp_file_def validate_scripts_def helm_chart_path_def render_and_write_values_def
      render_values_yaml_def Let_def)

theorem k8s_hosts_match_topology_witness:
  "\<exists>t s assets. build demo_deps Map.empty demo_builder demo_os = (Ok t, s) \<and> prepare_assets Map.empty demo_fs t None = Ok assets \<and>
     h_identifier (sort_hosts [announced_host (container_env Map.empty t (\<lambda>i. ''10.0.0.9'') 1), announced_host (container_env Map.empty t (\<lambda>i. ''10.0.0.9'') 0)] ! 1) = ''node-1''"
proof -
  obtain t s where t: "build demo_deps Map.empty demo_builder demo_os = (Ok t, s)"
    using build_is_ok [of demo_deps demo_os demo_builder Map.empty] by (auto simp: vector_fits_def demo_ids_def)
  have n: "length (gt_nodes t) = 2" using t by (rule build_Ok) simp
  obtain assets where a: "prepare_assets Map.empty demo_fs t None = Ok assets" using demo_assets by blast
  let ?host = "\<lambda>i. announced_host (container_env Map.empty t (\<lambda>i. ''10.0.0.9'') i)"
  have ip: "show_ipv4 [10, 0, 0, 9] = ''10.0.0.9''" by code_simp
  have "mset [?host 1, ?host 0] = mset (map (\<lambda>i. announced_host (container_env Map.empty t (\<lambda>i. show_ipv4 [10, 0, 0, 9]) i)) [0..<length (gt_nodes t)])"
    unfolding ip n by (simp add: upt_rec)
  from k8s_hosts_match_topology [OF a _ _ _ this, of demo_deps Map.empty "\<lambda>_. 0" undefined s] n
  have "h_identifier (sort_hosts [?host 1, ?host 0] ! 1) = ''node-'' @ show_nat 1" by (auto simp: Let_def)
  moreover have "show_nat 1 = ''1''" by code_simp
  ultimately show ?thesis using t a by auto
qed

end
