(* ===== verification/Observability.thy ===== *)
theory Observability
  imports Scenario_Dsl
begin

text \<open>
  Observability settings of a deployment (\<^verbatim>\<open>core/src/scenario/observability.rs\<close>) and the telemetry
  handle (\<^verbatim>\<open>core/src/scenario/runtime/metrics.rs\<close>).  The URL parser and the metrics client are
  arguments; a query is answered by the function the client stands for.
\<close>

section \<open>Telemetry\<close>

datatype metrics_error = MetricsStore string

type_synonym labels = "string \<Rightarrow> string option"

record instant_sample =
  is_labels :: labels
  is_timestamp :: f64
  is_value :: f64

text \<open>The three shapes of a query result: labelled samples, labelled ranges, one sample.\<close>

datatype prometheus_data =
  PromVector "(labels \<times> f64 \<times> f64) list"
| PromMatrix "(labels \<times> (f64 \<times> f64) list) list"
| PromScalar f64 f64

text \<open>An endpoint: its address and what the thread that runs a query comes back with.\<close>

datatype query_outcome = QueryPanicked | QueryNoRuntime string | QueryFailed string | QueryData prometheus_data

record prometheus_endpoint =
  pe_base_url :: url
  pe_query :: "string \<Rightarrow> query_outcome"

record metrics =
  mt_prometheus :: "prometheus_endpoint option"

definition metrics_empty :: metrics where
  "metrics_empty = \<lparr>mt_prometheus = None\<rparr>"

text \<open>\<open>client\<close> is the constructor of the metrics client.\<close>

type_synonym metrics_client = "url \<Rightarrow> string + (string \<Rightarrow> query_outcome)"

definition prometheus_endpoint_new :: "metrics_client \<Rightarrow> url \<Rightarrow> metrics_error + prometheus_endpoint" where
  "prometheus_endpoint_new client base_url =
     and_then (map_err (\<lambda>e. MetricsStore (''failed to create prometheus client: '' @ e)) (client base_url)) (\<lambda>query.
       Ok \<lparr>pe_base_url = base_url, pe_query = query\<rparr>)"

definition with_prometheus_endpoint :: "prometheus_endpoint \<Rightarrow> metrics \<Rightarrow> metrics" where
  "with_prometheus_endpoint handle m = m\<lparr>mt_prometheus := Some handle\<rparr>"

definition from_prometheus :: "metrics_client \<Rightarrow> url \<Rightarrow> metrics_error + metrics" where
  "from_prometheus client u =
     and_then (prometheus_endpoint_new client u) (\<lambda>handle. Ok (with_prometheus_endpoint handle metrics_empty))"

definition from_prometheus_str :: "(string \<Rightarrow> string + url) \<Rightarrow> metrics_client \<Rightarrow> string \<Rightarrow> metrics_error + metrics" where
  "from_prometheus_str parse_url client raw_url =
     and_then (map_err (\<lambda>e. MetricsStore (''invalid prometheus url: '' @ e)) (parse_url raw_url)) (from_prometheus client)"

definition is_configured :: "metrics \<Rightarrow> bool" where
  "is_configured m = (mt_prometheus m \<noteq> None)"

definition samples_of :: "prometheus_data \<Rightarrow> instant_sample list" where
  "samples_of data =
     (case data of
        PromVector vs \<Rightarrow> map (\<lambda>(l, t, v). \<lparr>is_labels = l, is_timestamp = t, is_value = v\<rparr>) vs
      | PromMatrix rs \<Rightarrow>
          concat (map (\<lambda>(l, ss). map (\<lambda>(t, v). \<lparr>is_labels = l, is_timestamp = t, is_value = v\<rparr>) ss) rs)
      | PromScalar t v \<Rightarrow> [\<lparr>is_labels = Map.empty, is_timestamp = t, is_value = v\<rparr>])"

definition instant_samples :: "prometheus_endpoint \<Rightarrow> string \<Rightarrow> metrics_error + instant_sample list" where
  "instant_samples ep query =
     (case pe_query ep query of
        QueryPanicked \<Rightarrow> Err (MetricsStore ''prometheus query thread panicked'')
      | QueryNoRuntime e \<Rightarrow> Err (MetricsStore (''failed to create runtime: '' @ e))
      | QueryFailed e \<Rightarrow> Err (MetricsStore (''prometheus query failed: '' @ e))
      | QueryData data \<Rightarrow> Ok (samples_of data))"

definition f64_sum :: "f64 list \<Rightarrow> f64" where
  "f64_sum xs = foldl f64_add (Fin 0) xs"

definition endpoint_instant_values :: "prometheus_endpoint \<Rightarrow> string \<Rightarrow> metrics_error + f64 list" where
  "endpoint_instant_values ep query = and_then (instant_samples ep query) (\<lambda>ss. Ok (map is_value ss))"

definition endpoint_counter_value :: "prometheus_endpoint \<Rightarrow> string \<Rightarrow> metrics_error + f64" where
  "endpoint_counter_value ep query = and_then (endpoint_instant_values ep query) (\<lambda>vs. Ok (f64_sum vs))"

definition prometheus_handle :: "metrics \<Rightarrow> metrics_error + prometheus_endpoint" where
  "prometheus_handle m = ok_or (MetricsStore ''prometheus endpoint unavailable'') (mt_prometheus m)"

definition instant_values :: "metrics \<Rightarrow> string \<Rightarrow> metrics_error + f64 list" where
  "instant_values m query = and_then (prometheus_handle m) (\<lambda>ep. endpoint_instant_values ep query)"

definition counter_value :: "metrics \<Rightarrow> string \<Rightarrow> metrics_error + f64" where
  "counter_value m query = and_then (prometheus_handle m) (\<lambda>ep. endpoint_counter_value ep query)"

definition consensus_processed_blocks :: "metrics \<Rightarrow> metrics_error + f64" where
  "consensus_processed_blocks m = counter_value m ''consensus_processed_blocks''"

definition transactions_node_query :: string where
  "transactions_node_query = ''sum(consensus_transactions_total{job=~'' @ [CHR 0x22] @ ''node-.*'' @ [CHR 0x22] @ ''})''"

definition transactions_total :: string where
  "transactions_total = ''consensus_transactions_total''"

definition consensus_transactions_total :: "metrics \<Rightarrow> metrics_error + f64" where
  "consensus_transactions_total m =
     and_then (prometheus_handle m) (\<lambda>ep.
       case instant_samples ep transactions_node_query of
         Inr (s # ss) \<Rightarrow> Ok (f64_sum (map is_value (s # ss)))
       | _ \<Rightarrow> endpoint_counter_value ep transactions_total)"

section \<open>Settings\<close>

record observability_inputs =
  oi_metrics_query_url :: "url option"
  oi_metrics_otlp_ingest_url :: "url option"
  oi_grafana_url :: "url option"

definition observability_inputs_default :: observability_inputs where
  "observability_inputs_default = \<lparr>oi_metrics_query_url = None, oi_metrics_otlp_ingest_url = None, oi_grafana_url = None\<rparr>"

definition from_capability :: "observability_capability \<Rightarrow> observability_inputs" where
  "from_capability c =
     \<lparr>oi_metrics_query_url = oc_metrics_query_url c, oi_metrics_otlp_ingest_url = oc_metrics_otlp_ingest_url c,
      oi_grafana_url = oc_grafana_url c\<rparr>"

fun read_url_var :: "(string \<Rightarrow> string + url) \<Rightarrow> env \<Rightarrow> string list \<Rightarrow> metrics_error + url option" where
  "read_url_var parse_url ev [] = Ok None"
| "read_url_var parse_url ev (key # keys) =
     (case ev key of
        None \<Rightarrow> read_url_var parse_url ev keys
      | Some raw \<Rightarrow>
          if trim raw = [] then read_url_var parse_url ev keys
          else map_err (\<lambda>e. MetricsStore (''invalid '' @ key @ '': '' @ e)) (and_then (parse_url (trim raw)) (\<lambda>u. Ok (Some u))))"

definition from_env :: "(string \<Rightarrow> string + url) \<Rightarrow> env \<Rightarrow> metrics_error + observability_inputs" where
  "from_env parse_url ev =
     and_then (read_url_var parse_url ev [''LOGOS_BLOCKCHAIN_METRICS_QUERY_URL'']) (\<lambda>q.
     and_then (read_url_var parse_url ev [''LOGOS_BLOCKCHAIN_METRICS_OTLP_INGEST_URL'']) (\<lambda>i.
     and_then (read_url_var parse_url ev [''LOGOS_BLOCKCHAIN_GRAFANA_URL'']) (\<lambda>g.
       Ok \<lparr>oi_metrics_query_url = q, oi_metrics_otlp_ingest_url = i, oi_grafana_url = g\<rparr>)))"

definition with_overrides :: "observability_inputs \<Rightarrow> observability_inputs \<Rightarrow> observability_inputs" where
  "with_overrides o1 overrides =
     (let o2 = (if oi_metrics_query_url overrides \<noteq> None then o1\<lparr>oi_metrics_query_url := oi_metrics_query_url overrides\<rparr> else o1);
          o3 = (if oi_metrics_otlp_ingest_url overrides \<noteq> None
                then o2\<lparr>oi_metrics_otlp_ingest_url := oi_metrics_otlp_ingest_url overrides\<rparr> else o2)
      in if oi_grafana_url overrides \<noteq> None then o3\<lparr>oi_grafana_url := oi_grafana_url overrides\<rparr> else o3)"

definition telemetry_handle :: "metrics_client \<Rightarrow> observability_inputs \<Rightarrow> metrics_error + metrics" where
  "telemetry_handle client inputs =
     (case oi_metrics_query_url inputs of Some u \<Rightarrow> from_prometheus client u | None \<Rightarrow> Ok metrics_empty)"

text \<open>Both remote deployers resolve their settings this way.\<close>

definition resolve_observability_inputs ::
  "(string \<Rightarrow> string + url) \<Rightarrow> env \<Rightarrow> observability_capability option \<Rightarrow> metrics_error + observability_inputs" where
  "resolve_observability_inputs parse_url ev capability =
     and_then (from_env parse_url ev) (\<lambda>env_inputs.
       Ok (with_overrides env_inputs
         (case capability of None \<Rightarrow> observability_inputs_default | Some c \<Rightarrow> from_capability c)))"

section \<open>Facts\<close>

text \<open>An override wins wherever it is present; the default overrides nothing.\<close>

lemma with_overrides_sel [simp]:
  "oi_metrics_query_url (with_overrides a b) = (case oi_metrics_query_url b of None \<Rightarrow> oi_metrics_query_url a | Some u \<Rightarrow> Some u)"
  "oi_metrics_otlp_ingest_url (with_overrides a b) =
     (case oi_metrics_otlp_ingest_url b of None \<Rightarrow> oi_metrics_otlp_ingest_url a | Some u \<Rightarrow> Some u)"
  "oi_grafana_url (with_overrides a b) = (case oi_grafana_url b of None \<Rightarrow> oi_grafana_url a | Some u \<Rightarrow> Some u)"
  by (auto simp: with_overrides_def Let_def split: option.splits)

lemma with_overrides_default [simp]: "with_overrides a observability_inputs_default = a"
  by (simp add: with_overrides_def observability_inputs_default_def)

lemma with_overrides_assoc: "with_overrides (with_overrides a b) c = with_overrides a (with_overrides b c)"
  by (rule observability_inputs.equality) (simp_all split: option.splits)

lemma read_one_url_var:
  "read_url_var parse_url ev [key] =
     (case ev key of
        None \<Rightarrow> Ok None
      | Some raw \<Rightarrow> if trim raw = [] then Ok None
          else (case parse_url (trim raw) of Inl e \<Rightarrow> Err (MetricsStore (''invalid '' @ key @ '': '' @ e)) | Inr u \<Rightarrow> Ok (Some u)))"
  by (auto split: option.splits sum.splits)

text \<open>What a setting resolves to: the scenario's own value, else a non-blank environment variable.\<close>

definition env_setting :: "(string \<Rightarrow> string + url) \<Rightarrow> env \<Rightarrow> string \<Rightarrow> url option" where
  "env_setting parse_url ev key =
     Option.bind (ev key) (\<lambda>raw. if trim raw = [] then None
       else (case parse_url (trim raw) of Inl _ \<Rightarrow> None | Inr u \<Rightarrow> Some u))"

lemma read_one_url_var_Ok: "read_url_var parse_url ev [key] = Ok u \<Longrightarrow> u = env_setting parse_url ev key"
  unfolding read_one_url_var by (auto simp: env_setting_def split: option.splits if_splits sum.splits)

section \<open>Properties\<close>

text \<open>
  A setting of the scenario takes precedence over the environment, field by field, and
  blank variables count as absent.  The telemetry handle has an endpoint exactly if a query address
  is set, and every query on a handle without endpoint fails.  The transaction total is the sum of
  the samples of the node query if that yields any, and otherwise, also when that query fails, the
  sum of the aggregate counter.
\<close>

theorem telemetry_follows_settings:
  assumes "resolve_observability_inputs parse_url ev (Some c) = Ok inputs" "telemetry_handle client inputs = Ok m"
  shows "oi_metrics_query_url inputs = (case oc_metrics_query_url c of
           None \<Rightarrow> env_setting parse_url ev ''LOGOS_BLOCKCHAIN_METRICS_QUERY_URL'' | Some u \<Rightarrow> Some u) \<and>
    oi_metrics_otlp_ingest_url inputs = (case oc_metrics_otlp_ingest_url c of
           None \<Rightarrow> env_setting parse_url ev ''LOGOS_BLOCKCHAIN_METRICS_OTLP_INGEST_URL'' | Some u \<Rightarrow> Some u) \<and>
    oi_grafana_url inputs = (case oc_grafana_url c of
           None \<Rightarrow> env_setting parse_url ev ''LOGOS_BLOCKCHAIN_GRAFANA_URL'' | Some u \<Rightarrow> Some u) \<and>
    (is_configured m \<longleftrightarrow> oi_metrics_query_url inputs \<noteq> None) \<and>
    (\<not> is_configured m \<longrightarrow> counter_value m q = Err (MetricsStore ''prometheus endpoint unavailable'') \<and>
       consensus_transactions_total m = Err (MetricsStore ''prometheus endpoint unavailable'')) \<and>
    (\<forall>ep. mt_prometheus m = Some ep \<longrightarrow> consensus_transactions_total m =
       (if \<exists>ss. instant_samples ep transactions_node_query = Ok ss \<and> ss \<noteq> []
        then endpoint_counter_value ep transactions_node_query else endpoint_counter_value ep transactions_total))"
proof -
  obtain e where e: "from_env parse_url ev = Ok e" "inputs = with_overrides e (from_capability c)"
    using assms(1) by (auto simp: resolve_observability_inputs_def result_iffs)
  have "oi_metrics_query_url e = env_setting parse_url ev ''LOGOS_BLOCKCHAIN_METRICS_QUERY_URL''"
    "oi_metrics_otlp_ingest_url e = env_setting parse_url ev ''LOGOS_BLOCKCHAIN_METRICS_OTLP_INGEST_URL''"
    "oi_grafana_url e = env_setting parse_url ev ''LOGOS_BLOCKCHAIN_GRAFANA_URL''"
    using e(1) by (auto simp: from_env_def result_iffs simp del: read_url_var.simps dest!: read_one_url_var_Ok)
  moreover have "is_configured m \<longleftrightarrow> oi_metrics_query_url inputs \<noteq> None"
    using assms(2) by (auto simp: telemetry_handle_def from_prometheus_def with_prometheus_endpoint_def is_configured_def
        metrics_empty_def result_iffs split: option.splits)
  moreover have "consensus_transactions_total m =
       (if \<exists>ss. instant_samples ep transactions_node_query = Ok ss \<and> ss \<noteq> []
        then endpoint_counter_value ep transactions_node_query else endpoint_counter_value ep transactions_total)"
    if "mt_prometheus m = Some ep" for ep
    using that by (auto simp: consensus_transactions_total_def prometheus_handle_def endpoint_counter_value_def
        endpoint_instant_values_def split: sum.splits list.splits)
  ultimately show ?thesis
    by (auto simp: e(2) from_capability_def is_configured_def counter_value_def consensus_transactions_total_def prometheus_handle_def
        split: option.splits)
qed

theorem telemetry_follows_settings_witness:
  "\<exists>inputs m. resolve_observability_inputs Ok [''LOGOS_BLOCKCHAIN_METRICS_QUERY_URL'' \<mapsto> '' http://p/ '', ''LOGOS_BLOCKCHAIN_GRAFANA_URL'' \<mapsto> ''http://g/'']
      (Some (observability_none\<lparr>oc_grafana_url := Some ''http://h/''\<rparr>)) = Ok inputs \<and>
     telemetry_handle (\<lambda>_. Ok (\<lambda>_. QueryPanicked)) inputs = Ok m \<and>
     oi_metrics_query_url inputs = Some ''http://p/'' \<and> oi_grafana_url inputs = Some ''http://h/'' \<and> is_configured m"
proof -
  let ?ev = "[''LOGOS_BLOCKCHAIN_METRICS_QUERY_URL'' \<mapsto> '' http://p/ '', ''LOGOS_BLOCKCHAIN_GRAFANA_URL'' \<mapsto> ''http://g/'']"
  let ?c = "observability_none\<lparr>oc_grafana_url := Some ''http://h/''\<rparr>"
  have t: "trim '' http://p/ '' = ''http://p/''" "trim ''http://g/'' = ''http://g/''" by code_simp+
  obtain inputs where i: "resolve_observability_inputs Ok ?ev (Some ?c) = Ok inputs"
    by (simp add: resolve_observability_inputs_def from_env_def t)
  obtain m where m: "telemetry_handle (\<lambda>_. Ok (\<lambda>_. QueryPanicked)) inputs = Ok m"
    by (cases "oi_metrics_query_url inputs")
      (auto simp: telemetry_handle_def from_prometheus_def prometheus_endpoint_new_def)
  from telemetry_follows_settings [OF i m, of "[]"] i m show ?thesis
    by (auto simp: observability_none_def env_setting_def t)
qed

end
