(* ===== verification/K8s_Deploy.thy ===== *)
theory K8s_Deploy
  imports K8s_Wait K8s_Assets Observability Block_Feed
begin

text \<open>
  The kubernetes deployer: the helm commands (\<^verbatim>\<open>infrastructure/helm.rs\<close>), tearing a release down
  (\<^verbatim>\<open>lifecycle/cleanup.rs\<close>), the environment of a deployed stack (\<^verbatim>\<open>infrastructure/cluster.rs\<close>) and the
  phases of a deployment (\<^verbatim>\<open>deployer/orchestrator.rs\<close>), all under \<^verbatim>\<open>deployers/k8s/src\<close>.

  Everything the deployment acquires outside the program is recorded in the log: the release, its
  namespace, forwarding processes and the block feed task.  Values that go out of scope run their
  destructor where the code has one: a forward handle stops its process, a clean-up guard does not
  clean up.
\<close>

section \<open>Helm\<close>

record helm_output =
  ho_success :: bool
  ho_status :: "int option"
  ho_stdout :: string
  ho_stderr :: string

datatype helm_error =
  HelmSpawn string string
| HelmFailed string "int option" string string

definition run_helm_command :: "string + helm_output \<Rightarrow> string \<Rightarrow> helm_error + helm_output" where
  "run_helm_command outcome command =
     and_then (map_err (HelmSpawn command) outcome) (\<lambda>output.
       if ho_success output then Ok output
       else Err (HelmFailed command (ho_status output) (ho_stdout output) (ho_stderr output)))"

definition build_install_command :: "env \<Rightarrow> runner_assets \<Rightarrow> string \<Rightarrow> string \<Rightarrow> nat \<Rightarrow> string list" where
  "build_install_command ev assets release namespace nodes =
     [''install'', release, ra_chart_path assets, ''--namespace'', namespace, ''--create-namespace'', ''--wait'',
      ''--timeout'', ''5m'', ''--set'', ''image='' @ ra_image assets, ''--set'', ''nodes.count='' @ show_nat nodes,
      ''--set'', ''cfgsync.port='' @ show_nat (cfgsync_port ev), ''-f'', ra_values_file assets,
      ''--set-file'', ''cfgsync.config='' @ ra_cfgsync_file assets,
      ''--set-file'', ''scripts.runCfgsyncSh='' @ ra_run_cfgsync_script assets,
      ''--set-file'', ''scripts.runNomosNodeSh='' @ ra_run_nomos_node_script assets,
      ''--set-file'', ''scripts.runNomosSh='' @ ra_run_nomos_script assets]"

text \<open>
  What helm does with a command: the outcome it reports, and whether the release and its namespace
  exist in the cluster afterwards, which a failing installation may leave behind.
\<close>

type_synonym helm = "string list \<Rightarrow> (string + helm_output) \<times> bool"

definition install_release ::
  "env \<Rightarrow> helm \<Rightarrow> runner_assets \<Rightarrow> string \<Rightarrow> string \<Rightarrow> nat \<Rightarrow> process_world \<Rightarrow> (helm_error + unit) \<times> process_world" where
  "install_release ev helm assets release namespace nodes w =
     (case helm (build_install_command ev assets release namespace nodes) of
        (outcome, exists) \<Rightarrow>
          (and_then (run_helm_command outcome (''helm install '' @ release)) (\<lambda>_. Ok ()),
           if exists then w\<lparr>pw_log := pw_log w @ [Acquire (HelmRelease namespace release), Acquire (Namespace namespace)]\<rparr> else w))"

section \<open>Tearing down\<close>

definition cleanup_timeout :: duration where "cleanup_timeout = from_secs 120"
definition namespace_delete_timeout :: duration where "namespace_delete_timeout = from_secs 10"
definition namespace_poll_interval :: duration where "namespace_poll_interval = from_secs 1"
definition namespace_poll_attempts :: nat where "namespace_poll_attempts = 60"

record runner_cleanup =
  rcl_namespace :: string
  rcl_release :: string
  rcl_preserve :: bool

text \<open>The constructor asserts that both names are given.\<close>

definition runner_cleanup_new :: "string \<Rightarrow> string \<Rightarrow> bool \<Rightarrow> runner_cleanup option" where
  "runner_cleanup_new namespace release preserve =
     (if namespace \<noteq> [] \<and> release \<noteq> []
      then Some \<lparr>rcl_namespace = namespace, rcl_release = release, rcl_preserve = preserve\<rparr> else None)"

text \<open>
  How long the steps of one pass take and how they end: the uninstall command, the deletion request
  to the API and to the command line tool, and the polls for the namespace.
\<close>

record pass_answers =
  pa_uninstall :: duration
  pa_api :: "duration \<times> bool"
  pa_cli :: "duration \<times> bool"
  pa_polls :: "nat \<Rightarrow> duration \<times> bool"

fun wait_for_namespace_termination :: "(nat \<Rightarrow> duration \<times> bool) \<Rightarrow> nat \<Rightarrow> nat \<Rightarrow> duration" where
  "wait_for_namespace_termination ans k 0 = 0"
| "wait_for_namespace_termination ans k (Suc n) =
     (case ans k of (d, gone) \<Rightarrow>
        if gone then d else d + namespace_poll_interval + wait_for_namespace_termination ans (Suc k) n)"

definition delete_namespace_via_api :: "pass_answers \<Rightarrow> duration \<times> bool" where
  "delete_namespace_via_api pa =
     (if fst (pa_api pa) \<le> namespace_delete_timeout then pa_api pa else (namespace_delete_timeout, False))"

definition delete_namespace :: "pass_answers \<Rightarrow> duration" where
  "delete_namespace pa =
     (case delete_namespace_via_api pa of (d, accepted) \<Rightarrow>
        d + (if accepted then wait_for_namespace_termination (pa_polls pa) 0 namespace_poll_attempts
             else fst (pa_cli pa) +
               (if snd (pa_cli pa) then wait_for_namespace_termination (pa_polls pa) 0 namespace_poll_attempts else 0)))"

text \<open>
  One pass under the clean-up timeout: the requests it gets to issue, and whether it completes.  The
  deletion of the namespace is first requested when the uninstall command has returned.
\<close>

definition cleanup_pass :: "runner_cleanup \<Rightarrow> pass_answers \<Rightarrow> resource_event list \<times> bool" where
  "cleanup_pass rc pa =
     (if rcl_preserve rc then ([], True)
      else (Release (HelmRelease (rcl_namespace rc) (rcl_release rc)) #
              (if pa_uninstall pa \<le> cleanup_timeout then [Release (Namespace (rcl_namespace rc))] else []),
            pa_uninstall pa + delete_namespace pa \<le> cleanup_timeout))"

record cleanup_answers =
  cl_in_runtime :: bool
  cl_runtime :: bool
  cl_thread :: bool
  cl_thread_runtime :: bool
  cl_blocking_pass :: pass_answers
  cl_thread_pass :: pass_answers

definition blocking_cleanup_success :: "cleanup_answers \<Rightarrow> runner_cleanup \<Rightarrow> resource_event list \<times> bool" where
  "blocking_cleanup_success cl rc = (if cl_runtime cl then cleanup_pass rc (cl_blocking_pass cl) else ([], False))"

definition spawn_cleanup_thread :: "cleanup_answers \<Rightarrow> runner_cleanup \<Rightarrow> resource_event list" where
  "spawn_cleanup_thread cl rc =
     (if cl_thread cl \<and> cl_thread_runtime cl then fst (cleanup_pass rc (cl_thread_pass cl)) else [])"

definition runner_cleanup_run :: "cleanup_answers \<Rightarrow> runner_cleanup \<Rightarrow> resource_event list" where
  "runner_cleanup_run cl rc =
     (if cl_in_runtime cl then spawn_cleanup_thread cl rc
      else (case blocking_cleanup_success cl rc of
              (evs, True) \<Rightarrow> evs
            | (evs, False) \<Rightarrow> evs @ spawn_cleanup_thread cl rc))"

definition run_cleanup_in :: "cleanup_answers \<Rightarrow> runner_cleanup \<Rightarrow> process_world \<Rightarrow> process_world" where
  "run_cleanup_in cl rc w = w\<lparr>pw_log := pw_log w @ runner_cleanup_run cl rc\<rparr>"

section \<open>The environment of a stack\<close>

record cluster_environment =
  ce_namespace :: string
  ce_release :: string
  ce_cleanup :: "runner_cleanup option"
  ce_node_host :: string
  ce_node_api_ports :: "u16 list"
  ce_node_testing_ports :: "u16 list"
  ce_port_forwards :: "nat list"

definition cluster_environment_new ::
  "string \<Rightarrow> string \<Rightarrow> runner_cleanup \<Rightarrow> cluster_ports \<Rightarrow> nat list \<Rightarrow> cluster_environment" where
  "cluster_environment_new namespace release guard ports port_forwards =
     \<lparr>ce_namespace = namespace, ce_release = release, ce_cleanup = Some guard, ce_node_host = cp_node_host ports,
      ce_node_api_ports = map npa_api (cp_nodes ports), ce_node_testing_ports = map npa_testing (cp_nodes ports),
      ce_port_forwards = port_forwards\<rparr>"

text \<open>Logs are collected, the forwards stopped and the guard, if still there, used up.\<close>

definition environment_fail ::
  "cleanup_answers \<Rightarrow> cluster_environment \<Rightarrow> process_world \<Rightarrow> cluster_environment \<times> process_world" where
  "environment_fail cl c w =
     (let w1 = kill_port_forwards (ce_port_forwards c) w
      in (c\<lparr>ce_port_forwards := [], ce_cleanup := None\<rparr>,
          case ce_cleanup c of None \<Rightarrow> w1 | Some guard \<Rightarrow> run_cleanup_in cl guard w1))"

definition environment_drop :: "cluster_environment \<Rightarrow> process_world \<Rightarrow> process_world" where
  "environment_drop c w = kill_port_forwards (ce_port_forwards c) w"

definition into_cleanup :: "cluster_environment \<Rightarrow> (runner_cleanup \<times> nat list) option" where
  "into_cleanup c = map_option (\<lambda>guard. (guard, ce_port_forwards c)) (ce_cleanup c)"

definition collect_port_specs :: "generated_topology \<Rightarrow> node_config_ports list" where
  "collect_port_specs t = map (\<lambda>n. \<lparr>ncp_api = api_port n, ncp_testing = testing_http_port n\<rparr>) (gt_nodes t)"

datatype node_client_error = NodeClientEndpoint string string u16 string

datatype remote_readiness_error =
  ReadinessEndpoint string u16 string
| RemoteReadiness readiness_error

definition cluster_host_url :: "(string \<Rightarrow> string + url) \<Rightarrow> string \<Rightarrow> u16 \<Rightarrow> string + url" where
  "cluster_host_url parse_url host port = parse_url (host_url host port)"

definition api_client_from_ports ::
  "(string \<Rightarrow> string + url) \<Rightarrow> string \<Rightarrow> string \<Rightarrow> u16 \<Rightarrow> u16 \<Rightarrow> node_client_error + api_urls" where
  "api_client_from_ports parse_url host role api testing =
     and_then (map_err (NodeClientEndpoint role ''api'' api) (cluster_host_url parse_url host api)) (\<lambda>b.
     and_then (map_err (NodeClientEndpoint role ''testing'' testing) (cluster_host_url parse_url host testing)) (\<lambda>t.
       Ok (b, Some t)))"

definition build_node_clients :: "(string \<Rightarrow> string + url) \<Rightarrow> cluster_environment \<Rightarrow> node_client_error + api_urls list" where
  "build_node_clients parse_url c =
     collect_results (\<lambda>(api, testing). api_client_from_ports parse_url (ce_node_host c) node_role api testing)
       (zip (ce_node_api_ports c) (ce_node_testing_ports c))"

definition readiness_url :: "(string \<Rightarrow> string + url) \<Rightarrow> string \<Rightarrow> string \<Rightarrow> u16 \<Rightarrow> remote_readiness_error + url" where
  "readiness_url parse_url host role port = map_err (ReadinessEndpoint role port) (cluster_host_url parse_url host port)"

definition readiness_urls :: "(string \<Rightarrow> string + url) \<Rightarrow> u16 list \<Rightarrow> string \<Rightarrow> string \<Rightarrow> remote_readiness_error + url list" where
  "readiness_urls parse_url ports role host = collect_results (readiness_url parse_url host role) ports"

definition ensure_cluster_readiness ::
  "env \<Rightarrow> (string \<Rightarrow> string + url) \<Rightarrow> answers \<Rightarrow> generated_topology \<Rightarrow> cluster_environment \<Rightarrow>
   (remote_readiness_error + unit) option" where
  "ensure_cluster_readiness ev parse_url obs t c =
     (case readiness_urls parse_url (ce_node_api_ports c) node_role (ce_node_host c) of
        Inl e \<Rightarrow> Some (Err e)
      | Inr urls \<Rightarrow> map_option (map_err RemoteReadiness) (wait_remote_readiness ev t urls obs))"

definition cluster_identifiers :: "env \<Rightarrow> string \<Rightarrow> string \<times> string" where
  "cluster_identifiers ev run_id =
     (case ev ''K8S_RUNNER_NAMESPACE'' of
        Some namespace \<Rightarrow>
          if namespace \<noteq> []
          then (namespace, case ev ''K8S_RUNNER_RELEASE'' of
                  Some release \<Rightarrow> if release \<noteq> [] then release else namespace
                | None \<Rightarrow> namespace)
          else (''nomos-k8s-'' @ run_id, ''nomos-k8s-'' @ run_id)
      | None \<Rightarrow> (''nomos-k8s-'' @ run_id, ''nomos-k8s-'' @ run_id))"

section \<open>Phases of a deployment\<close>

datatype k8s_runner_error =
  KeUnsupportedTopology nat
| KeClientInit string
| KeAssets assets_error
| KeHelm helm_error
| KeClusterEnvironment
| KeCluster cluster_wait_error
| KeReadiness remote_readiness_error
| KeNodeClients node_client_error
| KeTelemetry metrics_error
| KeInternalInvariant string
| KeBlockFeedMissing
| KeBlockFeed scan_error

record k8s_inputs =
  ki_env :: env
  ki_topology :: generated_topology
  ki_duration :: duration
  ki_capability :: "observability_capability option"
  ki_readiness_checks :: bool
  ki_parse_url :: "string \<Rightarrow> string + url"
  ki_kube_client :: "string + unit"
  ki_fs :: asset_fs
  ki_run_id :: string
  ki_helm :: helm
  ki_cluster :: cluster_answers
  ki_readiness :: answers
  ki_metrics_client :: metrics_client
  ki_feed :: "api_urls \<Rightarrow> poll"
  ki_cleanup :: cleanup_answers

type_synonym 'a k8s_act = "(process_world, k8s_runner_error, 'a) act"

definition install_stack :: "k8s_inputs \<Rightarrow> runner_assets \<Rightarrow> string \<Rightarrow> string \<Rightarrow> nat \<Rightarrow> runner_cleanup k8s_act" where
  "install_stack i assets namespace release nodes w =
     (case install_release (ki_env i) (ki_helm i) assets release namespace nodes w of
        (Inl e, w1) \<Rightarrow> (Some (Err (KeHelm e)), w1)
      | (Inr _, w1) \<Rightarrow>
          (map_option Ok (runner_cleanup_new namespace release (ki_env i ''K8S_RUNNER_PRESERVE'' \<noteq> None)), w1))"

definition cleanup_pending :: "k8s_inputs \<Rightarrow> runner_cleanup option \<Rightarrow> process_world \<Rightarrow> runner_cleanup option \<times> process_world" where
  "cleanup_pending i guard w =
     (case guard of None \<Rightarrow> (None, w) | Some g \<Rightarrow> (None, run_cleanup_in (ki_cleanup i) g w))"

definition wait_for_ports_or_cleanup ::
  "k8s_inputs \<Rightarrow> string \<Rightarrow> string \<Rightarrow> node_config_ports list \<Rightarrow> runner_cleanup option \<Rightarrow> process_world \<Rightarrow>
   (k8s_runner_error + cluster_ready) option \<times> runner_cleanup option \<times> process_world" where
  "wait_for_ports_or_cleanup i namespace release specs guard w =
     (case wait_for_cluster_ready (ki_env i) (ki_cluster i) namespace release specs w of
        (None, w1) \<Rightarrow> (None, guard, w1)
      | (Some (Inr ready), w1) \<Rightarrow> (Some (Ok ready), guard, w1)
      | (Some (Inl e), w1) \<Rightarrow> (case cleanup_pending i guard w1 of (guard', w2) \<Rightarrow> (Some (Err (KeCluster e)), guard', w2)))"

text \<open>The part of \<^verbatim>\<open>setup_cluster\<close> after the installation.\<close>

definition connect_cluster ::
  "k8s_inputs \<Rightarrow> string \<Rightarrow> string \<Rightarrow> node_config_ports list \<Rightarrow> runner_cleanup \<Rightarrow> cluster_environment k8s_act" where
  "connect_cluster i namespace release specs cleanup_guard w =
     (case wait_for_ports_or_cleanup i namespace release specs (Some cleanup_guard) w of
        (None, _, w1) \<Rightarrow> (None, w1)
      | (Some (Inl e), _, w1) \<Rightarrow> (Some (Err e), w1)
      | (Some (Inr ready), None, w1) \<Rightarrow>
          (Some (Err (KeInternalInvariant ''cleanup guard must exist after successful cluster startup'')),
           kill_port_forwards (crd_port_forwards ready) w1)
      | (Some (Inr ready), Some guard, w1) \<Rightarrow>
          (let c = cluster_environment_new namespace release guard (crd_ports ready) (crd_port_forwards ready) in
           if ki_readiness_checks i
           then (case ensure_cluster_readiness (ki_env i) (ki_parse_url i) (ki_readiness i) (ki_topology i) c of
                   None \<Rightarrow> (None, environment_drop c w1)
                 | Some (Inl e) \<Rightarrow> (Some (Err (KeReadiness e)), environment_drop c w1)
                 | Some (Inr _) \<Rightarrow> (Some (Ok c), w1))
           else (Some (Ok c), w1)))"

definition setup_cluster ::
  "k8s_inputs \<Rightarrow> node_config_ports list \<Rightarrow> observability_inputs \<Rightarrow> cluster_environment k8s_act" where
  "setup_cluster i specs observability =
     bind_act (return_act (map_err KeAssets (prepare_assets (ki_env i) (ki_fs i) (ki_topology i) (oi_metrics_otlp_ingest_url observability))))
       (\<lambda>assets. case cluster_identifiers (ki_env i) (ki_run_id i) of (namespace, release) \<Rightarrow>
     bind_act (install_stack i assets namespace release (length (gt_nodes (ki_topology i))))
       (connect_cluster i namespace release specs))"

text \<open>The three later phases tear the stack down before they report an error.\<close>

definition or_fail :: "k8s_inputs \<Rightarrow> cluster_environment \<Rightarrow> k8s_runner_error + 'a \<Rightarrow> 'a k8s_act" where
  "or_fail i c r w =
     (case r of Inl e \<Rightarrow> (Some (Err e), snd (environment_fail (ki_cleanup i) c w)) | Inr x \<Rightarrow> (Some (Ok x), w))"

definition build_node_clients_or_fail :: "k8s_inputs \<Rightarrow> cluster_environment \<Rightarrow> api_urls list k8s_act" where
  "build_node_clients_or_fail i c = or_fail i c (map_err KeNodeClients (build_node_clients (ki_parse_url i) c))"

definition build_telemetry_or_fail :: "k8s_inputs \<Rightarrow> cluster_environment \<Rightarrow> observability_inputs \<Rightarrow> metrics k8s_act" where
  "build_telemetry_or_fail i c observability =
     or_fail i c (map_err KeTelemetry (telemetry_handle (ki_metrics_client i) observability))"

text \<open>The first client follows the blocks; the random choice behind it is only made when there is none.\<close>

definition spawn_block_feed_with :: "k8s_inputs \<Rightarrow> api_urls list \<Rightarrow> k8s_runner_error + block_scanner" where
  "spawn_block_feed_with i node_clients =
     and_then (ok_or KeBlockFeedMissing (first_of node_clients)) (\<lambda>client.
       map_err KeBlockFeed (spawn_block_feed (ki_feed i client)))"

definition spawn_block_feed_or_fail :: "k8s_inputs \<Rightarrow> cluster_environment \<Rightarrow> api_urls list \<Rightarrow> block_scanner k8s_act" where
  "spawn_block_feed_or_fail i c node_clients =
     bind_act (or_fail i c (spawn_block_feed_with i node_clients)) (\<lambda>feed w.
       (Some (Ok feed), w\<lparr>pw_log := pw_log w @ [Acquire BlockFeedTask]\<rparr>))"

record k8s_cleanup_guard =
  kg_cleanup :: runner_cleanup
  kg_block_feed :: bool
  kg_port_forwards :: "nat list"

definition k8s_guard_cleanup :: "cleanup_answers \<Rightarrow> k8s_cleanup_guard \<Rightarrow> resource_event list" where
  "k8s_guard_cleanup cl g =
     (if kg_block_feed g then [Release BlockFeedTask] else []) @
     map (\<lambda>pid. Release (PortForwardProcess pid)) (kg_port_forwards g) @ runner_cleanup_run cl (kg_cleanup g)"

record deployed_runner =
  dr_runner :: runner
  dr_guard :: k8s_cleanup_guard
  dr_node_clients :: "api_urls list"
  dr_telemetry :: metrics

definition finalize_runner ::
  "k8s_inputs \<Rightarrow> cluster_environment \<Rightarrow> api_urls list \<Rightarrow> metrics \<Rightarrow> deployed_runner k8s_act" where
  "finalize_runner i c node_clients telemetry w =
     (case into_cleanup c of
        None \<Rightarrow> (Some (Err KeClusterEnvironment), environment_drop c w)
      | Some (guard, port_forwards) \<Rightarrow>
          (case run_context_new (ki_topology i) (ki_duration i) False of
             None \<Rightarrow> (None, kill_port_forwards port_forwards w)
           | Some ctx \<Rightarrow>
               (Some (Ok \<lparr>dr_runner = runner_new ctx True,
                  dr_guard = \<lparr>kg_cleanup = guard, kg_block_feed = True, kg_port_forwards = port_forwards\<rparr>,
                  dr_node_clients = node_clients, dr_telemetry = telemetry\<rparr>), w)))"

definition ensure_supported_topology :: "generated_topology \<Rightarrow> k8s_runner_error + unit" where
  "ensure_supported_topology t =
     (let nodes = length (gt_nodes t) in if nodes = 0 then Err (KeUnsupportedTopology nodes) else Ok ())"

definition deploy_with_observability :: "k8s_inputs \<Rightarrow> deployed_runner k8s_act" where
  "deploy_with_observability i =
     bind_act (return_act (map_err KeTelemetry
         (resolve_observability_inputs (ki_parse_url i) (ki_env i) (ki_capability i)))) (\<lambda>observability.
     bind_act (return_act (ensure_supported_topology (ki_topology i))) (\<lambda>_.
     bind_act (return_act (map_err KeClientInit (ki_kube_client i))) (\<lambda>_.
     bind_act (setup_cluster i (collect_port_specs (ki_topology i)) observability) (\<lambda>c.
     bind_act (build_node_clients_or_fail i c) (\<lambda>node_clients.
     bind_act (build_telemetry_or_fail i c observability) (\<lambda>telemetry.
     bind_act (spawn_block_feed_or_fail i c node_clients) (\<lambda>_.
       finalize_runner i c node_clients telemetry)))))))"

definition k8s_deploy :: "k8s_inputs \<Rightarrow> (k8s_runner_error + deployed_runner) option \<times> resource_event list" where
  "k8s_deploy i =
     (case deploy_with_observability i \<lparr>pw_started = 0, pw_log = []\<rparr> of (r, w) \<Rightarrow> (r, pw_log w))"

definition k8s_release :: "k8s_inputs \<Rightarrow> deployed_runner \<Rightarrow> resource_event list" where
  "k8s_release i d = k8s_guard_cleanup (ki_cleanup i) (dr_guard d)"

section \<open>Clean-up\<close>

definition stack_resources :: "runner_cleanup \<Rightarrow> resource set" where
  "stack_resources rc = {HelmRelease (rcl_namespace rc) (rcl_release rc), Namespace (rcl_namespace rc)}"

text \<open>
  Clean-up gets to issue its requests if a runtime for it can be created, on the calling thread or on
  one of its own, and the uninstall command returns within the time limit.
\<close>

definition cleanup_works :: "cleanup_answers \<Rightarrow> bool" where
  "cleanup_works cl \<longleftrightarrow>
     (\<not> cl_in_runtime cl \<and> cl_runtime cl \<and> pa_uninstall (cl_blocking_pass cl) \<le> cleanup_timeout) \<or>
     (cl_thread cl \<and> cl_thread_runtime cl \<and> pa_uninstall (cl_thread_pass cl) \<le> cleanup_timeout)"

lemma fold_cleanup_pass:
  "\<not> rcl_preserve rc \<Longrightarrow> pa_uninstall pa \<le> cleanup_timeout \<Longrightarrow>
     fold apply_event (fst (cleanup_pass rc pa)) S = S - stack_resources rc"
  by (auto simp: cleanup_pass_def stack_resources_def)

lemma fold_cleanup_pass_removes: "fold apply_event (fst (cleanup_pass rc pa)) S - stack_resources rc = S - stack_resources rc"
  by (auto simp: cleanup_pass_def stack_resources_def)

lemma fold_runner_cleanup:
  assumes "cleanup_works cl" "\<not> rcl_preserve rc"
  shows "fold apply_event (runner_cleanup_run cl rc) S = S - stack_resources rc"
proof -
  have finished: "pa_uninstall pa \<le> cleanup_timeout" if "snd (cleanup_pass rc pa)" for pa
    using that assms(2) by (auto simp: cleanup_pass_def)
  have thread: "fold apply_event (spawn_cleanup_thread cl rc) S = S - stack_resources rc"
    if "cl_thread cl" "cl_thread_runtime cl" "pa_uninstall (cl_thread_pass cl) \<le> cleanup_timeout" for S
    using that assms(2) by (simp add: spawn_cleanup_thread_def fold_cleanup_pass)
  have extra: "fold apply_event (spawn_cleanup_thread cl rc) S = S" if "S \<inter> stack_resources rc = {}" for S
    using that by (auto simp: spawn_cleanup_thread_def cleanup_pass_def stack_resources_def)
  obtain evs ok where b: "blocking_cleanup_success cl rc = (evs, ok)" by (cases "blocking_cleanup_success cl rc")
  show ?thesis
  proof (cases "cl_in_runtime cl")
    case True
    with assms(1) thread show ?thesis by (simp add: runner_cleanup_run_def cleanup_works_def)
  next
    case out: False
    show ?thesis
    proof (cases "cl_runtime cl")
      case True
      with b have evs: "evs = fst (cleanup_pass rc (cl_blocking_pass cl))" "ok = snd (cleanup_pass rc (cl_blocking_pass cl))"
        by (simp_all add: blocking_cleanup_success_def split: prod.splits)
      show ?thesis
      proof (cases "pa_uninstall (cl_blocking_pass cl) \<le> cleanup_timeout")
        case True
        then have "fold apply_event evs S = S - stack_resources rc" using assms(2) by (simp add: evs fold_cleanup_pass)
        moreover have "fold apply_event (spawn_cleanup_thread cl rc) (S - stack_resources rc) = S - stack_resources rc"
          by (rule extra) blast
        ultimately show ?thesis using out b by (cases ok) (simp_all add: runner_cleanup_run_def)
      next
        case False
        then have "\<not> ok" using finished evs by blast
        from False assms(1) have "cl_thread cl" "cl_thread_runtime cl" "pa_uninstall (cl_thread_pass cl) \<le> cleanup_timeout"
          by (auto simp: cleanup_works_def)
        note th = thread [OF this, of "fold apply_event evs S"]
        have "runner_cleanup_run cl rc = evs @ spawn_cleanup_thread cl rc"
          using out b \<open>\<not> ok\<close> by (simp add: runner_cleanup_run_def)
        with th show ?thesis by (simp add: evs(1) fold_cleanup_pass_removes)
      qed
    next
      case False
      with out b assms(1) thread show ?thesis
        by (auto simp: runner_cleanup_run_def cleanup_works_def blocking_cleanup_success_def)
    qed
  qed
qed

lemma run_cleanup_in_held:
  "cleanup_works cl \<Longrightarrow> \<not> rcl_preserve rc \<Longrightarrow> pw_held (run_cleanup_in cl rc w) = pw_held w - stack_resources rc"
  by (simp add: run_cleanup_in_def held_append fold_runner_cleanup)

section \<open>Resources over a deployment\<close>

definition k8s_supported :: "k8s_inputs \<Rightarrow> bool" where
  "k8s_supported i \<longleftrightarrow> timeouts_fit (ki_env i) \<and> picks_one (ca_first_err (ki_cluster i)) \<and> cleanup_works (ki_cleanup i) \<and>
     ki_env i ''K8S_RUNNER_PRESERVE'' = None \<and> run_context_new (ki_topology i) (ki_duration i) False \<noteq> None"

fun k8s_leaky :: "k8s_runner_error \<Rightarrow> bool" where
  "k8s_leaky (KeHelm e) = True"
| "k8s_leaky (KeReadiness e) = True"
| "k8s_leaky _ = False"

text \<open>What a failed deployment leaves behind: nothing, unless the error is a leaky one.\<close>

definition deploy_failure :: "k8s_inputs \<Rightarrow> k8s_runner_error \<Rightarrow> resource set \<Rightarrow> bool" where
  "deploy_failure i e S \<longleftrightarrow> (k8s_leaky e \<or> S = {}) \<and>
     (\<forall>e' namespace release. e = KeReadiness e' \<longrightarrow> (\<forall>args. snd (ki_helm i args)) \<longrightarrow>
        cluster_identifiers (ki_env i) (ki_run_id i) = (namespace, release) \<longrightarrow>
        S = {HelmRelease namespace release, Namespace namespace})"

text \<open>A stack is set up: the environment owns everything that is held.\<close>

definition owns :: "cluster_environment \<Rightarrow> resource set \<Rightarrow> bool" where
  "owns c S \<longleftrightarrow> (\<exists>guard. ce_cleanup c = Some guard \<and> \<not> rcl_preserve guard \<and>
     S \<subseteq> stack_resources guard \<union> PortForwardProcess ` set (ce_port_forwards c))"

lemma cluster_identifiers_given:
  "cluster_identifiers ev run_id = (namespace, release) \<Longrightarrow> namespace \<noteq> [] \<and> release \<noteq> []"
  by (auto simp: cluster_identifiers_def split: option.splits if_splits)

lemma ensure_cluster_readiness_returns:
  assumes "length (ce_node_api_ports c) = length (gt_nodes t)"
  shows "\<exists>r. ensure_cluster_readiness ev parse_url obs t c = Some r"
proof (cases "readiness_urls parse_url (ce_node_api_ports c) node_role (ce_node_host c)")
  case (Inr urls)
  then have "length urls = length (gt_nodes t)" using assms by (auto simp: readiness_urls_def dest: collect_results_length)
  with readiness_returns [of urls t ev obs] Inr show ?thesis by (auto simp: ensure_cluster_readiness_def)
qed (simp add: ensure_cluster_readiness_def)

lemma install_stack_result:
  assumes "install_stack i assets namespace release n \<lparr>pw_started = 0, pw_log = []\<rparr> = (r, w)" "namespace \<noteq> []" "release \<noteq> []"
  shows "process_wf w" "pw_held w \<subseteq> {HelmRelease namespace release, Namespace namespace}"
    "(\<forall>args. snd (ki_helm i args)) \<Longrightarrow> pw_held w = {HelmRelease namespace release, Namespace namespace}"
    "(\<exists>e. r = Some (Err (KeHelm e))) \<or>
     r = Some (Ok \<lparr>rcl_namespace = namespace, rcl_release = release, rcl_preserve = ki_env i ''K8S_RUNNER_PRESERVE'' \<noteq> None\<rparr>)"
proof -
  obtain out present where h: "ki_helm i (build_install_command (ki_env i) assets release namespace n) = (out, present)"
    by (cases "ki_helm i (build_install_command (ki_env i) assets release namespace n)")
  then have "(\<forall>args. snd (ki_helm i args)) \<Longrightarrow> present" by (metis snd_conv)
  then show "process_wf w" "pw_held w \<subseteq> {HelmRelease namespace release, Namespace namespace}"
    "(\<forall>args. snd (ki_helm i args)) \<Longrightarrow> pw_held w = {HelmRelease namespace release, Namespace namespace}"
    "(\<exists>e. r = Some (Err (KeHelm e))) \<or>
     r = Some (Ok \<lparr>rcl_namespace = namespace, rcl_release = release, rcl_preserve = ki_env i ''K8S_RUNNER_PRESERVE'' \<noteq> None\<rparr>)"
    using assms by (auto simp: install_stack_def install_release_def runner_cleanup_new_def process_wf_def held_def h
        split: prod.splits sum.splits if_splits)
qed

lemma environment_drop_held [simp]:
  "pw_held (environment_drop c w) = pw_held w - PortForwardProcess ` set (ce_port_forwards c)"
  by (simp add: environment_drop_def)

lemma connect_cluster_result:
  assumes "k8s_supported i" "specs = collect_port_specs (ki_topology i)" "process_wf w"
    and held: "pw_held w \<subseteq> {HelmRelease namespace release, Namespace namespace}"
      "(\<forall>args. snd (ki_helm i args)) \<Longrightarrow> pw_held w = {HelmRelease namespace release, Namespace namespace}"
    and ids: "cluster_identifiers (ki_env i) (ki_run_id i) = (namespace, release)"
    and g: "g = \<lparr>rcl_namespace = namespace, rcl_release = release, rcl_preserve = False\<rparr>"
  shows "ends_in (connect_cluster i namespace release specs g) w (\<lambda>e w. deploy_failure i e (pw_held w)) (\<lambda>c w. owns c (pw_held w))"
proof -
  obtain r w' where wait: "wait_for_cluster_ready (ki_env i) (ki_cluster i) namespace release specs w = (Some r, w')"
    and out: "cluster_outcome (ki_env i) (ki_cluster i) specs w r w'"
    using wait_for_cluster_ready_outcome [of "ki_env i" "ki_cluster i" w namespace release specs] assms(1,3)
    by (auto simp: k8s_supported_def)
  show ?thesis
  proof (cases r)
    case (Inl e)
    then have "pw_held (run_cleanup_in (ki_cleanup i) g w') = {}"
      using run_cleanup_in_held [of "ki_cleanup i" g w'] assms(1) out held(1)
      by (auto simp: k8s_supported_def cluster_outcome_def stack_resources_def g)
    with wait Inl show ?thesis
      by (simp add: ends_in_def connect_cluster_def wait_for_ports_or_cleanup_def cleanup_pending_def deploy_failure_def)
  next
    case (Inr ready)
    let ?c = "cluster_environment_new namespace release g (crd_ports ready) (crd_port_forwards ready)"
    have pf: "pw_held w' = pw_held w \<union> PortForwardProcess ` set (crd_port_forwards ready)"
      and len: "length (ce_node_api_ports ?c) = length (gt_nodes (ki_topology i))"
      using out Inr assms(2) by (auto simp: cluster_outcome_def Let_def cluster_environment_new_def collect_port_specs_def)
    have "owns ?c (pw_held w')"
      using pf held(1) by (auto simp: owns_def cluster_environment_new_def stack_resources_def g)
    moreover have "deploy_failure i (KeReadiness e) (pw_held (environment_drop ?c w'))" for e
      using pf held ids by (auto simp: deploy_failure_def cluster_environment_new_def)
    moreover obtain rd where "ensure_cluster_readiness (ki_env i) (ki_parse_url i) (ki_readiness i) (ki_topology i) ?c = Some rd"
      using ensure_cluster_readiness_returns [OF len] by blast
    ultimately show ?thesis
      using wait Inr by (simp add: ends_in_def connect_cluster_def wait_for_ports_or_cleanup_def Let_def split: sum.split)
  qed
qed

lemma setup_cluster_result:
  assumes "k8s_supported i" "specs = collect_port_specs (ki_topology i)"
  shows "ends_in (setup_cluster i specs obs) \<lparr>pw_started = 0, pw_log = []\<rparr>
    (\<lambda>e w. deploy_failure i e (pw_held w)) (\<lambda>c w. owns c (pw_held w))"
proof -
  obtain namespace release where ids: "cluster_identifiers (ki_env i) (ki_run_id i) = (namespace, release)"
    by (cases "cluster_identifiers (ki_env i) (ki_run_id i)")
  let ?n = "length (gt_nodes (ki_topology i))" and ?w0 = "\<lparr>pw_started = 0, pw_log = []\<rparr>"
  have "ends_in (bind_act (install_stack i assets namespace release ?n) (connect_cluster i namespace release specs)) ?w0
      (\<lambda>e w. deploy_failure i e (pw_held w)) (\<lambda>c w. owns c (pw_held w))" for assets
  proof -
    obtain r w where st: "install_stack i assets namespace release ?n ?w0 = (r, w)" by (cases "install_stack i assets namespace release ?n ?w0")
    note inst = install_stack_result [OF st cluster_identifiers_given [OF ids, THEN conjunct1] cluster_identifiers_given [OF ids, THEN conjunct2]]
    from inst(4) show ?thesis
    proof
      assume "\<exists>e. r = Some (Err (KeHelm e))"
      with st show ?thesis by (auto simp: ends_in_def bind_act_def deploy_failure_def)
    next
      assume "r = Some (Ok \<lparr>rcl_namespace = namespace, rcl_release = release, rcl_preserve = ki_env i ''K8S_RUNNER_PRESERVE'' \<noteq> None\<rparr>)"
      with st connect_cluster_result [OF assms inst(1-3) ids refl] assms(1) show ?thesis
        by (simp add: ends_in_def bind_act_def k8s_supported_def)
    qed
  qed
  then show ?thesis
    unfolding setup_cluster_def ids by (intro ends_in_bind_result) (simp_all add: deploy_failure_def)
qed

lemma environment_fail_held:
  assumes "cleanup_works cl" "owns c (pw_held w)"
  shows "pw_held (snd (environment_fail cl c w)) = {}"
  using assms run_cleanup_in_held [OF assms(1)] by (auto simp: environment_fail_def owns_def Let_def)

lemma ends_in_or_fail:
  assumes "k8s_supported i" "owns c (pw_held w)"
    and "\<And>e w'. r = Err e \<Longrightarrow> pw_held w' = {} \<Longrightarrow> E e w'" "\<And>x. r = Ok x \<Longrightarrow> ends_in (f x) w E Q"
  shows "ends_in (bind_act (or_fail i c r) f) w E Q"
proof (cases r)
  case (Inl e)
  have "pw_held (snd (environment_fail (ki_cleanup i) c w)) = {}"
    using assms(1,2) environment_fail_held by (simp add: k8s_supported_def)
  with Inl assms(3) show ?thesis by (simp add: ends_in_def bind_act_def or_fail_def)
qed (use assms(4) in \<open>simp add: ends_in_def bind_act_def or_fail_def\<close>)

definition k8s_done :: "k8s_inputs \<Rightarrow> deployed_runner \<Rightarrow> process_world \<Rightarrow> bool" where
  "k8s_done i d w \<longleftrightarrow> held (pw_log w @ k8s_release i d) = {} \<and> (\<exists>ctx. dr_runner d = runner_new ctx True)"

lemma finalize_runner_result:
  assumes "k8s_supported i" "owns c (pw_held w)"
  shows "ends_in (finalize_runner i c clients telemetry) (w\<lparr>pw_log := pw_log w @ [Acquire BlockFeedTask]\<rparr>) E (k8s_done i)"
proof -
  obtain guard where g: "ce_cleanup c = Some guard" "\<not> rcl_preserve guard"
    "pw_held w \<subseteq> stack_resources guard \<union> PortForwardProcess ` set (ce_port_forwards c)"
    using assms(2) by (auto simp: owns_def)
  obtain ctx where ctx: "run_context_new (ki_topology i) (ki_duration i) False = Some ctx"
    using assms(1) by (auto simp: k8s_supported_def)
  have "map (\<lambda>pid. Release (PortForwardProcess pid)) ps = map Release (map PortForwardProcess ps)" for ps by simp
  then show ?thesis
    using g fold_runner_cleanup [of "ki_cleanup i" guard] assms(1)
    by (auto simp: ends_in_def k8s_done_def finalize_runner_def into_cleanup_def ctx k8s_release_def k8s_guard_cleanup_def
        held_append fold_release k8s_supported_def simp del: map_map)
qed

lemma ends_in_spawn_feed:
  assumes "k8s_supported i" "owns c (pw_held w)" "\<And>e w'. spawn_block_feed_with i clients = Err e \<Longrightarrow> pw_held w' = {} \<Longrightarrow> E e w'"
    and "\<And>feed. ends_in (f feed) (w\<lparr>pw_log := pw_log w @ [Acquire BlockFeedTask]\<rparr>) E Q"
  shows "ends_in (bind_act (spawn_block_feed_or_fail i c clients) f) w E Q"
proof -
  have "ends_in (spawn_block_feed_or_fail i c clients) w E (\<lambda>_ w'. w' = w\<lparr>pw_log := pw_log w @ [Acquire BlockFeedTask]\<rparr>)"
    unfolding spawn_block_feed_or_fail_def by (intro ends_in_or_fail assms(1-3)) (simp_all add: ends_in_def)
  then show ?thesis by (rule ends_in_bind) (use assms(4) in simp)
qed

lemma k8s_deploy_result:
  assumes "k8s_supported i"
  shows "ends_in (deploy_with_observability i) \<lparr>pw_started = 0, pw_log = []\<rparr> (\<lambda>e w. deploy_failure i e (pw_held w)) (k8s_done i)"
proof -
  have feed: "\<forall>e'. e \<noteq> KeReadiness e'" if "spawn_block_feed_with i clients = Err e" for clients e
    using that by (auto simp: spawn_block_feed_with_def result_iffs)
  show ?thesis
    unfolding deploy_with_observability_def build_node_clients_or_fail_def build_telemetry_or_fail_def
    by (intro ends_in_bind_result ends_in_bind_return ends_in_bind [OF setup_cluster_result [OF assms refl]] ends_in_or_fail
        ends_in_spawn_feed finalize_runner_result assms)
      (auto dest: feed simp: deploy_failure_def result_iffs ensure_supported_topology_def Let_def split: if_splits)
qed

lemma deploy_phases:
  assumes "k8s_supported i"
  obtains (failed) e evs where "k8s_deploy i = (Some (Err e), evs)" "deploy_failure i e (held evs)"
    | (deployed) d evs where "k8s_deploy i = (Some (Ok d), evs)" "held (evs @ k8s_release i d) = {}"
        "\<exists>ctx. dr_runner d = runner_new ctx True"
  using k8s_deploy_result [OF assms]
  by (rule ends_in_cases) (auto simp: k8s_deploy_def k8s_done_def intro: that)

interpretation k8s_deployer: deployer k8s_deploy k8s_release k8s_supported k8s_leaky
proof
  show "fst (k8s_deploy i) \<noteq> None" if "k8s_supported i" for i
    using that by (rule deploy_phases) auto
  show "held (evs @ k8s_release i g) = {}" if "k8s_supported i" "k8s_deploy i = (Some (Ok g), evs)" for i g evs
    using that(1) by (rule deploy_phases) (use that in auto)
  show "held evs = {}" if "k8s_supported i" "k8s_deploy i = (Some (Err e), evs)" "\<not> k8s_leaky e" for i e evs
    using that(1) by (rule deploy_phases) (use that in \<open>auto simp: deploy_failure_def\<close>)
qed

section \<open>Properties\<close>


text \<open>
  A cluster in which every node is up and reachable on its node ports, but no readiness address can
  be formed.
\<close>

definition demo_cluster :: "generated_topology \<Rightarrow> cluster_answers" where
  "demo_cluster t = demo_answers\<lparr>ca_service := \<lambda>i testing _.
     Ok (Some [(int (unat (if testing then testing_http_port (gt_nodes t ! i) else api_port (gt_nodes t ! i))), Some 30000)])\<rparr>"

definition demo_cleanup :: cleanup_answers where
  "demo_cleanup =
     (let pa = \<lparr>pa_uninstall = 0, pa_api = (0, True), pa_cli = (0, True), pa_polls = (\<lambda>_. (0, True))\<rparr>
      in \<lparr>cl_in_runtime = True, cl_runtime = False, cl_thread = True, cl_thread_runtime = True,
          cl_blocking_pass = pa, cl_thread_pass = pa\<rparr>)"

definition demo_inputs :: "generated_topology \<Rightarrow> k8s_inputs" where
  "demo_inputs t =
     \<lparr>ki_env = Map.empty, ki_topology = t, ki_duration = from_secs 60, ki_capability = None, ki_readiness_checks = True,
      ki_parse_url = (\<lambda>_. Err ''invalid''), ki_kube_client = Ok (), ki_fs = demo_fs, ki_run_id = ''1'',
      ki_helm = (\<lambda>_. (Ok \<lparr>ho_success = True, ho_status = Some 0, ho_stdout = [], ho_stderr = []\<rparr>, True)),
      ki_cluster = demo_cluster t, ki_readiness = (\<lambda>_. (0, \<lambda>_. Err ''down'')), ki_metrics_client = (\<lambda>_. Err ''none''),
      ki_feed = (\<lambda>_. (Err ''down'', \<lambda>_. Err ''down'')), ki_cleanup = demo_cleanup\<rparr>"

lemma demo_inputs_sel [simp]:
  "ki_env (demo_inputs t) = Map.empty" "ki_topology (demo_inputs t) = t" "ki_capability (demo_inputs t) = None"
  "ki_readiness_checks (demo_inputs t)" "ki_parse_url (demo_inputs t) = (\<lambda>_. Err ''invalid'')" "ki_kube_client (demo_inputs t) = Ok ()"
  "ki_fs (demo_inputs t) = demo_fs" "ki_run_id (demo_inputs t) = ''1''" "ki_cluster (demo_inputs t) = demo_cluster t"
  "ki_helm (demo_inputs t) args = (Ok \<lparr>ho_success = True, ho_status = Some 0, ho_stdout = [], ho_stderr = []\<rparr>, True)"
  by (simp_all add: demo_inputs_def)

lemma demo_supported:
  assumes "\<forall>d control. run_context_new t d control \<noteq> None"
  shows "k8s_supported (demo_inputs t)"
  using assms demo_timeouts
  by (simp add: k8s_supported_def demo_inputs_def demo_cluster_def demo_answers_def picks_one_def demo_cleanup_def
      cleanup_works_def Let_def del: not_None_eq)


text \<open>
  Property C37.  A deployment that fails its readiness check leaves the installed release and its
  namespace in the cluster, although clean-up is possible and not switched off: the guard is already
  part of the environment, and dropping the environment only stops the forwarding processes.
\<close>

theorem readiness_failure_leaves_stack:
  assumes "k8s_supported i" "\<forall>args. snd (ki_helm i args)" "k8s_deploy i = (Some (Err (KeReadiness e)), evs)"
    and "cluster_identifiers (ki_env i) (ki_run_id i) = (namespace, release)"
  shows "held evs = {HelmRelease namespace release, Namespace namespace}"
  using assms(1) by (rule deploy_phases) (use assms in \<open>auto simp: deploy_failure_def\<close>)

lemma demo_wait:
  assumes "gt_nodes t = [n0, n1]"
  shows "\<exists>ready. wait_for_cluster_ready Map.empty (demo_cluster t) namespace release (collect_port_specs t) w = (Some (Ok ready), w) \<and>
    cp_nodes (crd_ports ready) \<noteq> []"
proof -
  have up: "wait_for_deployment_ready Map.empty (ca_deployment (demo_cluster t) k) namespace name = Some (Ok ())" for k name
    by (simp add: wait_for_deployment_ready_def deployment_loop.simps demo_cluster_def demo_answers_def deployment_is_ready_def)
  have port: "find_node_port (\<lambda>_. Ok (Some [(uint p, Some q)])) name p = Ok (word_of_int q)" for name p q
    by (simp add: find_node_port_def node_port_lookup_attempts_def eval_nat_numeral)
  have discovered: "discover_node_ports (ca_service (demo_cluster t) k) name
      \<lparr>ncp_api = api_port n, ncp_testing = testing_http_port n\<rparr> = Ok \<lparr>npa_api = 30000, npa_testing = 30000\<rparr>"
    if "gt_nodes t ! k = n" for k name n
    using that by (simp add: discover_node_ports_def demo_cluster_def port)
  have "wait_for_node_http_nodeport Map.empty (demo_cluster t) [a, b] node_role = Some (Ok ())" for a b
    by (simp add: wait_for_node_http_nodeport_def wait_for_node_http_on_host_def wait_for_http_ports_with_host_def
        wait_for_single_port_def probe_from.simps demo_cluster_def demo_answers_def try_join_all_def failing_def)
  moreover have "\<exists>a b. discover_nodes Map.empty (demo_cluster t) namespace release 0 (collect_port_specs t) = Some (Ok [a, b])"
    using assms by (simp add: collect_port_specs_def up discovered Let_def)
  ultimately show ?thesis
    using assms by (auto simp: wait_for_cluster_ready_def collect_port_specs_def)
qed

theorem readiness_failure_leaves_stack_witness:
  "\<exists>t s e evs. build demo_deps Map.empty demo_builder demo_os = (Ok t, s) \<and>
     k8s_deploy (demo_inputs t) = (Some (Err (KeReadiness e)), evs) \<and>
     held evs = {HelmRelease ''nomos-k8s-1'' ''nomos-k8s-1'', Namespace ''nomos-k8s-1''}"
proof -
  obtain t s n0 n1 where t: "build demo_deps Map.empty demo_builder demo_os = (Ok t, s)" "gt_nodes t = [n0, n1]"
    "\<forall>d control. run_context_new t d control \<noteq> None" by (rule demo_topology_exists)
  let ?i = "demo_inputs t" and ?w0 = "\<lparr>pw_started = 0, pw_log = []\<rparr>" and ?ns = "''nomos-k8s-1''"
  obtain assets where a: "prepare_assets Map.empty demo_fs t None = Ok assets" using demo_assets by blast
  have ids: "cluster_identifiers (ki_env ?i) (ki_run_id ?i) = (?ns, ?ns)" by (simp add: cluster_identifiers_def)
  obtain g w where st: "install_stack ?i assets ?ns ?ns 2 ?w0 = (Some (Ok g), w)"
    by (simp add: install_stack_def install_release_def run_helm_command_def runner_cleanup_new_def)
  obtain ready p ps where wait: "wait_for_cluster_ready Map.empty (demo_cluster t) ?ns ?ns (collect_port_specs t) w = (Some (Ok ready), w)"
    "cp_nodes (crd_ports ready) = p # ps" using demo_wait [OF t(2)] by (metis list.exhaust)
  let ?c = "cluster_environment_new ?ns ?ns g (crd_ports ready) (crd_port_forwards ready)"
  obtain e where e: "ensure_cluster_readiness Map.empty (ki_parse_url ?i) (ki_readiness ?i) t ?c = Some (Err e)"
    by (simp add: ensure_cluster_readiness_def readiness_urls_def readiness_url_def cluster_host_url_def cluster_environment_new_def wait(2))
  have obs: "resolve_observability_inputs (\<lambda>_. Err ''invalid'') Map.empty None = Ok observability_inputs_default"
    by (simp add: resolve_observability_inputs_def from_env_def with_overrides_def Let_def observability_inputs_default_def)
  have started: "setup_cluster ?i (collect_port_specs t) observability_inputs_default ?w0 = (Some (Err (KeReadiness e)), environment_drop ?c w)"
    using a ids st [unfolded numeral_2_eq_2] wait(1) e t(2) by (simp add: setup_cluster_def connect_cluster_def act_simps wait_for_ports_or_cleanup_def Let_def observability_inputs_default_def)
  have "ensure_supported_topology t = Ok ()" by (simp add: ensure_supported_topology_def t(2))
  then have "deploy_with_observability ?i ?w0 = (Some (Err (KeReadiness e)), environment_drop ?c w)"
    by (simp add: deploy_with_observability_def obs bind_act_def [where m = "setup_cluster _ _ _"] started)
  then obtain evs where d: "k8s_deploy ?i = (Some (Err (KeReadiness e)), evs)" by (simp add: k8s_deploy_def)
  have "\<forall>args. snd (ki_helm ?i args)" by simp
  from readiness_failure_leaves_stack [OF demo_supported [OF t(3)] this d ids] t(1) d show ?thesis
    by (intro exI [of _ t] exI [of _ s] exI [of _ e] exI [of _ evs] conjI)
qed

end
