(* ===== verification/Compose_Stack.thy ===== *)
theory Compose_Stack
  imports Container_Hosts Observability Http_Probe Block_Feed
begin

text \<open>
  What the compose deployer writes and runs (\<^verbatim>\<open>deployers/compose/src\<close>): docker commands under a timeout
  (\<^verbatim>\<open>docker/\<close>), the image (\<^verbatim>\<open>docker/mod.rs\<close>, \<^verbatim>\<open>docker/platform.rs\<close>), the temporary workspace
  (\<^verbatim>\<open>docker/workspace.rs\<close>), the descriptor of the stack (\<^verbatim>\<open>descriptor/\<close>), the rendered files
  (\<^verbatim>\<open>infrastructure/template.rs\<close>, \<^verbatim>\<open>infrastructure/cfgsync.rs\<close>) and the discovery of host ports
  (\<^verbatim>\<open>infrastructure/ports.rs\<close>).

  What a command answers, and when, is a function of the command; the file system, the YAML library
  and the template engine are arguments.
\<close>

section \<open>Docker commands\<close>

record command =
  cmd_program :: string
  cmd_args :: "string list"
  cmd_dir :: "string option"
  cmd_env :: "(string \<times> string) list"

definition docker_command :: "string list \<Rightarrow> string option \<Rightarrow> command" where
  "docker_command args dir = \<lparr>cmd_program = ''docker'', cmd_args = args, cmd_dir = dir, cmd_env = []\<rparr>"

text \<open>An exit status is the exit code, or none for a process ended by a signal.\<close>

type_synonym exit_status = "int option"

definition exit_success :: "exit_status \<Rightarrow> bool" where
  "exit_success s \<longleftrightarrow> s = Some 0"

record command_run =
  cr_takes :: duration
  cr_result :: "string + exit_status"
  cr_stdout :: string

type_synonym shell = "command \<Rightarrow> command_run"

datatype compose_command_error =
  CcFailed string exit_status
| CcSpawn string string
| CcTimeout string duration

text \<open>\<^verbatim>\<open>tokio::time::timeout\<close>: a result that is there when the time is up still counts.\<close>

definition timed :: "duration \<Rightarrow> command_run \<Rightarrow> (string + exit_status) option" where
  "timed limit run = (if cr_takes run \<le> limit then Some (cr_result run) else None)"

definition handle_compose_status :: "string + exit_status \<Rightarrow> string \<Rightarrow> compose_command_error + unit" where
  "handle_compose_status status description =
     (case status of
        Inr code \<Rightarrow> if exit_success code then Ok () else Err (CcFailed description code)
      | Inl err \<Rightarrow> Err (CcSpawn description err))"

definition run_docker_command :: "command_run \<Rightarrow> duration \<Rightarrow> string \<Rightarrow> compose_command_error + unit" where
  "run_docker_command run limit description =
     (case timed limit run of
        Some status \<Rightarrow> handle_compose_status status description
      | None \<Rightarrow> Err (CcTimeout description limit))"

definition run_compose_command :: "command_run \<Rightarrow> duration \<Rightarrow> string \<Rightarrow> compose_command_error + unit" where
  "run_compose_command run limit description =
     (case timed limit run of
        Some status \<Rightarrow> handle_compose_status status description
      | None \<Rightarrow> Err (CcTimeout description limit))"

definition compose_up_timeout :: duration where "compose_up_timeout = from_secs 120"

definition compose_args :: "string \<Rightarrow> string \<Rightarrow> string list \<Rightarrow> string list" where
  "compose_args compose_path project rest = [''compose'', ''-f'', compose_path, ''-p'', project] @ rest"

definition compose_up :: "env \<Rightarrow> shell \<Rightarrow> string \<Rightarrow> string \<Rightarrow> string \<Rightarrow> (compose_command_error + unit) option" where
  "compose_up ev sh compose_path project dir =
     map_option (\<lambda>limit. run_compose_command (sh (docker_command (compose_args compose_path project [''up'', ''-d'']) (Some dir)))
         limit ''docker compose up'')
       (adjust_timeout ev compose_up_timeout)"

definition compose_down :: "env \<Rightarrow> shell \<Rightarrow> string \<Rightarrow> string \<Rightarrow> string \<Rightarrow> (compose_command_error + unit) option" where
  "compose_down ev sh compose_path project dir =
     map_option (\<lambda>limit. run_compose_command (sh (docker_command (compose_args compose_path project [''down'', ''--volumes'']) (Some dir)))
         limit ''docker compose down'')
       (adjust_timeout ev compose_up_timeout)"

section \<open>Errors\<close>

datatype template_error =
  TeRepositoryRoot string
| TeRead string string
| TeSerialize string
| TeRender string string
| TeWrite string string

datatype config_error =
  CfCfgsync string string
| CfPort string
| CfCfgsyncStart u16 "string + compose_command_error"
| CfTemplate template_error

datatype stack_readiness_error =
  SrHttp http_readiness_error
| SrEndpoint string u16 string
| SrRemote readiness_error

datatype compose_client_error = CcEndpoint string string u16 string

datatype compose_runner_error =
  CeMissingNode nat
| CeDockerUnavailable
| CePortDiscovery string u16 string
| CeWorkspace string
| CeConfig config_error
| CeCompose compose_command_error
| CeReadiness stack_readiness_error
| CeNodeClients compose_client_error
| CeTelemetry metrics_error
| CeBlockFeedMissing
| CeBlockFeed scan_error
| CeMissingImage string
| CeImageBuild string
| CeInternalInvariant string

definition compose_restart_timeout :: duration where "compose_restart_timeout = from_secs 120"

definition restart_compose_service ::
  "env \<Rightarrow> shell \<Rightarrow> string \<Rightarrow> string \<Rightarrow> string \<Rightarrow> (compose_runner_error + unit) option" where
  "restart_compose_service ev sh compose_file project service =
     map_option (\<lambda>limit. map_err CeCompose
         (run_docker_command (sh (docker_command (compose_args compose_file project [''restart'', service]) None)) limit
           ''docker compose restart''))
       (adjust_timeout ev compose_restart_timeout)"

text \<open>The node control handle; the error text is the message of the error.\<close>

record compose_node_control =
  cnc_compose_file :: string
  cnc_project_name :: string

definition compose_restart_node ::
  "env \<Rightarrow> shell \<Rightarrow> (compose_runner_error \<Rightarrow> string) \<Rightarrow> compose_node_control \<Rightarrow> nat \<Rightarrow> (string + unit) option" where
  "compose_restart_node ev sh display c index =
     map_option (map_err (\<lambda>e. ''node restart failed: '' @ display e))
       (restart_compose_service ev sh (cnc_compose_file c) (cnc_project_name c) (''node-'' @ show_nat index))"

section \<open>The image\<close>

definition resolve_image :: "env \<Rightarrow> string \<times> string option" where
  "resolve_image ev =
     (let img = unwrap_or (nomos_testnet_image ev) ''logos-blockchain-testing:local''
      in (img, if img = ''ghcr.io/logos-co/nomos:testnet'' then Some ''linux/amd64'' else None))"

definition host_gateway_entry :: "env \<Rightarrow> string option" where
  "host_gateway_entry ev =
     (case ev ''COMPOSE_RUNNER_HOST_GATEWAY'' of
        Some v \<Rightarrow> if eq_ignore_ascii_case v ''disable'' \<or> v = [] then None else Some v
      | None \<Rightarrow>
          (case ev ''DOCKER_HOST_GATEWAY'' of
             Some gateway \<Rightarrow>
               Some (''host.docker.internal:'' @ (if gateway \<noteq> [] then gateway else ''host-gateway''))
           | None \<Rightarrow> Some ''host.docker.internal:host-gateway''))"

definition image_build_timeout :: duration where "image_build_timeout = from_secs 600"
definition docker_info_timeout :: duration where "docker_info_timeout = from_secs 15"
definition image_inspect_timeout :: duration where "image_inspect_timeout = from_secs 60"

definition ensure_docker_available :: "env \<Rightarrow> shell \<Rightarrow> (compose_runner_error + unit) option" where
  "ensure_docker_available ev sh =
     map_option (\<lambda>limit.
         case timed limit (sh (docker_command [''info''] None)) of
           Some (Inr status) \<Rightarrow> if exit_success status then Ok () else Err CeDockerUnavailable
         | _ \<Rightarrow> Err CeDockerUnavailable)
       (adjust_timeout ev docker_info_timeout)"

definition docker_image_exists :: "env \<Rightarrow> shell \<Rightarrow> string \<Rightarrow> (compose_runner_error + bool) option" where
  "docker_image_exists ev sh img =
     map_option (\<lambda>limit.
         case timed limit (sh (docker_command [''image'', ''inspect'', img] None)) of
           Some (Inr status) \<Rightarrow> Ok (exit_success status)
         | Some (Inl err) \<Rightarrow> Err (CeCompose (CcSpawn (''docker image inspect '' @ img) err))
         | None \<Rightarrow> Err (CeCompose (CcTimeout (''docker image inspect '' @ img) limit)))
       (adjust_timeout ev image_inspect_timeout)"

definition manifest_root :: "string list \<Rightarrow> string option" where
  "manifest_root manifest_dir =
     map_option path_of (Option.bind (path_parent manifest_dir) (\<lambda>p. Option.bind (path_parent p) path_parent))"

definition repository_root :: "env \<Rightarrow> string list \<Rightarrow> string + string" where
  "repository_root ev manifest_dir =
     (case ev ''CARGO_WORKSPACE_DIR'' of
        Some dir \<Rightarrow> Ok dir
      | None \<Rightarrow> ok_or ''resolving repository root from manifest dir'' (manifest_root manifest_dir))"

definition select_build_platform :: "string \<Rightarrow> string option \<Rightarrow> string option" where
  "select_build_platform arch platform =
     (case platform of
        Some p \<Rightarrow> Some p
      | None \<Rightarrow>
          if arch = ''aarch64'' \<or> arch = ''arm64'' then Some ''linux/arm64''
          else if arch = ''x86_64'' then Some ''linux/amd64'' else None)"

definition build_script :: string where "build_script = ''scripts/build/build_test_image.sh''"

definition optional_arg :: "env \<Rightarrow> string \<Rightarrow> string \<Rightarrow> string list" where
  "optional_arg ev key flag = (case ev key of Some v \<Rightarrow> if v \<noteq> [] then [flag, v] else [] | None \<Rightarrow> [])"

definition build_command :: "env \<Rightarrow> string \<Rightarrow> string \<Rightarrow> string \<Rightarrow> string option \<Rightarrow> command" where
  "build_command ev arch repo_root img platform =
     \<lparr>cmd_program = ''bash'',
      cmd_args = [path_join repo_root build_script, ''--tag'', img, ''--dockerfile'',
          path_join (path_join repo_root default_assets_stack_dir) ''Dockerfile.runtime'', ''--no-restore''] @
        optional_arg ev ''COMPOSE_CIRCUITS_PLATFORM'' ''--circuits-platform'' @
        optional_arg ev ''CIRCUITS_OVERRIDE'' ''--circuits-override'',
      cmd_dir = Some repo_root,
      cmd_env = (case select_build_platform arch platform of Some p \<Rightarrow> [(''DOCKER_DEFAULT_PLATFORM'', p)] | None \<Rightarrow> [])\<rparr>"

definition build_local_image ::
  "env \<Rightarrow> string \<Rightarrow> string list \<Rightarrow> shell \<Rightarrow> string \<Rightarrow> string option \<Rightarrow> (compose_runner_error + unit) option" where
  "build_local_image ev arch manifest_dir sh img platform =
     (case repository_root ev manifest_dir of
        Inl e \<Rightarrow> Some (Err (CeImageBuild e))
      | Inr repo_root \<Rightarrow>
          map_option (\<lambda>limit.
              case timed limit (sh (build_command ev arch repo_root img platform)) of
                None \<Rightarrow> Err (CeCompose (CcTimeout build_script limit))
              | Some (Inr code) \<Rightarrow> if exit_success code then Ok () else Err (CeCompose (CcFailed build_script code))
              | Some (Inl err) \<Rightarrow> Err (CeImageBuild err))
            (adjust_timeout ev image_build_timeout))"

definition ensure_image_present ::
  "env \<Rightarrow> string \<Rightarrow> string list \<Rightarrow> shell \<Rightarrow> string \<Rightarrow> string option \<Rightarrow> (compose_runner_error + unit) option" where
  "ensure_image_present ev arch manifest_dir sh img platform =
     (case docker_image_exists ev sh img of
        None \<Rightarrow> None
      | Some (Inl e) \<Rightarrow> Some (Err e)
      | Some (Inr present) \<Rightarrow>
          if present then Some (Ok ())
          else if img \<noteq> ''logos-blockchain-testing:local'' then Some (Err (CeMissingImage img))
          else build_local_image ev arch manifest_dir sh img platform)"

definition ensure_compose_image :: "env \<Rightarrow> string \<Rightarrow> string list \<Rightarrow> shell \<Rightarrow> (compose_runner_error + unit) option" where
  "ensure_compose_image ev arch manifest_dir sh =
     (case resolve_image ev of (img, platform) \<Rightarrow> ensure_image_present ev arch manifest_dir sh img platform)"

section \<open>The descriptor of the stack\<close>

record node_descriptor =
  nd_name :: string
  nd_image :: string
  nd_entrypoint :: string
  nd_volumes :: "string list"
  nd_extra_hosts :: "string list"
  nd_ports :: "string list"
  nd_environment :: "(string \<times> string) list"
  nd_platform :: "string option"

record compose_descriptor =
  cd_nodes :: "node_descriptor list"

definition node_entrypoint :: string where "node_entrypoint = ''/etc/nomos/scripts/run_nomos_node.sh''"

definition node_instance_name :: "nat \<Rightarrow> string" where
  "node_instance_name index = ''node-'' @ show_nat index"

definition descriptor_repo_root :: "env \<Rightarrow> string list \<Rightarrow> string option" where
  "descriptor_repo_root ev manifest_dir =
     (case ev ''CARGO_WORKSPACE_DIR'' of Some dir \<Rightarrow> Some dir | None \<Rightarrow> manifest_root manifest_dir)"

definition base_volumes :: "env \<Rightarrow> string list \<Rightarrow> string list" where
  "base_volumes ev manifest_dir =
     ''./stack:/etc/nomos'' #
     (case descriptor_repo_root ev manifest_dir of
        Some r \<Rightarrow> [path_join (path_join r ''tmp'') ''node-logs'' @ '':/tmp/node-logs'']
      | None \<Rightarrow> [])"

definition default_extra_hosts :: "env \<Rightarrow> string list" where
  "default_extra_hosts ev = (case host_gateway_entry ev of Some h \<Rightarrow> [h] | None \<Rightarrow> [])"

definition base_environment :: "env \<Rightarrow> u16 \<Rightarrow> (string \<times> string) list" where
  "base_environment ev port =
     [(''POL_PROOF_DEV_MODE'', unwrap_or (pol_proof_dev_mode ev) ''true''),
      (''RUST_LOG'', unwrap_or (rust_log ev) ''info''),
      (''LOGOS_BLOCKCHAIN_LOG_LEVEL'', unwrap_or (nomos_log_level ev) ''info''),
      (''LOGOS_BLOCKCHAIN_TIME_BACKEND'', unwrap_or (nomos_time_backend ev) ''monotonic''),
      (''CFG_SERVER_ADDR'', ''http://host.docker.internal:'' @ port_text port),
      (''OTEL_METRIC_EXPORT_INTERVAL'', ''5000'')]"

definition from_node ::
  "env \<Rightarrow> string list \<Rightarrow> nat \<Rightarrow> generated_node_config \<Rightarrow> string \<Rightarrow> string option \<Rightarrow> u16 \<Rightarrow> node_descriptor" where
  "from_node ev manifest_dir index node img platform port =
     \<lparr>nd_name = node_instance_name index, nd_image = img, nd_entrypoint = node_entrypoint,
      nd_volumes = base_volumes ev manifest_dir, nd_extra_hosts = default_extra_hosts ev,
      nd_ports = [''127.0.0.1::'' @ port_text (api_port node), ''127.0.0.1::'' @ port_text (testing_http_port node)],
      nd_environment = base_environment ev port @
        [(''CFG_NETWORK_PORT'', port_text (network_port node)),
         (''CFG_BLEND_PORT'', port_text (gn_blend_port node)),
         (''CFG_API_PORT'', port_text (api_port node)),
         (''CFG_TESTING_HTTP_PORT'', port_text (testing_http_port node)),
         (''CFG_HOST_IDENTIFIER'', node_instance_name index)],
      nd_platform = platform\<rparr>"

definition build_nodes ::
  "env \<Rightarrow> string list \<Rightarrow> generated_node_config list \<Rightarrow> string \<Rightarrow> string option \<Rightarrow> u16 \<Rightarrow> node_descriptor list" where
  "build_nodes ev manifest_dir nodes img platform port =
     map (\<lambda>(index, node). from_node ev manifest_dir index node img platform port) (enumerate 0 nodes)"

definition build_descriptor :: "env \<Rightarrow> string list \<Rightarrow> generated_topology \<Rightarrow> u16 option \<Rightarrow> compose_descriptor" where
  "build_descriptor ev manifest_dir t port =
     (case resolve_image ev of (img, platform) \<Rightarrow>
        \<lparr>cd_nodes = build_nodes ev manifest_dir (gt_nodes t) img platform (unwrap_or port (word_of_nat default_cfgsync_port))\<rparr>)"

section \<open>Workspace and files\<close>

datatype dir_entry = FileEntry string | DirEntry string "dir_entry list"

record compose_fs =
  cf_manifest_dir :: "string list"
  cf_arch :: string
  cf_exists :: "string \<Rightarrow> bool"
  cf_canonicalize :: "string \<Rightarrow> string option"
  cf_tempdir :: "string + string"
  cf_create_dir :: "string \<Rightarrow> string + unit"
  cf_read_dir :: "string \<Rightarrow> string + dir_entry list"
  cf_copy :: "string \<Rightarrow> string \<Rightarrow> string + unit"
  cf_load_template :: "string \<Rightarrow> string + cfgsync_config"
  cf_write_template :: "string \<Rightarrow> cfgsync_config \<Rightarrow> string + unit"
  cf_read :: "string \<Rightarrow> string + string"
  cf_serialize :: "compose_descriptor \<Rightarrow> string + unit"
  cf_render :: "string \<Rightarrow> compose_descriptor \<Rightarrow> string + string"
  cf_write :: "string \<Rightarrow> string \<Rightarrow> string + unit"

text \<open>The files copied, as pairs of source and destination.\<close>

fun copy_entries :: "compose_fs \<Rightarrow> string \<Rightarrow> string \<Rightarrow> dir_entry list \<Rightarrow> string + (string \<times> string) list" where
  "copy_entries fs source target [] = Ok []"
| "copy_entries fs source target (FileEntry name # entries) =
     (let file = path_join source name; dest = path_join target name in
      and_then (map_err (\<lambda>_. ''copying '' @ file @ '' -> '' @ dest) (cf_copy fs file dest)) (\<lambda>_.
      and_then (copy_entries fs source target entries) (\<lambda>copied. Ok ((file, dest) # copied))))"
| "copy_entries fs source target (DirEntry name sub # entries) =
     (let dest = path_join target name in
      and_then (map_err (\<lambda>_. ''creating target dir '' @ dest) (cf_create_dir fs dest)) (\<lambda>_.
      and_then (copy_entries fs (path_join source name) dest sub) (\<lambda>copied.
      and_then (copy_entries fs source target entries) (\<lambda>copied'. Ok (copied @ copied')))))"

definition copy_dir_recursive :: "compose_fs \<Rightarrow> string \<Rightarrow> string \<Rightarrow> string + (string \<times> string) list" where
  "copy_dir_recursive fs source target =
     and_then (map_err (\<lambda>_. ''creating target dir '' @ target) (cf_create_dir fs target)) (\<lambda>_.
     and_then (map_err (\<lambda>_. ''reading '' @ source) (cf_read_dir fs source)) (copy_entries fs source target))"

definition compose_stack_assets_root :: "env \<Rightarrow> compose_fs \<Rightarrow> string \<Rightarrow> string" where
  "compose_stack_assets_root ev fs repo_root =
     (let new_layout = (case ev ''REL_ASSETS_STACK_DIR'' of
                          Some dir \<Rightarrow> path_join repo_root dir
                        | None \<Rightarrow> path_join repo_root default_assets_stack_dir)
      in if cf_exists fs new_layout then new_layout else path_join repo_root ''testnet'')"

definition compose_stack_scripts_root :: "compose_fs \<Rightarrow> string \<Rightarrow> string" where
  "compose_stack_scripts_root fs repo_root =
     (let new_layout = path_join (path_join repo_root default_assets_stack_dir) ''scripts''
      in if cf_exists fs new_layout then new_layout else path_join repo_root ''testnet/scripts'')"

text \<open>A workspace is the path of its temporary directory.\<close>

definition workspace_repo_root :: "env \<Rightarrow> compose_fs \<Rightarrow> string + string" where
  "workspace_repo_root ev fs =
     (case ev ''REPO_ROOT_OVERRIDE_DIR'' of
        Some dir \<Rightarrow> Ok dir
      | None \<Rightarrow>
          (case ev ''CARGO_WORKSPACE_DIR'' of
             Some dir \<Rightarrow> Ok dir
           | None \<Rightarrow> map_err (\<lambda>_. ''locating repository root'')
               (ok_or ''resolving workspace root from manifest dir'' (manifest_root (cf_manifest_dir fs)))))"

definition workspace_create :: "env \<Rightarrow> compose_fs \<Rightarrow> string + string" where
  "workspace_create ev fs =
     and_then (workspace_repo_root ev fs) (\<lambda>repo_root.
     and_then (map_err (\<lambda>_. ''creating testnet temp dir'') (cf_tempdir fs)) (\<lambda>temp.
       let stack_source = compose_stack_assets_root ev fs repo_root;
           scripts_source = compose_stack_scripts_root fs repo_root
       in if \<not> cf_exists fs stack_source then Err (''stack assets directory not found at '' @ stack_source)
          else and_then (copy_dir_recursive fs stack_source (path_join temp ''stack'')) (\<lambda>_.
            if cf_exists fs scripts_source
            then and_then (copy_dir_recursive fs scripts_source (path_join temp ''stack/scripts'')) (\<lambda>_. Ok temp)
            else Ok temp)))"

record workspace_state =
  ws_workspace :: string
  ws_root :: string
  ws_cfgsync_path :: string

definition prepare_workspace_state :: "env \<Rightarrow> compose_fs \<Rightarrow> string + workspace_state" where
  "prepare_workspace_state ev fs =
     and_then (workspace_create ev fs) (\<lambda>ws.
       Ok \<lparr>ws_workspace = ws, ws_root = ws, ws_cfgsync_path = path_join (path_join ws ''stack'') ''cfgsync.yaml''\<rparr>)"

definition compose_cfgsync_config :: "generated_topology \<Rightarrow> u16 \<Rightarrow> url option \<Rightarrow> cfgsync_config \<Rightarrow> cfgsync_config" where
  "compose_cfgsync_config t port metrics_otlp_ingest_url template =
     (let c1 = apply_topology_overrides t (template\<lparr>cs_port := port\<rparr>)
      in case metrics_otlp_ingest_url of
           None \<Rightarrow> c1
         | Some endpoint \<Rightarrow> c1\<lparr>cs_tracing_settings := (cs_tracing_settings c1)\<lparr>ts_metrics := OtlpMetrics endpoint ''node''\<rparr>\<rparr>)"

definition update_cfgsync_config :: "compose_fs \<Rightarrow> string \<Rightarrow> generated_topology \<Rightarrow> u16 \<Rightarrow> url option \<Rightarrow> string + unit" where
  "update_cfgsync_config fs path t port metrics_otlp_ingest_url =
     and_then (cf_load_template fs path) (\<lambda>template.
       cf_write_template fs path (compose_cfgsync_config t port metrics_otlp_ingest_url template))"

definition configure_cfgsync ::
  "compose_fs \<Rightarrow> workspace_state \<Rightarrow> generated_topology \<Rightarrow> u16 \<Rightarrow> url option \<Rightarrow> config_error + unit" where
  "configure_cfgsync fs ws t port metrics_otlp_ingest_url =
     map_err (CfCfgsync (ws_cfgsync_path ws)) (update_cfgsync_config fs (ws_cfgsync_path ws) t port metrics_otlp_ingest_url)"

definition template_relative_path :: string where
  "template_relative_path = ''testing-framework/deployers/compose/assets/docker-compose.yml.tera''"

definition template_load :: "env \<Rightarrow> compose_fs \<Rightarrow> template_error + (string \<times> string)" where
  "template_load ev fs =
     and_then (map_err TeRepositoryRoot (repository_root ev (cf_manifest_dir fs))) (\<lambda>repo_root.
       let path = path_join repo_root template_relative_path
       in and_then (map_err (TeRead path) (cf_read fs path)) (\<lambda>contents. Ok (path, contents)))"

definition template_render :: "compose_fs \<Rightarrow> string \<times> string \<Rightarrow> compose_descriptor \<Rightarrow> template_error + string" where
  "template_render fs source descriptor =
     and_then (map_err TeSerialize (cf_serialize fs descriptor)) (\<lambda>_.
       map_err (TeRender (fst source)) (cf_render fs (snd source) descriptor))"

definition write_compose_file :: "env \<Rightarrow> compose_fs \<Rightarrow> compose_descriptor \<Rightarrow> string \<Rightarrow> template_error + unit" where
  "write_compose_file ev fs descriptor compose_path =
     and_then (template_load ev fs) (\<lambda>source.
     and_then (template_render fs source descriptor) (\<lambda>rendered.
       map_err (TeWrite compose_path) (cf_write fs compose_path rendered)))"

definition write_compose_artifacts ::
  "env \<Rightarrow> compose_fs \<Rightarrow> workspace_state \<Rightarrow> generated_topology \<Rightarrow> u16 \<Rightarrow> config_error + string" where
  "write_compose_artifacts ev fs ws t port =
     (let descriptor = build_descriptor ev (cf_manifest_dir fs) t (Some port);
          compose_path = path_join (ws_root ws) ''compose.generated.yml''
      in and_then (map_err CfTemplate (write_compose_file ev fs descriptor compose_path)) (\<lambda>_. Ok compose_path))"

section \<open>Host ports\<close>

text \<open>\<^verbatim>\<open>str::lines\<close>: pieces between line feeds, without a trailing carriage return or a last empty piece.\<close>

definition strip_cr :: "string \<Rightarrow> string" where
  "strip_cr l = (if l \<noteq> [] \<and> last l = CHR 0x0D then butlast l else l)"

definition text_lines :: "string \<Rightarrow> string list" where
  "text_lines s = (let ls = split_on (CHR 0x0A) s in map strip_cr (if last ls = [] then butlast ls else ls))"

fun find_port :: "string list \<Rightarrow> u16 option" where
  "find_port [] = None"
| "find_port (l # ls) =
     (let line = trim l in
      if line = [] then find_port ls
      else case parse_uint 65535 (trim (last_segment (CHR '':'') line)) of
        Some p \<Rightarrow> Some (word_of_nat p)
      | None \<Rightarrow> find_port ls)"

definition compose_port_discovery_timeout :: duration where "compose_port_discovery_timeout = from_secs 30"

text \<open>The stack a port is looked up in: compose file, project and directory.\<close>

type_synonym stack_ref = "string \<times> string \<times> string"

definition port_command :: "stack_ref \<Rightarrow> string \<Rightarrow> u16 \<Rightarrow> command" where
  "port_command st service container_port =
     (case st of (compose_path, project, dir) \<Rightarrow>
        docker_command (compose_args compose_path project [''port'', service, port_text container_port]) (Some dir))"

text \<open>The text of an exit status is an argument.\<close>

definition resolve_service_port ::
  "env \<Rightarrow> shell \<Rightarrow> (exit_status \<Rightarrow> string) \<Rightarrow> stack_ref \<Rightarrow> string \<Rightarrow> u16 \<Rightarrow> (compose_runner_error + u16) option" where
  "resolve_service_port ev sh show_status st service container_port =
     map_option (\<lambda>limit.
         let run = sh (port_command st service container_port);
             failed = (\<lambda>e. Err (CePortDiscovery service container_port e))
         in case timed limit run of
              None \<Rightarrow> failed ''docker compose port timed out''
            | Some (Inl _) \<Rightarrow> failed (''running docker compose port '' @ service @ '' '' @ port_text container_port)
            | Some (Inr status) \<Rightarrow>
                if \<not> exit_success status then failed (''docker compose port exited with '' @ show_status status)
                else case find_port (text_lines (cr_stdout run)) of
                  Some p \<Rightarrow> Ok p
                | None \<Rightarrow> failed (''unable to parse docker compose port output: '' @ cr_stdout run))
       (adjust_timeout ev compose_port_discovery_timeout)"

record node_host_ports =
  nhp_api :: u16
  nhp_testing :: u16

fun discover_host_ports ::
  "env \<Rightarrow> shell \<Rightarrow> (exit_status \<Rightarrow> string) \<Rightarrow> stack_ref \<Rightarrow> generated_node_config list \<Rightarrow>
   (compose_runner_error + node_host_ports list) option" where
  "discover_host_ports ev sh show_status st [] = Some (Ok [])"
| "discover_host_ports ev sh show_status st (n # ns) =
     (let service = node_instance_name (gn_index n) in
      case resolve_service_port ev sh show_status st service (api_port n) of
        None \<Rightarrow> None
      | Some (Inl e) \<Rightarrow> Some (Err e)
      | Some (Inr api) \<Rightarrow>
          (case resolve_service_port ev sh show_status st service (testing_http_port n) of
             None \<Rightarrow> None
           | Some (Inl e) \<Rightarrow> Some (Err e)
           | Some (Inr testing) \<Rightarrow>
               map_option (\<lambda>r. and_then r (\<lambda>rest. Ok (\<lparr>nhp_api = api, nhp_testing = testing\<rparr> # rest)))
                 (discover_host_ports ev sh show_status st ns)))"

section \<open>Published ports\<close>

lemma show_nat_clean:
  assumes "c \<in> set (show_nat n)"
  shows "\<not> is_ascii_space c" "c \<noteq> CHR '':''" "c \<noteq> CHR 0x0A" "c \<noteq> CHR 0x0D"
proof -
  obtain d where d: "d < 10" "c = digit_char d" using show_nat_digits [OF assms] by blast
  then have k: "of_char c = 48 + d" by (simp add: digit_char_def)
  with d(1) show "\<not> is_ascii_space c" by (simp add: is_ascii_space_def)
  show "c \<noteq> CHR '':''" "c \<noteq> CHR 0x0A" "c \<noteq> CHR 0x0D" using k d(1) by auto
qed

lemma dropWhile_rev_show_nat: "dropWhile is_ascii_space (rev (show_nat n) @ xs) = rev (show_nat n) @ xs"
  by (cases "show_nat n" rule: rev_cases) (simp_all add: show_nat_clean(1) [of _ n])

lemma trim_show_nat: "trim (show_nat n) = show_nat n"
  using dropWhile_rev_show_nat [of n "[]"]
  by (cases "show_nat n") (simp_all add: trim_def show_nat_clean(1) [of _ n])

text \<open>A published address: any text, a colon and the port.\<close>

lemma find_port_published:
  assumes "CHR 0x0A \<notin> set addr"
  shows "find_port (text_lines (addr @ CHR '':'' # show_nat (unat p) @ [CHR 0x0A])) = Some p"
proof -
  let ?ds = "show_nat (unat p)" and ?sp = is_ascii_space
  let ?l = "addr @ CHR '':'' # ?ds"
  have no: "CHR 0x0A \<notin> set ?l" using assms show_nat_clean(3) by auto
  have split: "split_on (CHR 0x0A) (?l @ [CHR 0x0A]) = [?l, []]" using split_on_append [OF no, of "[]"] by simp
  have "last ?l \<noteq> CHR 0x0D" using show_nat_clean(4) [of "last ?ds" "unat p"] by simp
  then have "strip_cr ?l = ?l" by (simp add: strip_cr_def)
  then have lines: "text_lines (?l @ [CHR 0x0A]) = [?l]" by (simp only: text_lines_def split) simp
  obtain pre where pre: "dropWhile ?sp ?l = pre @ CHR '':'' # ?ds"
  proof -
    have "\<not> ?sp (CHR '':'')" by (simp add: is_ascii_space_def)
    then have "dropWhile ?sp ?l = dropWhile ?sp addr @ CHR '':'' # ?ds"
      by (cases "\<exists>c \<in> set addr. \<not> ?sp c") (auto simp: dropWhile_append dest: set_dropWhileD)
    with that show thesis by blast
  qed
  have "trim ?l = pre @ CHR '':'' # ?ds"
    unfolding trim_def pre using dropWhile_rev_show_nat [of "unat p" "CHR '':'' # rev pre"] by simp
  moreover have "last_segment (CHR '':'') (pre @ CHR '':'' # ?ds) = ?ds"
    by (rule last_segment_append) (use show_nat_clean(2) in blast)
  ultimately have "find_port [?l] = Some p" by (simp add: trim_show_nat parse_show_nat port_bound Let_def)
  with lines show ?thesis by simp
qed

lemma adjust_constant: "d \<le> from_secs 600 \<Longrightarrow> \<exists>d'. adjust_timeout ev d = Some d' \<and> d \<le> d'"
  by (auto simp: adjust_timeout_def dur_mul_def duration_defs)

definition published :: "shell \<Rightarrow> stack_ref \<Rightarrow> generated_node_config \<Rightarrow> u16 \<Rightarrow> string \<Rightarrow> u16 \<Rightarrow> bool" where
  "published sh st n container_port addr p \<longleftrightarrow>
     (let run = sh (port_command st (node_instance_name (gn_index n)) container_port) in
      cr_takes run \<le> compose_port_discovery_timeout \<and> cr_result run = Ok (Some 0) \<and>
      cr_stdout run = addr @ CHR '':'' # show_nat (unat p) @ [CHR 0x0A] \<and> CHR 0x0A \<notin> set addr)"

lemma resolve_published:
  assumes "published sh st n container_port addr p"
  shows "resolve_service_port ev sh show_status st (node_instance_name (gn_index n)) container_port = Some (Ok p)"
proof -
  obtain limit where "adjust_timeout ev compose_port_discovery_timeout = Some limit" "compose_port_discovery_timeout \<le> limit"
    using adjust_constant [of compose_port_discovery_timeout ev]
    by (auto simp: compose_port_discovery_timeout_def duration_defs)
  with assms find_port_published show ?thesis
    by (auto simp: published_def resolve_service_port_def timed_def exit_success_def Let_def)
qed

lemma discover_published:
  assumes "\<forall>n \<in> set nodes. published sh st n (api_port n) (addr n) (api n) \<and>
      published sh st n (testing_http_port n) (addr n) (testing n)"
  shows "discover_host_ports ev sh show_status st nodes =
    Some (Ok (map (\<lambda>n. \<lparr>nhp_api = api n, nhp_testing = testing n\<rparr>) nodes))"
  using assms
proof (induction nodes)
  case (Cons n ns)
  then have "resolve_service_port ev sh show_status st (node_instance_name (gn_index n)) (api_port n) = Some (Ok (api n))"
    "resolve_service_port ev sh show_status st (node_instance_name (gn_index n)) (testing_http_port n) = Some (Ok (testing n))"
    by (auto intro: resolve_published)
  with Cons show ?case by (simp add: Let_def)
qed simp

section \<open>Containers\<close>

text \<open>The start script adds the address of the container to the environment of the descriptor.\<close>

definition compose_container_env ::
  "env \<times> string list \<times> u16 \<Rightarrow> generated_topology \<Rightarrow> (nat \<Rightarrow> string) \<Rightarrow> nat \<Rightarrow> env" where
  "compose_container_env c t ips i =
     (case c of (ev, manifest_dir, port) \<Rightarrow>
        (map_of (nd_environment (cd_nodes (build_descriptor ev manifest_dir t (Some port)) ! i)))(''CFG_HOST_IP'' \<mapsto> ips i))"

lemma compose_container_env_eq:
  "i < length (gt_nodes t) \<Longrightarrow> compose_container_env (ev, manifest_dir, port) t ips i =
     (map_of (nd_environment (from_node ev manifest_dir i (gt_nodes t ! i) (fst (resolve_image ev)) (snd (resolve_image ev)) port)))
       (''CFG_HOST_IP'' \<mapsto> ips i)"
  by (simp add: compose_container_env_def build_descriptor_def build_nodes_def nth_enumerate_eq unwrap_or_def split: prod.split)

interpretation compose_containers: container_hosts compose_container_env
proof
  fix i and t :: generated_topology and c :: "env \<times> string list \<times> u16" and ips
  assume "i < length (gt_nodes t)"
  moreover obtain ev manifest_dir port where "c = (ev, manifest_dir, port)" by (cases c)
  ultimately show "compose_container_env c t ips i ''CFG_HOST_IP'' = Some (ips i) \<and>
      compose_container_env c t ips i ''CFG_HOST_IDENTIFIER'' = Some (''node-'' @ show_nat i) \<and>
      compose_container_env c t ips i ''CFG_NETWORK_PORT'' = Some (port_text (network_port (gt_nodes t ! i))) \<and>
      compose_container_env c t ips i ''CFG_BLEND_PORT'' = Some (port_text (gn_blend_port (gt_nodes t ! i))) \<and>
      compose_container_env c t ips i ''CFG_API_PORT'' = Some (port_text (api_port (gt_nodes t ! i))) \<and>
      compose_container_env c t ips i ''CFG_TESTING_HTTP_PORT'' = Some (port_text (testing_http_port (gt_nodes t ! i)))"
    by (simp add: compose_container_env_eq from_node_def base_environment_def node_instance_name_def)
qed

lemma compose_cfgsync_config_from:
  "configured_from t (compose_cfgsync_config t port otlp template)" "cs_port (compose_cfgsync_config t port otlp template) = port"
  by (simp_all add: compose_cfgsync_config_def configured_from_def apply_topology_overrides_def to_consensus_params_def Let_def
      split: option.split)

section \<open>Properties\<close>

text \<open>
  Property C38.  The host ports of a stack are recovered from what docker prints: if for both
  container ports of every node the command returns in time and prints some address (of any form,
  on one line), a colon and the published port, the discovery returns exactly the published ports, in
  the order of the nodes.
\<close>

theorem host_ports_recovered:
  assumes "\<forall>n \<in> set nodes. published sh st n (api_port n) (addr n) (api n) \<and>
      published sh st n (testing_http_port n) (addr n) (testing n)"
  shows "discover_host_ports ev sh show_status st nodes =
    Some (Ok (map (\<lambda>n. \<lparr>nhp_api = api n, nhp_testing = testing n\<rparr>) nodes))"
  using assms by (rule discover_published)

text \<open>
  When the files of a compose stack are written, the server's configuration carries the
  chosen port, every container is told to ask the server at that port, and announces the identifier,
  ports and address of its node.  In whatever order the containers register, the server sorts them
  into the order of the topology, its checks pass, and it builds the base configurations from the node
  identifiers, consensus parameters, wallet and blend ports of the topology.
\<close>

theorem compose_hosts_match_topology:
  assumes "configure_cfgsync fs ws t port otlp = Ok ()" "write_compose_artifacts ev fs ws t port = Ok compose_path"
    and "0 < length (gt_nodes t)" "length (gt_nodes t) \<le> u64_max" "\<forall>i. length (ip i) = 4"
    and "mset order = mset (map (\<lambda>i. announced_host (compose_container_env (ev, cf_manifest_dir fs, port) t (\<lambda>i. show_ipv4 (ip i)) i))
      [0..<length (gt_nodes t)])"
  shows "\<exists>template rendered. let cfg = compose_cfgsync_config t port otlp template; hosts = sort_hosts order; n = length (gt_nodes t) in
    cf_write_template fs (ws_cfgsync_path ws) cfg = Ok () \<and> cf_write fs compose_path rendered = Ok () \<and> cs_port cfg = port \<and>
    (\<forall>i < n. compose_container_env (ev, cf_manifest_dir fs, port) t (\<lambda>i. show_ipv4 (ip i)) i ''CFG_SERVER_ADDR'' =
       Some (''http://host.docker.internal:'' @ show_nat (unat (cs_port cfg)))) \<and>
    distinct hosts \<and>
    hosts = map (\<lambda>i. \<lparr>h_kind = HostNode, h_ip = ip i, h_identifier = ''node-'' @ show_nat i,
       h_network_port = network_port (gt_nodes t ! i), h_blend_port = gn_blend_port (gt_nodes t ! i),
       h_api_port = api_port (gt_nodes t ! i), h_testing_http_port = testing_http_port (gt_nodes t ! i)\<rparr>) [0..<n] \<and>
    try_create_node_configs d ev' clock (to_consensus_params cfg) tracing (cs_wallet cfg) (cs_ids cfg) (cs_blend_ports cfg) order s =
      bind_os (map_err_os NcbBase (build_base_configs d ev' (map gn_id (gt_nodes t))
          ((tc_consensus_params (gt_config t))\<lparr>cp_n_participants := n\<rparr>) network_params_default
          (tc_wallet_config (gt_config t)) (map gn_blend_port (gt_nodes t))))
        (\<lambda>base s2. (finish_hosts d ev' clock tracing hosts (map gn_id (gt_nodes t)) base s2, s2)) s"
proof -
  obtain template where w: "cf_write_template fs (ws_cfgsync_path ws) (compose_cfgsync_config t port otlp template) = Ok ()"
    using assms(1) by (auto simp: configure_cfgsync_def update_cfgsync_config_def result_iffs)
  obtain rendered where r: "cf_write fs compose_path rendered = Ok ()"
    using assms(2) by (auto simp: write_compose_artifacts_def write_compose_file_def Let_def result_iffs)
  have addr: "\<forall>i < length (gt_nodes t). compose_container_env (ev, cf_manifest_dir fs, port) t (\<lambda>i. show_ipv4 (ip i)) i ''CFG_SERVER_ADDR'' =
      Some (''http://host.docker.internal:'' @ show_nat (unat (cs_port (compose_cfgsync_config t port otlp template))))"
    by (simp add: compose_container_env_eq from_node_def base_environment_def port_text_def compose_cfgsync_config_from)
  note hosts = compose_containers.hosts_in_order [OF assms(4-6)]
  show ?thesis
    unfolding Let_def
    by (intro exI [of _ template] exI [of _ rendered] conjI w r addr compose_cfgsync_config_from(2) hosts(2)
        hosts(1) [unfolded expected_host_def] compose_containers.configs_from_topology [OF assms(3-6) compose_cfgsync_config_from(1)])
qed

definition demo_compose_fs :: compose_fs where
  "demo_compose_fs = \<lparr>cf_manifest_dir = [''work'', ''testing-framework'', ''deployers'', ''compose''], cf_arch = ''x86_64'',
     cf_exists = (\<lambda>_. True), cf_canonicalize = (\<lambda>_. None), cf_tempdir = Ok ''/tmp/nomos-testnet-1'', cf_create_dir = (\<lambda>_. Ok ()),
     cf_read_dir = (\<lambda>_. Ok [FileEntry ''cfgsync.yaml'', DirEntry ''scripts'' [FileEntry ''run_nomos_node.sh'']]),
     cf_copy = (\<lambda>_ _. Ok ()), cf_load_template = (\<lambda>_. Ok demo_cfgsync), cf_write_template = (\<lambda>_ _. Ok ()),
     cf_read = (\<lambda>_. Ok ''services:''), cf_serialize = (\<lambda>_. Ok ()), cf_render = (\<lambda>_ _. Ok ''services:''), cf_write = (\<lambda>_ _. Ok ())\<rparr>"

definition demo_workspace :: workspace_state where
  "demo_workspace = \<lparr>ws_workspace = ''/tmp/w'', ws_root = ''/tmp/w'', ws_cfgsync_path = ''/tmp/w/stack/cfgsync.yaml''\<rparr>"

definition demo_port_shell :: shell where
  "demo_port_shell _ = \<lparr>cr_takes = 0, cr_result = Ok (Some 0), cr_stdout = ''[::]'' @ CHR '':'' # show_nat 32768 @ [CHR 0x0A]\<rparr>"

theorem host_ports_recovered_witness:
  "\<exists>t s. build demo_deps Map.empty demo_builder demo_os = (Ok t, s) \<and>
     discover_host_ports Map.empty demo_port_shell (\<lambda>_. []) (''f'', ''p'', ''d'') (gt_nodes t) =
       Some (Ok (map (\<lambda>_. \<lparr>nhp_api = 32768, nhp_testing = 32768\<rparr>) (gt_nodes t)))"
proof -
  obtain t s where t: "build demo_deps Map.empty demo_builder demo_os = (Ok t, s)"
    using build_is_ok [of demo_deps demo_os demo_builder Map.empty] by (auto simp: vector_fits_def demo_ids_def)
  have "published demo_port_shell st n c ''[::]'' 32768" for st n c
    by (simp add: published_def demo_port_shell_def Let_def)
  then show ?thesis
    using host_ports_recovered [of "gt_nodes t" demo_port_shell "(''f'', ''p'', ''d'')" "\<lambda>_. ''[::]''" "\<lambda>_. 32768" "\<lambda>_. 32768" Map.empty "\<lambda>_. []"] t
    by (intro exI [of _ t] exI [of _ s] conjI) simp_all
qed

theorem compose_hosts_match_topology_witness:
  "\<exists>t s path. build demo_deps Map.empty demo_builder demo_os = (Ok t, s) \<and>
     write_compose_artifacts Map.empty demo_compose_fs demo_workspace t 4400 = Ok path \<and>
     (let env = compose_container_env (Map.empty, cf_manifest_dir demo_compose_fs, 4400) t (\<lambda>_. ''10.0.0.9'')
      in h_identifier (sort_hosts [announced_host (env 1), announced_host (env 0)] ! 1) = ''node-1'')"
proof -
  obtain t s where t: "build demo_deps Map.empty demo_builder demo_os = (Ok t, s)"
    using build_is_ok [of demo_deps demo_os demo_builder Map.empty] by (auto simp: vector_fits_def demo_ids_def)
  have n: "length (gt_nodes t) = 2" using t by (rule build_Ok) simp
  let ?env = "compose_container_env (Map.empty, cf_manifest_dir demo_compose_fs, 4400) t"
  have c: "configure_cfgsync demo_compose_fs demo_workspace t 4400 None = Ok ()"
    by (simp add: configure_cfgsync_def update_cfgsync_config_def demo_compose_fs_def)
  obtain path where a: "write_compose_artifacts Map.empty demo_compose_fs demo_workspace t 4400 = Ok path"
    by (simp add: write_compose_artifacts_def write_compose_file_def template_load_def template_render_def repository_root_def
        demo_compose_fs_def manifest_root_def path_parent_def Let_def)
  have ip: "show_ipv4 [10, 0, 0, 9] = ''10.0.0.9''" by code_simp
  let ?order = "[announced_host (?env (\<lambda>_. ''10.0.0.9'') 1), announced_host (?env (\<lambda>_. ''10.0.0.9'') 0)]"
  have "mset ?order = mset (map (\<lambda>i. announced_host (?env (\<lambda>i. show_ipv4 [10, 0, 0, 9]) i)) [0..<length (gt_nodes t)])"
    unfolding ip n by (simp add: upt_rec)
  from compose_hosts_match_topology [OF c a _ _ _ this, of demo_deps Map.empty "\<lambda>_. 0" undefined s] n
  have "h_identifier (sort_hosts ?order ! 1) = ''node-'' @ show_nat 1" by (auto simp: Let_def)
  moreover have "show_nat 1 = ''1''" by code_simp
  ultimately show ?thesis using t a by (auto simp: Let_def)
qed

end
