(* ===== verification/Compose_Deploy.thy ===== *)
theory Compose_Deploy
  imports Compose_Stack Deployment
begin

text \<open>
  The compose deployer (\<^verbatim>\<open>deployers/compose/src\<close>): the cfgsync container (\<^verbatim>\<open>infrastructure/cfgsync.rs\<close>,
  \<^verbatim>\<open>environment.rs\<close>), the environment of a running stack, tearing it down (\<^verbatim>\<open>lifecycle/cleanup.rs\<close>) and the
  phases of a deployment (\<^verbatim>\<open>deployer/\<close>, \<^verbatim>\<open>lifecycle/\<close>).

  What the deployment acquires is recorded in the log: the cfgsync container, the stack and the block
  feed task.  A cfgsync handle that goes out of scope stops its container; an environment and a
  clean-up guard do nothing of their own when they go out of scope.  Temporary directories are not
  tracked.
\<close>

section \<open>Inputs of a deployment\<close>

text \<open>
  \<open>ci_container_left\<close> and \<open>ci_stack_left\<close> say whether a start command that does not succeed leaves the
  container or part of the stack behind; \<open>ci_down_runtime\<close>, whether a runtime for the removal command
  can be created.
\<close>

record compose_inputs =
  ci_env :: env
  ci_topology :: generated_topology
  ci_duration :: duration
  ci_capability :: "observability_capability option"
  ci_requires_control :: bool
  ci_readiness_checks :: bool
  ci_parse_url :: "string \<Rightarrow> string + url"
  ci_fs :: compose_fs
  ci_shell :: shell
  ci_show_status :: "exit_status \<Rightarrow> string"
  ci_port :: "string + u16"
  ci_container_uuid :: string
  ci_project_uuid :: string
  ci_container_left :: bool
  ci_stack_left :: bool
  ci_down_runtime :: bool
  ci_first_err :: "nat list \<Rightarrow> nat"
  ci_info_path :: string
  ci_net :: probe_net
  ci_readiness :: answers
  ci_metrics_client :: metrics_client
  ci_draw :: "nat \<Rightarrow> nat \<Rightarrow> nat"
  ci_feed :: "nat \<Rightarrow> api_urls \<Rightarrow> poll"

type_synonym log = "resource_event list"
type_synonym 'a compose_act = "(log, compose_runner_error, 'a) act"

definition lift_result :: "('e + 'a) option \<Rightarrow> ('w, 'e, 'a) act" where
  "lift_result r w = (r, w)"

section \<open>The cfgsync container\<close>

record cfgsync_handle =
  ch_name :: string
  ch_stopped :: bool

definition handle_shutdown :: "cfgsync_handle \<Rightarrow> log \<Rightarrow> cfgsync_handle \<times> log" where
  "handle_shutdown h w =
     (if \<not> ch_stopped h then (h\<lparr>ch_stopped := True\<rparr>, w @ [Release (CfgsyncContainer (ch_name h))]) else (h, w))"

definition handle_drop :: "cfgsync_handle option \<Rightarrow> log \<Rightarrow> log" where
  "handle_drop h w = (case h of None \<Rightarrow> w | Some h \<Rightarrow> snd (handle_shutdown h w))"

definition cfgsync_start_timeout :: duration where "cfgsync_start_timeout = from_secs 180"

text \<open>\<^verbatim>\<open>Path::parent\<close> on the text of a path.\<close>

definition text_parent :: "string \<Rightarrow> string option" where
  "text_parent p =
     (let strip = (\<lambda>s. rev (dropWhile (\<lambda>c. c = CHR ''/'') (rev s))); q = strip p in
      if q = [] then None
      else (let r = rev (dropWhile (\<lambda>c. c \<noteq> CHR ''/'') (rev q))
            in Some (if r = [] then [] else if strip r = [] then ''/'' else strip r)))"

definition cfgsync_run_command :: "env \<Rightarrow> compose_fs \<Rightarrow> string \<Rightarrow> u16 \<Rightarrow> string \<Rightarrow> command" where
  "cfgsync_run_command ev fs dir port container =
     docker_command
       [''run'', ''-d'', ''--name'', container, ''--entrypoint'', ''cfgsync-server'',
        ''-p'', port_text port @ '':'' @ port_text port,
        ''-v'', unwrap_or (cf_canonicalize fs dir) dir @ '':/etc/nomos:ro'', fst (resolve_image ev), ''/etc/nomos/cfgsync.yaml''] None"

definition launch_cfgsync :: "compose_inputs \<Rightarrow> string \<Rightarrow> u16 \<Rightarrow> cfgsync_handle compose_act" where
  "launch_cfgsync i path port w =
     (case text_parent path of
        None \<Rightarrow> (Some (Err (CeConfig (CfCfgsyncStart port (Inl (''cfgsync path '' @ path @ '' has no parent directory''))))), w)
      | Some dir \<Rightarrow>
          (let container = ''nomos-cfgsync-'' @ ci_container_uuid i in
           case adjust_timeout (ci_env i) cfgsync_start_timeout of
             None \<Rightarrow> (None, w)
           | Some limit \<Rightarrow>
               (case run_docker_command (ci_shell i (cfgsync_run_command (ci_env i) (ci_fs i) dir port container)) limit
                       ''docker run cfgsync server'' of
                  Inl e \<Rightarrow> (Some (Err (CeConfig (CfCfgsyncStart port (Inr e)))),
                            if ci_container_left i then w @ [Acquire (CfgsyncContainer container)] else w)
                | Inr _ \<Rightarrow> (Some (Ok \<lparr>ch_name = container, ch_stopped = False\<rparr>), w @ [Acquire (CfgsyncContainer container)]))))"

section \<open>Tearing down\<close>

record compose_cleanup =
  cc_compose_file :: string
  cc_project_name :: string
  cc_root :: string
  cc_workspace :: "string option"
  cc_cfgsync :: "cfgsync_handle option"

text \<open>The constructor asserts that both identifiers are given.\<close>

definition compose_cleanup_new ::
  "string \<Rightarrow> string \<Rightarrow> string \<Rightarrow> string \<Rightarrow> cfgsync_handle option \<Rightarrow> compose_cleanup option" where
  "compose_cleanup_new compose_file project dir workspace cfgsync =
     (if compose_file \<noteq> [] \<and> project \<noteq> []
      then Some \<lparr>cc_compose_file = compose_file, cc_project_name = project, cc_root = dir, cc_workspace = Some workspace,
                 cc_cfgsync = cfgsync\<rparr>
      else None)"

definition should_preserve :: "env \<Rightarrow> bool" where
  "should_preserve ev \<longleftrightarrow> ev ''COMPOSE_RUNNER_PRESERVE'' \<noteq> None \<or> ev ''TESTNET_RUNNER_PRESERVE'' \<noteq> None"

text \<open>
  The removal command runs on a thread of its own; failures, also a panic of that thread, are only
  logged.  In preserving mode the guard is dropped with the cfgsync handle in it.
\<close>

definition run_compose_down_blocking :: "compose_inputs \<Rightarrow> compose_cleanup \<Rightarrow> log \<Rightarrow> (compose_command_error + unit) \<times> log" where
  "run_compose_down_blocking i rc w =
     (if ci_down_runtime i
      then ((case compose_down (ci_env i) (ci_shell i) (cc_compose_file rc) (cc_project_name rc) (cc_root rc) of
               Some r \<Rightarrow> r
             | None \<Rightarrow> Err (CcSpawn ''docker compose down'' ''join failure running compose down'')),
            w @ [Release (ComposeStack (cc_project_name rc))])
      else (Err (CcSpawn ''docker compose down'' ''runtime''), w))"

definition teardown_compose :: "compose_inputs \<Rightarrow> compose_cleanup \<Rightarrow> log \<Rightarrow> log" where
  "teardown_compose i rc w = snd (run_compose_down_blocking i rc w)"

definition shutdown_cfgsync :: "compose_cleanup \<Rightarrow> log \<Rightarrow> log" where
  "shutdown_cfgsync rc w = (case cc_cfgsync rc of None \<Rightarrow> w | Some h \<Rightarrow> snd (handle_shutdown h w))"

definition compose_cleanup_run :: "compose_inputs \<Rightarrow> compose_cleanup \<Rightarrow> log \<Rightarrow> log" where
  "compose_cleanup_run i rc w =
     (if should_preserve (ci_env i) then handle_drop (cc_cfgsync rc) w
      else shutdown_cfgsync rc (teardown_compose i rc w))"

section \<open>The environment of a stack\<close>

record stack_environment =
  se_compose_path :: string
  se_project_name :: string
  se_root :: string
  se_workspace :: "string option"
  se_cfgsync_handle :: "cfgsync_handle option"

definition from_workspace :: "workspace_state \<Rightarrow> string \<Rightarrow> string \<Rightarrow> cfgsync_handle option \<Rightarrow> stack_environment" where
  "from_workspace ws compose_path project handle =
     \<lparr>se_compose_path = compose_path, se_project_name = project, se_root = ws_root ws, se_workspace = Some (ws_workspace ws),
      se_cfgsync_handle = handle\<rparr>"

definition workspace_missing :: compose_runner_error where
  "workspace_missing = CeInternalInvariant ''workspace must be available while cleaning up''"

definition compose_take_cleanup :: "stack_environment \<Rightarrow> (compose_runner_error + compose_cleanup) option \<times> stack_environment" where
  "compose_take_cleanup c =
     (case se_workspace c of
        None \<Rightarrow> (Some (Err workspace_missing), c)
      | Some ws \<Rightarrow>
          (map_option Ok (compose_cleanup_new (se_compose_path c) (se_project_name c) (se_root c) ws (se_cfgsync_handle c)),
           c\<lparr>se_workspace := None, se_cfgsync_handle := None\<rparr>))"

definition compose_into_cleanup :: "stack_environment \<Rightarrow> (compose_runner_error + compose_cleanup) option" where
  "compose_into_cleanup c =
     (case se_workspace c of
        None \<Rightarrow> Some (Err workspace_missing)
      | Some ws \<Rightarrow> map_option Ok (compose_cleanup_new (se_compose_path c) (se_project_name c) (se_root c) ws (se_cfgsync_handle c)))"

definition stack_drop :: "stack_environment \<Rightarrow> log \<Rightarrow> log" where
  "stack_drop c w = handle_drop (se_cfgsync_handle c) w"

text \<open>Logs are collected and the stack torn down; a failed assertion would unwind.\<close>

definition stack_fail :: "compose_inputs \<Rightarrow> stack_environment \<Rightarrow> log \<Rightarrow> unit option \<times> stack_environment \<times> log" where
  "stack_fail i c w =
     (case compose_take_cleanup c of
        (None, c') \<Rightarrow> (None, c', w)
      | (Some (Inl _), c') \<Rightarrow> (Some (), c', w)
      | (Some (Inr rc), c') \<Rightarrow> (Some (), c', compose_cleanup_run i rc w))"

text \<open>A failing step: tear down, drop the environment, report the error.\<close>

definition fail_step :: "compose_inputs \<Rightarrow> stack_environment \<Rightarrow> compose_runner_error \<Rightarrow> 'a compose_act" where
  "fail_step i c e w =
     (case stack_fail i c w of
        (None, c', w') \<Rightarrow> (None, stack_drop c' w')
      | (Some _, c', w') \<Rightarrow> (Some (Err e), stack_drop c' w'))"

text \<open>The outcome of a step, with a panic dropping the environment.\<close>

definition step_or_fail :: "compose_inputs \<Rightarrow> stack_environment \<Rightarrow> (compose_runner_error + 'a) option \<Rightarrow> 'a compose_act" where
  "step_or_fail i c r w =
     (case r of
        None \<Rightarrow> (None, stack_drop c w)
      | Some (Inl e) \<Rightarrow> fail_step i c e w
      | Some (Inr x) \<Rightarrow> (Some (Ok x), w))"

section \<open>Bringing a stack up\<close>

definition compose_supported_topology :: "generated_topology \<Rightarrow> compose_runner_error + unit" where
  "compose_supported_topology t =
     (let nodes = length (gt_nodes t) in if nodes = 0 then Err (CeMissingNode nodes) else Ok ())"

definition allocate_cfgsync_port :: "string + u16 \<Rightarrow> config_error + u16" where
  "allocate_cfgsync_port bound = map_err CfPort bound"

definition bring_up_stack ::
  "compose_inputs \<Rightarrow> string \<Rightarrow> string \<Rightarrow> string \<Rightarrow> cfgsync_handle \<Rightarrow> log \<Rightarrow>
   (compose_runner_error + unit) option \<times> cfgsync_handle \<times> log" where
  "bring_up_stack i compose_path project dir handle w =
     (case compose_up (ci_env i) (ci_shell i) compose_path project dir of
        None \<Rightarrow> (None, handle, w)
      | Some (Inr _) \<Rightarrow> (Some (Ok ()), handle, w @ [Acquire (ComposeStack project)])
      | Some (Inl e) \<Rightarrow>
          (case handle_shutdown handle (if ci_stack_left i then w @ [Acquire (ComposeStack project)] else w) of
             (handle', w') \<Rightarrow> (Some (Err (CeCompose e)), handle', w')))"

text \<open>The last step of preparing: the handle is dropped when the stack does not come up.\<close>

definition start_stack :: "compose_inputs \<Rightarrow> workspace_state \<Rightarrow> string \<Rightarrow> cfgsync_handle \<Rightarrow> stack_environment compose_act" where
  "start_stack i ws compose_path handle w =
     (let project = ''nomos-compose-'' @ ci_project_uuid i in
      case bring_up_stack i compose_path project (ws_root ws) handle w of
        (None, handle', w') \<Rightarrow> (None, handle_drop (Some handle') w')
      | (Some (Inl e), handle', w') \<Rightarrow>
          (case handle_shutdown handle' w' of (handle'', w'') \<Rightarrow> (Some (Err e), handle_drop (Some handle'') w''))
      | (Some (Inr _), handle', w') \<Rightarrow> (Some (Ok (from_workspace ws compose_path project (Some handle'))), w'))"

definition prepare_environment :: "compose_inputs \<Rightarrow> url option \<Rightarrow> stack_environment compose_act" where
  "prepare_environment i metrics_otlp_ingest_url =
     bind_act (return_act (map_err CeWorkspace (prepare_workspace_state (ci_env i) (ci_fs i)))) (\<lambda>ws.
     bind_act (return_act (map_err CeConfig (allocate_cfgsync_port (ci_port i)))) (\<lambda>port.
     bind_act (return_act (map_err CeConfig (configure_cfgsync (ci_fs i) ws (ci_topology i) port metrics_otlp_ingest_url))) (\<lambda>_.
     bind_act (lift_result (ensure_compose_image (ci_env i) (cf_arch (ci_fs i)) (cf_manifest_dir (ci_fs i)) (ci_shell i))) (\<lambda>_.
     bind_act (return_act (map_err CeConfig (write_compose_artifacts (ci_env i) (ci_fs i) ws (ci_topology i) port))) (\<lambda>compose_path.
     bind_act (launch_cfgsync i (ws_cfgsync_path ws) port) (start_stack i ws compose_path))))))"

definition validate_environment :: "compose_inputs \<Rightarrow> unit compose_act" where
  "validate_environment i =
     bind_act (lift_result (ensure_docker_available (ci_env i) (ci_shell i))) (\<lambda>_.
       return_act (compose_supported_topology (ci_topology i)))"

section \<open>Readiness and clients\<close>

definition compose_runner_host :: "env \<Rightarrow> string" where
  "compose_runner_host ev = unwrap_or (ev ''COMPOSE_RUNNER_HOST'') ''127.0.0.1''"

definition default_wait :: duration where "default_wait = from_secs 180"
definition compose_poll_interval :: duration where "compose_poll_interval = from_millis 250"

definition compose_http_timeout :: "env \<Rightarrow> duration" where
  "compose_http_timeout ev =
     (case Option.bind (ev ''COMPOSE_RUNNER_HTTP_TIMEOUT_SECS'') (parse_uint u64_max) of
        Some n \<Rightarrow> from_secs n
      | None \<Rightarrow> default_wait)"

definition wait_for_nodes :: "compose_inputs \<Rightarrow> u16 list \<Rightarrow> (http_readiness_error + unit) option" where
  "wait_for_nodes i ports =
     Option.bind (adjust_timeout (ci_env i) (compose_http_timeout (ci_env i))) (\<lambda>limit.
       wait_for_http_ports_with_host (ci_first_err i) (ci_info_path i) (ci_net i) ports node_role
         (compose_runner_host (ci_env i)) limit compose_poll_interval)"

definition ensure_nodes_ready_with_ports :: "compose_inputs \<Rightarrow> u16 list \<Rightarrow> (stack_readiness_error + unit) option" where
  "ensure_nodes_ready_with_ports i ports =
     (if ports = [] then Some (Ok ()) else map_option (map_err SrHttp) (wait_for_nodes i ports))"

definition compose_readiness_url :: "compose_inputs \<Rightarrow> string \<Rightarrow> u16 \<Rightarrow> stack_readiness_error + url" where
  "compose_readiness_url i role port =
     map_err (SrEndpoint role port) (ci_parse_url i (host_url (compose_runner_host (ci_env i)) port))"

definition ensure_remote_readiness_with_ports ::
  "compose_inputs \<Rightarrow> node_host_ports list \<Rightarrow> (stack_readiness_error + unit) option" where
  "ensure_remote_readiness_with_ports i mapping =
     (case collect_results (\<lambda>ports. compose_readiness_url i node_role (nhp_api ports)) mapping of
        Inl e \<Rightarrow> Some (Err e)
      | Inr urls \<Rightarrow> map_option (map_err SrRemote) (wait_remote_readiness (ci_env i) (ci_topology i) urls (ci_readiness i)))"

definition wait_all :: "compose_inputs \<Rightarrow> node_host_ports list \<Rightarrow> stack_environment \<Rightarrow> unit compose_act" where
  "wait_all i mapping c =
     bind_act (step_or_fail i c (map_option (map_err CeReadiness) (ensure_nodes_ready_with_ports i (map nhp_api mapping)))) (\<lambda>_.
       step_or_fail i c (map_option (map_err CeReadiness) (ensure_remote_readiness_with_ports i mapping)))"

text \<open>Without readiness checks the stack gets a pause, which has no outcome.\<close>

definition wait_for_readiness_or_grace_period ::
  "compose_inputs \<Rightarrow> node_host_ports list \<Rightarrow> stack_environment \<Rightarrow> unit compose_act" where
  "wait_for_readiness_or_grace_period i mapping c =
     (if ci_readiness_checks i then wait_all i mapping c else return_act (Ok ()))"

definition api_client_from_host_ports ::
  "compose_inputs \<Rightarrow> string \<Rightarrow> node_host_ports \<Rightarrow> string \<Rightarrow> compose_client_error + api_urls" where
  "api_client_from_host_ports i role ports host =
     and_then (map_err (CcEndpoint role ''api'' (nhp_api ports)) (ci_parse_url i (host_url host (nhp_api ports)))) (\<lambda>b.
     and_then (map_err (CcEndpoint role ''testing'' (nhp_testing ports)) (ci_parse_url i (host_url host (nhp_testing ports)))) (\<lambda>t.
       Ok (b, Some t)))"

definition build_node_clients_with_ports ::
  "compose_inputs \<Rightarrow> node_host_ports list \<Rightarrow> string \<Rightarrow> compose_client_error + api_urls list" where
  "build_node_clients_with_ports i mapping host =
     collect_results (\<lambda>(_, ports). api_client_from_host_ports i node_role ports host) (zip (gt_nodes (ci_topology i)) mapping)"

definition block_feed_max_attempts :: nat where "block_feed_max_attempts = 5"

definition compose_block_feed_with :: "compose_inputs \<Rightarrow> nat \<Rightarrow> api_urls list \<Rightarrow> compose_runner_error + block_scanner" where
  "compose_block_feed_with i attempt clients =
     and_then (ok_or CeBlockFeedMissing (random_node (ci_draw i attempt) [0..<length clients])) (\<lambda>k.
       map_err CeBlockFeed (spawn_block_feed (ci_feed i attempt (clients ! k))))"

fun block_feed_attempts ::
  "compose_inputs \<Rightarrow> api_urls list \<Rightarrow> nat list \<Rightarrow> compose_runner_error option \<Rightarrow> compose_runner_error + block_scanner" where
  "block_feed_attempts i clients [] last_err =
     Err (unwrap_or last_err (CeInternalInvariant ''block feed retry exhausted without capturing an error''))"
| "block_feed_attempts i clients (attempt # attempts) last_err =
     (case compose_block_feed_with i attempt clients of
        Inr feed \<Rightarrow> Ok feed
      | Inl e \<Rightarrow> block_feed_attempts i clients attempts (Some e))"

definition spawn_block_feed_with_retry :: "compose_inputs \<Rightarrow> api_urls list \<Rightarrow> compose_runner_error + block_scanner" where
  "spawn_block_feed_with_retry i clients = block_feed_attempts i clients [1..<Suc block_feed_max_attempts] None"

section \<open>Phases of a deployment\<close>

record compose_guard =
  cg_environment :: compose_cleanup
  cg_block_feed :: bool

definition compose_guard_cleanup :: "compose_inputs \<Rightarrow> compose_guard \<Rightarrow> log" where
  "compose_guard_cleanup i g =
     (if cg_block_feed g then [Release BlockFeedTask] else []) @ compose_cleanup_run i (cg_environment g) []"

record compose_runner =
  cpr_runner :: runner
  cpr_guard :: compose_guard
  cpr_node_clients :: "api_urls list"
  cpr_telemetry :: metrics
  cpr_node_control :: "compose_node_control option"

definition port_manager_prepare :: "compose_inputs \<Rightarrow> stack_environment \<Rightarrow> node_host_ports list compose_act" where
  "port_manager_prepare i c =
     step_or_fail i c (discover_host_ports (ci_env i) (ci_shell i) (ci_show_status i)
       (se_compose_path c, se_project_name c, se_root c) (gt_nodes (ci_topology i)))"

text \<open>Without a teardown: the telemetry error leaves the environment to its destructor.\<close>

definition telemetry_or_drop :: "compose_inputs \<Rightarrow> stack_environment \<Rightarrow> observability_inputs \<Rightarrow> metrics compose_act" where
  "telemetry_or_drop i c observability w =
     (case telemetry_handle (ci_metrics_client i) observability of
        Inl e \<Rightarrow> (Some (Err (CeTelemetry e)), stack_drop c w)
      | Inr m \<Rightarrow> (Some (Ok m), w))"

definition maybe_node_control :: "compose_inputs \<Rightarrow> stack_environment \<Rightarrow> compose_node_control option" where
  "maybe_node_control i c =
     (if ci_requires_control i
      then Some \<lparr>cnc_compose_file = se_compose_path c, cnc_project_name = se_project_name c\<rparr> else None)"

definition start_block_feed :: "compose_inputs \<Rightarrow> stack_environment \<Rightarrow> api_urls list \<Rightarrow> block_scanner compose_act" where
  "start_block_feed i c clients =
     bind_act (step_or_fail i c (Some (spawn_block_feed_with_retry i clients))) (\<lambda>feed w.
       (Some (Ok feed), w @ [Acquire BlockFeedTask]))"

text \<open>The clean-up guard takes the environment over; should the context not be built, it is dropped.\<close>

definition compose_finish ::
  "compose_inputs \<Rightarrow> stack_environment \<Rightarrow> api_urls list \<Rightarrow> metrics \<Rightarrow> compose_runner compose_act" where
  "compose_finish i c clients telemetry w =
     (case compose_into_cleanup c of
        None \<Rightarrow> (None, stack_drop c w)
      | Some (Inl e) \<Rightarrow> (Some (Err e), stack_drop c w)
      | Some (Inr rc) \<Rightarrow>
          (case run_context_new (ci_topology i) (ci_duration i) (ci_requires_control i) of
             None \<Rightarrow> (None, handle_drop (cc_cfgsync rc) w)
           | Some ctx \<Rightarrow>
               (Some (Ok \<lparr>cpr_runner = runner_new ctx True, cpr_guard = \<lparr>cg_environment = rc, cg_block_feed = True\<rparr>,
                  cpr_node_clients = clients, cpr_telemetry = telemetry, cpr_node_control = maybe_node_control i c\<rparr>), w)))"

definition compose_phases :: "compose_inputs \<Rightarrow> observability_inputs \<Rightarrow> stack_environment \<Rightarrow> compose_runner compose_act" where
  "compose_phases i observability c =
     bind_act (port_manager_prepare i c) (\<lambda>ports.
     bind_act (wait_for_readiness_or_grace_period i ports c) (\<lambda>_.
     bind_act (step_or_fail i c (Some (map_err CeNodeClients (build_node_clients_with_ports i ports (compose_runner_host (ci_env i)))))) (\<lambda>clients.
     bind_act (telemetry_or_drop i c observability) (\<lambda>telemetry.
     bind_act (start_block_feed i c clients) (\<lambda>_.
       compose_finish i c clients telemetry)))))"

definition compose_orchestrate :: "compose_inputs \<Rightarrow> compose_runner compose_act" where
  "compose_orchestrate i =
     bind_act (validate_environment i) (\<lambda>_.
     bind_act (return_act (map_err CeTelemetry
         (resolve_observability_inputs (ci_parse_url i) (ci_env i) (ci_capability i)))) (\<lambda>observability.
     bind_act (prepare_environment i (oi_metrics_otlp_ingest_url observability)) (\<lambda>c.
       compose_phases i observability c)))"

definition compose_deploy :: "compose_inputs \<Rightarrow> (compose_runner_error + compose_runner) option \<times> log" where
  "compose_deploy i = compose_orchestrate i []"

definition compose_release :: "compose_inputs \<Rightarrow> compose_runner \<Rightarrow> log" where
  "compose_release i d = compose_guard_cleanup i (cpr_guard d)"

section \<open>Resources over a deployment\<close>

definition compose_supported :: "compose_inputs \<Rightarrow> bool" where
  "compose_supported i \<longleftrightarrow> \<not> should_preserve (ci_env i) \<and> ci_down_runtime i \<and> picks_one (ci_first_err i) \<and>
     adjust_timeout (ci_env i) (compose_http_timeout (ci_env i)) \<noteq> None \<and>
     run_context_new (ci_topology i) (ci_duration i) (ci_requires_control i) \<noteq> None"

fun compose_leaky :: "compose_runner_error \<Rightarrow> bool" where
  "compose_leaky (CeCompose e) = True"
| "compose_leaky (CeConfig (CfCfgsyncStart port e)) = True"
| "compose_leaky (CeTelemetry e) = True"
| "compose_leaky _ = False"

definition project_of :: "compose_inputs \<Rightarrow> string" where
  "project_of i = ''nomos-compose-'' @ ci_project_uuid i"

text \<open>A stack is up: the environment holds all that is needed to tear it down.\<close>

definition stack_owned :: "compose_inputs \<Rightarrow> stack_environment \<Rightarrow> log \<Rightarrow> bool" where
  "stack_owned i c w \<longleftrightarrow> (\<exists>h. se_cfgsync_handle c = Some h \<and> \<not> ch_stopped h \<and> se_workspace c \<noteq> None \<and>
     se_compose_path c \<noteq> [] \<and> se_project_name c = project_of i \<and>
     held w = {ComposeStack (project_of i), CfgsyncContainer (ch_name h)})"

definition compose_failure :: "compose_inputs \<Rightarrow> compose_runner_error \<Rightarrow> log \<Rightarrow> bool" where
  "compose_failure i e w \<longleftrightarrow> (compose_leaky e \<or> held w = {}) \<and>
     ((\<exists>m. e = CeTelemetry m) \<longrightarrow> is_ok (resolve_observability_inputs (ci_parse_url i) (ci_env i) (ci_capability i)) \<longrightarrow>
        held w = {ComposeStack (project_of i)})"

lemma project_nonempty [simp]: "project_of i \<noteq> []"
  by (simp add: project_of_def)

lemma handle_shutdown_held [simp]:
  "\<not> ch_stopped h \<Longrightarrow> held (snd (handle_shutdown h w)) = held w - {CfgsyncContainer (ch_name h)}"
  by (simp add: handle_shutdown_def)

text \<open>Clean-up as a list of events: what it appends does not depend on the log.\<close>

lemma compose_cleanup_held:
  assumes "compose_supported i" "cc_cfgsync rc = Some h" "\<not> ch_stopped h"
  shows "held (compose_cleanup_run i rc w) = held w - {ComposeStack (cc_project_name rc), CfgsyncContainer (ch_name h)}"
    "compose_cleanup_run i rc w = w @ compose_cleanup_run i rc []"
  using assms
  by (auto simp: compose_supported_def compose_cleanup_run_def shutdown_cfgsync_def teardown_compose_def
      run_compose_down_blocking_def handle_shutdown_def held_append)

lemma owned_cleanup:
  assumes "stack_owned i c w"
  obtains rc h where "compose_into_cleanup c = Some (Ok rc)" "cc_cfgsync rc = Some h" "\<not> ch_stopped h"
    "cc_project_name rc = project_of i" "held w = {ComposeStack (project_of i), CfgsyncContainer (ch_name h)}"
    "compose_take_cleanup c = (Some (Ok rc), c\<lparr>se_workspace := None, se_cfgsync_handle := None\<rparr>)"
  using assms
  by (auto simp: stack_owned_def compose_into_cleanup_def compose_take_cleanup_def compose_cleanup_new_def)

lemma fail_step_clean:
  assumes "compose_supported i" "stack_owned i c w"
  shows "\<exists>w'. fail_step i c e w = (Some (Err e), w') \<and> held w' = {}"
proof -
  obtain rc h where "cc_cfgsync rc = Some h" "\<not> ch_stopped h" "cc_project_name rc = project_of i"
    "held w = {ComposeStack (project_of i), CfgsyncContainer (ch_name h)}"
    "compose_take_cleanup c = (Some (Ok rc), c\<lparr>se_workspace := None, se_cfgsync_handle := None\<rparr>)"
    using assms(2) by (rule owned_cleanup)
  with compose_cleanup_held(1) [OF assms(1)] show ?thesis
    by (simp add: fail_step_def stack_fail_def stack_drop_def handle_drop_def)
qed

lemma step_or_fail_cases:
  assumes "compose_supported i" "stack_owned i c w" "r \<noteq> None"
  obtains (failed) e w' where "step_or_fail i c r w = (Some (Err e), w')" "r = Some (Err e)" "held w' = {}"
    | (passed) x where "step_or_fail i c r w = (Some (Ok x), w)" "r = Some (Ok x)"
proof -
  obtain x where r: "r = Some x" using assms(3) by blast
  show thesis
  proof (cases x)
    case (Inl e)
    obtain w' where "step_or_fail i c r w = (Some (Err e), w')" "held w' = {}"
      using fail_step_clean [OF assms(1,2), of e] r Inl by (auto simp: step_or_fail_def)
    then show thesis using r Inl by (intro failed) simp_all
  next
    case (Inr y)
    then show thesis using r by (intro passed) (simp_all add: step_or_fail_def)
  qed
qed

section \<open>The commands always return\<close>

lemma timeouts_constant:
  "\<exists>d. adjust_timeout ev compose_up_timeout = Some d" "\<exists>d. adjust_timeout ev cfgsync_start_timeout = Some d"
  "\<exists>d. adjust_timeout ev docker_info_timeout = Some d" "\<exists>d. adjust_timeout ev image_inspect_timeout = Some d"
  "\<exists>d. adjust_timeout ev image_build_timeout = Some d" "\<exists>d. adjust_timeout ev compose_port_discovery_timeout = Some d"
proof -
  have "\<exists>d'. adjust_timeout ev d = Some d'" if "d \<le> from_secs 600" for d using adjust_constant [OF that] by blast
  then show "\<exists>d. adjust_timeout ev compose_up_timeout = Some d" "\<exists>d. adjust_timeout ev cfgsync_start_timeout = Some d"
    "\<exists>d. adjust_timeout ev docker_info_timeout = Some d" "\<exists>d. adjust_timeout ev image_inspect_timeout = Some d"
    "\<exists>d. adjust_timeout ev image_build_timeout = Some d" "\<exists>d. adjust_timeout ev compose_port_discovery_timeout = Some d"
    by (simp_all add: compose_up_timeout_def cfgsync_start_timeout_def docker_info_timeout_def image_inspect_timeout_def
        image_build_timeout_def compose_port_discovery_timeout_def duration_defs)
qed

lemma ensure_compose_image_returns: "\<exists>r. ensure_compose_image ev arch manifest_dir sh = Some r"
  using timeouts_constant(4,5) [of ev]
  by (auto simp: ensure_compose_image_def ensure_image_present_def docker_image_exists_def build_local_image_def
      split: prod.splits sum.splits option.splits)

text \<open>The steps before and after have no telemetry errors.\<close>

lemma docker_image_exists_error: "docker_image_exists ev sh img = Some (Err e) \<Longrightarrow> e \<noteq> CeTelemetry m"
  by (auto simp: docker_image_exists_def timed_def split: sum.splits if_splits)

lemma build_local_image_error:
  assumes "build_local_image ev arch manifest_dir sh img platform = Some (Err e)"
  shows "e \<noteq> CeTelemetry m"
proof (cases "repository_root ev manifest_dir")
  case (Inr r)
  with assms show ?thesis by (auto simp: build_local_image_def timed_def split: sum.splits if_splits)
qed (use assms in \<open>auto simp: build_local_image_def\<close>)

lemma ensure_compose_image_error: "ensure_compose_image ev arch manifest_dir sh = Some (Err e) \<Longrightarrow> e \<noteq> CeTelemetry m"
  by (auto simp: ensure_compose_image_def ensure_image_present_def docker_image_exists_error build_local_image_error
      split: prod.splits sum.splits option.splits if_splits)

lemma resolve_service_port_error: "resolve_service_port ev sh show_status st service port = Some (Err e) \<Longrightarrow> e \<noteq> CeTelemetry m"
  by (cases "cr_result (sh (port_command st service port))")
    (auto simp: resolve_service_port_def Let_def timed_def split: option.splits if_splits)

lemma discover_host_ports_error: "discover_host_ports ev sh show_status st ns = Some (Err e) \<Longrightarrow> e \<noteq> CeTelemetry m"
proof (induction ns)
  case (Cons n ns)
  then show ?case
    by (auto simp: Let_def result_iffs resolve_service_port_error split: option.splits sum.splits)
qed simp

lemma resolve_service_port_returns: "\<exists>r. resolve_service_port ev sh show_status st service port = Some r"
  using timeouts_constant(6) [of ev] by (auto simp: resolve_service_port_def)

lemma discover_host_ports_returns:
  "\<exists>r. discover_host_ports ev sh show_status st ns = Some r \<and> (\<forall>ports. r = Ok ports \<longrightarrow> length ports = length ns)"
proof (induction ns)
  case (Cons n ns)
  let ?resolve = "resolve_service_port ev sh show_status st (node_instance_name (gn_index n))"
  obtain a b where "?resolve (api_port n) = Some a" "?resolve (testing_http_port n) = Some b"
    using resolve_service_port_returns by metis
  with Cons show ?case by (auto simp: Let_def result_iffs split: sum.splits)
qed simp

lemma readiness_steps_return:
  assumes "compose_supported i" "length mapping = length (gt_nodes (ci_topology i))"
  shows "ensure_nodes_ready_with_ports i ports \<noteq> None" "ensure_remote_readiness_with_ports i mapping \<noteq> None"
proof -
  obtain limit where limit: "adjust_timeout (ci_env i) (compose_http_timeout (ci_env i)) = Some limit"
    using assms(1) by (auto simp: compose_supported_def)
  have poll: "0 < compose_poll_interval" by (simp add: compose_poll_interval_def duration_defs)
  have pick: "picks_one (ci_first_err i)" using assms(1) by (simp add: compose_supported_def)
  have "wait_for_http_ports_with_host (ci_first_err i) (ci_info_path i) (ci_net i) ports node_role
      (compose_runner_host (ci_env i)) limit compose_poll_interval \<noteq> None"
    by (rule http_wait_outcome [OF poll pick, of "ci_info_path i" "ci_net i" ports node_role "compose_runner_host (ci_env i)" limit]) simp_all
  with limit show "ensure_nodes_ready_with_ports i ports \<noteq> None"
    by (simp add: ensure_nodes_ready_with_ports_def wait_for_nodes_def)
  show "ensure_remote_readiness_with_ports i mapping \<noteq> None"
  proof (cases "collect_results (\<lambda>ports. compose_readiness_url i node_role (nhp_api ports)) mapping")
    case (Inr urls)
    then have "length urls = length (gt_nodes (ci_topology i))" using assms(2) by (auto dest: collect_results_length)
    with readiness_returns [of urls "ci_topology i" "ci_env i" "ci_readiness i"] Inr show ?thesis
      by (auto simp: ensure_remote_readiness_with_ports_def)
  qed (simp add: ensure_remote_readiness_with_ports_def)
qed

section \<open>The contract of deployers\<close>

lemma ends_in_bind_lift:
  assumes "r \<noteq> None" "\<And>e. r = Some (Inl e) \<Longrightarrow> E e w" "\<And>x. r = Some (Inr x) \<Longrightarrow> ends_in (f x) w E Q"
  shows "ends_in (bind_act (lift_result r) f) w E Q"
proof -
  obtain x where "r = Some x" using assms(1) by blast
  with assms(2,3) show ?thesis by (cases x) (simp_all add: ends_in_def bind_act_def lift_result_def)
qed

lemma ends_in_bind_step:
  assumes "compose_supported i" "stack_owned i c w" "r \<noteq> None"
    and "\<And>e w'. r = Some (Err e) \<Longrightarrow> held w' = {} \<Longrightarrow> E e w'" "\<And>x. r = Some (Ok x) \<Longrightarrow> ends_in (f x) w E Q"
  shows "ends_in (bind_act (step_or_fail i c r) f) w E Q"
  using assms(1-3)
proof (cases rule: step_or_fail_cases)
  case (failed e w')
  with assms(4) [of e w'] show ?thesis by (simp add: ends_in_def bind_act_def)
next
  case (passed x)
  with assms(5) [of x] show ?thesis by (simp add: ends_in_def bind_act_def)
qed

lemma ends_in_launch:
  assumes "\<And>e w'. E (CeConfig (CfCfgsyncStart port e)) w'"
    and "\<And>h. \<not> ch_stopped h \<Longrightarrow> ends_in (f h) (w @ [Acquire (CfgsyncContainer (ch_name h))]) E Q"
  shows "ends_in (bind_act (launch_cfgsync i path port) f) w E Q"
proof (cases "text_parent path")
  case None
  with assms(1) show ?thesis by (simp add: ends_in_def bind_act_def launch_cfgsync_def)
next
  case (Some dir)
  let ?name = "''nomos-cfgsync-'' @ ci_container_uuid i"
  obtain limit where limit: "adjust_timeout (ci_env i) cfgsync_start_timeout = Some limit" using timeouts_constant(2) by blast
  define r where "r = run_docker_command (ci_shell i (cfgsync_run_command (ci_env i) (ci_fs i) dir port ?name)) limit ''docker run cfgsync server''"
  show ?thesis
  proof (cases r)
    case (Inl e)
    with assms(1) Some limit show ?thesis by (simp add: ends_in_def bind_act_def launch_cfgsync_def Let_def r_def)
  next
    case (Inr u)
    with assms(2) [of "\<lparr>ch_name = ?name, ch_stopped = False\<rparr>"] Some limit show ?thesis
      by (simp add: ends_in_def bind_act_def launch_cfgsync_def Let_def r_def)
  qed
qed

lemma bring_up_stack_result:
  assumes "\<not> ch_stopped h"
  obtains (failed) e h' w' where "bring_up_stack i compose_path project dir h w = (Some (Err (CeCompose e)), h', w')"
    | (up) "bring_up_stack i compose_path project dir h w = (Some (Ok ()), h, w @ [Acquire (ComposeStack project)])"
proof -
  obtain limit where l: "adjust_timeout (ci_env i) compose_up_timeout = Some limit" using timeouts_constant(1) by blast
  let ?r = "run_compose_command (ci_shell i (docker_command (compose_args compose_path project [''up'', ''-d'']) (Some dir))) limit ''docker compose up''"
  from l have "compose_up (ci_env i) (ci_shell i) compose_path project dir = Some ?r" by (simp add: compose_up_def)
  moreover obtain h' w' where "handle_shutdown h (if ci_stack_left i then w @ [Acquire (ComposeStack project)] else w) = (h', w')"
    by (cases "handle_shutdown h (if ci_stack_left i then w @ [Acquire (ComposeStack project)] else w)")
  ultimately show thesis
    using failed up by (cases ?r) (auto simp: bring_up_stack_def)
qed

lemma write_compose_artifacts_path:
  "write_compose_artifacts ev fs ws t port = Ok compose_path \<Longrightarrow> compose_path \<noteq> []"
  by (auto simp: write_compose_artifacts_def Let_def result_iffs path_join_def split: if_splits)

lemma start_stack_result:
  assumes "\<not> ch_stopped h" "path \<noteq> []" "held w = {CfgsyncContainer (ch_name h)}"
  shows "ends_in (start_stack i ws path h) w (compose_failure i) (stack_owned i)"
  using assms(1)
proof (cases rule: bring_up_stack_result [where i = i and compose_path = path and project = "project_of i" and dir = "ws_root ws" and w = w])
  case (failed e h' w')
  then show ?thesis
    by (simp add: ends_in_def start_stack_def project_of_def Let_def compose_failure_def split: prod.split)
next
  case up
  with assms show ?thesis
    by (simp add: ends_in_def start_stack_def from_workspace_def stack_owned_def project_of_def Let_def)
qed

lemma prepare_environment_result:
  "ends_in (prepare_environment i otlp) [] (compose_failure i) (stack_owned i)"
  unfolding prepare_environment_def
proof (intro ends_in_bind_result ends_in_bind_lift ends_in_launch)
  show "ensure_compose_image (ci_env i) (cf_arch (ci_fs i)) (cf_manifest_dir (ci_fs i)) (ci_shell i) \<noteq> None"
    using ensure_compose_image_returns by auto
next
  fix ws port path and h :: cfgsync_handle
  assume "write_compose_artifacts (ci_env i) (ci_fs i) ws (ci_topology i) port = Ok path" "\<not> ch_stopped h"
  then show "ends_in (start_stack i ws path h) ([] @ [Acquire (CfgsyncContainer (ch_name h))]) (compose_failure i) (stack_owned i)"
    using write_compose_artifacts_path by (intro start_stack_result) (simp_all add: held_def)
next
  fix e
  assume "ensure_compose_image (ci_env i) (cf_arch (ci_fs i)) (cf_manifest_dir (ci_fs i)) (ci_shell i) = Some (Err e)"
  then show "compose_failure i e []" using ensure_compose_image_error by (simp add: compose_failure_def)
qed (auto simp: compose_failure_def)

lemma ends_in_step:
  assumes "compose_supported i" "stack_owned i c w" "r \<noteq> None"
    and "\<And>e w'. r = Some (Err e) \<Longrightarrow> held w' = {} \<Longrightarrow> E e w'" "\<And>x. r = Some (Ok x) \<Longrightarrow> Q x w"
  shows "ends_in (step_or_fail i c r) w E Q"
  using assms(1-3)
proof (cases rule: step_or_fail_cases)
  case (failed e w')
  with assms(4) [of e w'] show ?thesis by (simp add: ends_in_def)
next
  case (passed x)
  with assms(5) [of x] show ?thesis by (simp add: ends_in_def)
qed

lemma ends_in_wait_all:
  assumes "compose_supported i" "stack_owned i c w" "length mapping = length (gt_nodes (ci_topology i))"
    and "\<And>e w'. held w' = {} \<Longrightarrow> E (CeReadiness e) w'"
  shows "ends_in (wait_all i mapping c) w E (\<lambda>_ w'. w' = w)"
proof -
  note returns = readiness_steps_return [OF assms(1,3)]
  have err: "E e w'" if "map_option (map_err CeReadiness) r = Some (Err e)" "held w' = {}" for r e w'
    using that assms(4) by (auto simp: result_iffs)
  show ?thesis
    unfolding wait_all_def
    by (intro ends_in_bind_step ends_in_step assms(1,2)) (use returns in \<open>auto intro: err\<close>)
qed

lemma ends_in_readiness:
  assumes "compose_supported i" "stack_owned i c w" "length mapping = length (gt_nodes (ci_topology i))"
    and "\<And>e w'. held w' = {} \<Longrightarrow> E (CeReadiness e) w'" "ends_in (f ()) w E Q"
  shows "ends_in (bind_act (wait_for_readiness_or_grace_period i mapping c) f) w E Q"
proof (cases "ci_readiness_checks i")
  case True
  have "ends_in (bind_act (wait_all i mapping c) f) w E Q"
    by (rule ends_in_bind [OF ends_in_wait_all [where E = E, OF assms(1-4)]]) (use assms(5) in simp_all)
  with True show ?thesis by (simp add: wait_for_readiness_or_grace_period_def)
qed (use assms(5) in \<open>simp add: wait_for_readiness_or_grace_period_def ends_in_def\<close>)

lemma telemetry_or_drop_held:
  "stack_owned i c w \<Longrightarrow> held (stack_drop c w) = {ComposeStack (project_of i)}"
  by (clarsimp simp: stack_owned_def stack_drop_def handle_drop_def) blast

lemma ends_in_telemetry:
  assumes "\<And>e. E (CeTelemetry e) (stack_drop c w)" "\<And>m. telemetry_handle (ci_metrics_client i) obs = Ok m \<Longrightarrow> ends_in (f m) w E Q"
  shows "ends_in (bind_act (telemetry_or_drop i c obs) f) w E Q"
  using assms by (cases "telemetry_handle (ci_metrics_client i) obs") (simp_all add: ends_in_def bind_act_def telemetry_or_drop_def)

lemma block_feed_error:
  "block_feed_attempts i clients attempts le = Err e \<Longrightarrow> \<forall>m. le \<noteq> Some (CeTelemetry m) \<Longrightarrow> e \<noteq> CeTelemetry m"
proof (induction attempts arbitrary: le)
  case Nil
  then show ?case by (cases le) auto
next
  case (Cons a as)
  have "compose_block_feed_with i a clients = Err e' \<Longrightarrow> e' \<noteq> CeTelemetry m" for e' m
    by (auto simp: compose_block_feed_with_def result_iffs)
  with Cons show ?case by (auto split: sum.splits)
qed

lemma ends_in_feed:
  assumes "compose_supported i" "stack_owned i c w" "\<And>e w'. held w' = {} \<Longrightarrow> \<forall>m. e \<noteq> CeTelemetry m \<Longrightarrow> E e w'"
    and "\<And>feed. ends_in (f feed) (w @ [Acquire BlockFeedTask]) E Q"
  shows "ends_in (bind_act (start_block_feed i c clients) f) w E Q"
proof -
  have "ends_in (start_block_feed i c clients) w E (\<lambda>_ w'. w' = w @ [Acquire BlockFeedTask])"
    unfolding start_block_feed_def
    by (intro ends_in_bind_step assms)
      (use block_feed_error [of i clients _ None] in \<open>auto simp: ends_in_def spawn_block_feed_with_retry_def\<close>)
  then show ?thesis by (rule ends_in_bind) (use assms(4) in simp)
qed

definition compose_done :: "compose_inputs \<Rightarrow> compose_runner \<Rightarrow> log \<Rightarrow> bool" where
  "compose_done i d w \<longleftrightarrow> held (w @ compose_release i d) = {} \<and> (\<exists>ctx. cpr_runner d = runner_new ctx True)"

lemma compose_finish_result:
  assumes "compose_supported i" "stack_owned i c w"
  shows "ends_in (compose_finish i c clients telemetry) (w @ [Acquire BlockFeedTask]) E (compose_done i)"
proof -
  obtain rc h where rc: "compose_into_cleanup c = Some (Ok rc)" "cc_cfgsync rc = Some h" "\<not> ch_stopped h"
    "cc_project_name rc = project_of i" "held w = {ComposeStack (project_of i), CfgsyncContainer (ch_name h)}"
    using assms(2) by (rule owned_cleanup)
  obtain ctx where ctx: "run_context_new (ci_topology i) (ci_duration i) (ci_requires_control i) = Some ctx"
    using assms(1) by (auto simp: compose_supported_def)
  note run = compose_cleanup_held [OF assms(1) rc(2,3)]
  have "held ((w @ [Acquire BlockFeedTask, Release BlockFeedTask]) @ compose_cleanup_run i rc []) = {}"
    unfolding run(2) [symmetric] run(1) using rc(4,5) by (simp add: held_append)
  with rc(1) ctx show ?thesis
    by (auto simp: ends_in_def compose_finish_def compose_done_def compose_release_def compose_guard_cleanup_def)
qed

lemma compose_phases_result:
  assumes "compose_supported i" "stack_owned i c w"
  shows "ends_in (compose_phases i obs c) w (compose_failure i) (compose_done i)"
proof -
  obtain ports where ports: "discover_host_ports (ci_env i) (ci_shell i) (ci_show_status i)
      (se_compose_path c, se_project_name c, se_root c) (gt_nodes (ci_topology i)) = Some ports"
    "\<forall>ps. ports = Ok ps \<longrightarrow> length ps = length (gt_nodes (ci_topology i))"
    using discover_host_ports_returns by blast
  have clean: "compose_failure i e w'" if "held w' = {}" "\<forall>m. e \<noteq> CeTelemetry m" for e w'
    using that by (simp add: compose_failure_def)
  show ?thesis
    unfolding compose_phases_def port_manager_prepare_def ports
    by (intro ends_in_bind_step ends_in_readiness ends_in_telemetry ends_in_feed compose_finish_result assms)
      (use ports discover_host_ports_error telemetry_or_drop_held [OF assms(2)] in
        \<open>auto intro!: clean simp: result_iffs compose_failure_def\<close>)
qed

lemma compose_deploy_result: 
  assumes "compose_supported i"
  shows "ends_in (compose_orchestrate i) [] (compose_failure i) (compose_done i)"
proof -
  obtain limit where l: "adjust_timeout (ci_env i) docker_info_timeout = Some limit" using timeouts_constant(3) by blast
  have validate: "ends_in (validate_environment i) [] (compose_failure i) (\<lambda>_ w. w = [])"
    unfolding validate_environment_def
    by (intro ends_in_bind_lift ends_in_return)
      (use l in \<open>auto simp: ensure_docker_available_def compose_supported_topology_def compose_failure_def Let_def
        split: option.splits sum.splits if_splits\<close>)
  show ?thesis
    unfolding compose_orchestrate_def
  proof (rule ends_in_bind [OF validate])
    fix u and w :: log
    assume w: "w = []"
    show "ends_in (bind_act (return_act (map_err CeTelemetry (resolve_observability_inputs (ci_parse_url i) (ci_env i) (ci_capability i))))
        (\<lambda>observability. bind_act (prepare_environment i (oi_metrics_otlp_ingest_url observability)) (compose_phases i observability)))
        w (compose_failure i) (compose_done i)"
      unfolding w
      by (intro ends_in_bind_result ends_in_bind [OF prepare_environment_result] compose_phases_result assms)
        (auto simp: compose_failure_def)
  qed
qed

interpretation compose_deployer: deployer compose_deploy compose_release compose_supported compose_leaky
proof
  note result = ends_in_cases [OF compose_deploy_result]
  show "fst (compose_deploy i) \<noteq> None" if "compose_supported i" for i
    using that by (rule result) (simp_all add: compose_deploy_def)
  show "held (evs @ compose_release i g) = {}" if "compose_supported i" "compose_deploy i = (Some (Ok g), evs)" for i g evs
    using that(1) by (rule result) (use that in \<open>simp_all add: compose_deploy_def compose_done_def\<close>)
  show "held evs = {}" if "compose_supported i" "compose_deploy i = (Some (Err e), evs)" "\<not> compose_leaky e" for i e evs
    using that(1) by (rule result) (use that in \<open>simp_all add: compose_deploy_def compose_failure_def\<close>)
qed

section \<open>Properties\<close>


text \<open>
  Property C40.  When the observability settings are well-formed but the telemetry handle cannot be
  built from them, the deployment fails and leaves the running stack behind: the environment is
  dropped, which stops the cfgsync container only.
\<close>

theorem telemetry_failure_leaves_stack:
  assumes "compose_supported i" "is_ok (resolve_observability_inputs (ci_parse_url i) (ci_env i) (ci_capability i))"
    and "compose_deploy i = (Some (Err (CeTelemetry e)), evs)"
  shows "held evs = {ComposeStack (''nomos-compose-'' @ ci_project_uuid i)}"
  using compose_deploy_result [OF assms(1)]
  by (rule ends_in_cases) (use assms in \<open>auto simp: compose_deploy_def compose_failure_def project_of_def\<close>)

definition demo_compose :: "generated_topology \<Rightarrow> observability_capability option \<Rightarrow> compose_inputs" where
  "demo_compose t capability =
     \<lparr>ci_env = Map.empty, ci_topology = t, ci_duration = from_secs 60,
      ci_capability = capability, ci_requires_control = True, ci_readiness_checks = False, ci_parse_url = Ok, ci_fs = demo_compose_fs,
      ci_shell = demo_port_shell, ci_show_status = (\<lambda>_. []), ci_port = Ok 4400, ci_container_uuid = ''1'', ci_project_uuid = ''1'',
      ci_container_left = True, ci_stack_left = True, ci_down_runtime = True, ci_first_err = hd, ci_info_path = ''/cryptarchia/info'',
      ci_net = (\<lambda>_ _ _. (0, True)), ci_readiness = (\<lambda>_. (0, \<lambda>_. Err ''down'')), ci_metrics_client = (\<lambda>_. Err ''refused''),
      ci_draw = (\<lambda>_ _. 0), ci_feed = (\<lambda>_ _. (Err ''down'', \<lambda>_. Err ''down''))\<rparr>"

lemma demo_compose_sel [simp]:
  "ci_env (demo_compose t cap) = Map.empty" "ci_topology (demo_compose t cap) = t" "ci_readiness_checks (demo_compose t cap) = False"
  "ci_parse_url (demo_compose t cap) = Ok" "ci_fs (demo_compose t cap) = demo_compose_fs" "ci_shell (demo_compose t cap) = demo_port_shell"
  "ci_port (demo_compose t cap) = Ok 4400" "ci_metrics_client (demo_compose t cap) = (\<lambda>_. Err ''refused'')" "ci_project_uuid (demo_compose t cap) = ''1''"
  "ci_capability (demo_compose t cap) = cap"
  by (simp_all add: demo_compose_def)

lemma demo_timeout [simp]: "adjust_timeout Map.empty d = Some d"
  by (simp add: adjust_timeout_def slow_test_env_def)

lemma demo_docker [simp]:
  "timed limit (demo_port_shell c) = Some (Ok (Some 0))" "run_docker_command (demo_port_shell c) limit d = Ok ()"
  "run_compose_command (demo_port_shell c) limit d = Ok ()"
  by (simp_all add: timed_def demo_port_shell_def run_docker_command_def run_compose_command_def handle_compose_status_def exit_success_def)

definition demo_state :: workspace_state where
  "demo_state = \<lparr>ws_workspace = ''/tmp/nomos-testnet-1'', ws_root = ''/tmp/nomos-testnet-1'',
     ws_cfgsync_path = ''/tmp/nomos-testnet-1/stack/cfgsync.yaml''\<rparr>"

lemma demo_prepare:
  "prepare_workspace_state Map.empty demo_compose_fs = Ok demo_state"
  "configure_cfgsync demo_compose_fs ws t port otlp = Ok ()"
  "ensure_compose_image Map.empty arch dir demo_port_shell = Some (Ok ())"
  "\<exists>path. write_compose_artifacts Map.empty demo_compose_fs ws t port = Ok path"
  "\<exists>h w'. launch_cfgsync (demo_compose t cap) (ws_cfgsync_path demo_state) port w = (Some (Ok h), w')"
proof -
  show "prepare_workspace_state Map.empty demo_compose_fs = Ok demo_state" by code_simp
  show "configure_cfgsync demo_compose_fs ws t port otlp = Ok ()"
    by (simp add: configure_cfgsync_def update_cfgsync_config_def demo_compose_fs_def)
  show "ensure_compose_image Map.empty arch dir demo_port_shell = Some (Ok ())"
    by (simp add: ensure_compose_image_def ensure_image_present_def docker_image_exists_def exit_success_def split: prod.split)
  show "\<exists>path. write_compose_artifacts Map.empty demo_compose_fs ws t port = Ok path"
    by (simp add: write_compose_artifacts_def write_compose_file_def template_load_def template_render_def repository_root_def
        demo_compose_fs_def manifest_root_def path_parent_def Let_def)
  have "text_parent (ws_cfgsync_path demo_state) = Some ''/tmp/nomos-testnet-1/stack''" by code_simp
  then show "\<exists>h w'. launch_cfgsync (demo_compose t cap) (ws_cfgsync_path demo_state) port w = (Some (Ok h), w')"
    by (simp add: launch_cfgsync_def Let_def)
qed

lemma demo_start:
  "\<exists>c w. prepare_environment (demo_compose t cap) otlp [] = (Some (Ok c), w)"
proof -
  obtain path where path: "write_compose_artifacts Map.empty demo_compose_fs demo_state t 4400 = Ok path" using demo_prepare(4) by blast
  obtain h w where "launch_cfgsync (demo_compose t cap) (ws_cfgsync_path demo_state) 4400 [] = (Some (Ok h), w)" using demo_prepare(5) by blast
  moreover have "\<exists>c w'. start_stack (demo_compose t cap) demo_state path h w = (Some (Ok c), w')"
    by (simp add: start_stack_def bring_up_stack_def compose_up_def Let_def)
  ultimately show ?thesis
    using path by (auto simp: prepare_environment_def allocate_cfgsync_port_def demo_prepare lift_result_def bind_act_def return_act_def)
qed

lemma demo_phases:
  assumes "resolve_observability_inputs Ok Map.empty cap = Ok obs" "gt_nodes t = [n0, n1]"
  shows "\<exists>c w clients. compose_deploy (demo_compose t cap) =
    bind_act (telemetry_or_drop (demo_compose t cap) c obs) (\<lambda>telemetry.
    bind_act (start_block_feed (demo_compose t cap) c clients) (\<lambda>_. compose_finish (demo_compose t cap) c clients telemetry)) w \<and> clients \<noteq> []"
proof -
  let ?i = "demo_compose t cap"
  obtain c w where c: "prepare_environment ?i (oi_metrics_otlp_ingest_url obs) [] = (Some (Ok c), w)" using demo_start by blast
  have "published demo_port_shell st n p ''[::]'' 32768" for st n p by (simp add: published_def demo_port_shell_def Let_def)
  then obtain ports where ports: "discover_host_ports Map.empty demo_port_shell (ci_show_status ?i) st (gt_nodes t) = Some (Ok ports)"
    "length ports = 2" for st
    using discover_published [of "gt_nodes t" demo_port_shell _ "\<lambda>_. ''[::]''" "\<lambda>_. 32768" "\<lambda>_. 32768" Map.empty "ci_show_status ?i"] assms(2)
    by auto
  have "\<exists>clients. build_node_clients_with_ports ?i ports host = Ok clients \<and> clients \<noteq> []" for host
    using ports(2) assms(2)
    by (auto simp: build_node_clients_with_ports_def api_client_from_host_ports_def length_Suc_conv numeral_2_eq_2)
  then obtain clients where clients: "build_node_clients_with_ports ?i ports (compose_runner_host Map.empty) = Ok clients" "clients \<noteq> []"
    by blast
  have "validate_environment ?i [] = (Some (Ok ()), [])"
    using assms(2) by (simp add: validate_environment_def ensure_docker_available_def exit_success_def lift_result_def bind_act_def
        return_act_def compose_supported_topology_def)
  with assms(1) c have "compose_deploy ?i = compose_phases ?i obs c w"
    by (simp add: compose_deploy_def compose_orchestrate_def bind_act_def return_act_def)
  also have "\<dots> = bind_act (telemetry_or_drop ?i c obs) (\<lambda>telemetry.
    bind_act (start_block_feed ?i c clients) (\<lambda>_. compose_finish ?i c clients telemetry)) w"
    using ports(1) clients(1)
    by (simp add: compose_phases_def port_manager_prepare_def step_or_fail_def wait_for_readiness_or_grace_period_def
        bind_act_def [where m = "step_or_fail _ _ _"] bind_act_def [where m = "return_act _"] return_act_def)
  finally show ?thesis using clients(2) by blast
qed

lemma demo_compose_supported:
  assumes "\<forall>d control. run_context_new t d control \<noteq> None"
  shows "compose_supported (demo_compose t cap)"
  using assms by (simp add: compose_supported_def demo_compose_def should_preserve_def picks_one_def del: not_None_eq)


theorem telemetry_failure_leaves_stack_witness:
  "\<exists>t s e evs. build demo_deps Map.empty demo_builder demo_os = (Ok t, s) \<and>
     compose_deploy (demo_compose t (Some \<lparr>oc_metrics_query_url = Some ''http://prometheus'', oc_metrics_otlp_ingest_url = None,
       oc_grafana_url = None\<rparr>)) = (Some (Err (CeTelemetry e)), evs) \<and> held evs = {ComposeStack ''nomos-compose-1''}"
proof -
  obtain t s n0 n1 where t: "build demo_deps Map.empty demo_builder demo_os = (Ok t, s)" "gt_nodes t = [n0, n1]"
    "\<forall>d control. run_context_new t d control \<noteq> None" by (rule demo_topology_exists)
  let ?cap = "\<lparr>oc_metrics_query_url = Some ''http://prometheus'', oc_metrics_otlp_ingest_url = None, oc_grafana_url = None\<rparr>"
  let ?obs = "\<lparr>oi_metrics_query_url = Some ''http://prometheus'', oi_metrics_otlp_ingest_url = None, oi_grafana_url = None\<rparr>"
  let ?i = "demo_compose t (Some ?cap)"
  have obs: "resolve_observability_inputs Ok Map.empty (Some ?cap) = Ok ?obs"
    by (simp add: resolve_observability_inputs_def from_env_def from_capability_def with_overrides_def Let_def)
  obtain e where "telemetry_handle (ci_metrics_client ?i) ?obs = Err e"
    by (simp add: telemetry_handle_def from_prometheus_def prometheus_endpoint_new_def)
  with demo_phases [OF obs t(2)] obtain evs where d: "compose_deploy ?i = (Some (Err (CeTelemetry e)), evs)"
    by (auto simp: bind_act_def telemetry_or_drop_def)
  have "is_ok (resolve_observability_inputs (ci_parse_url ?i) (ci_env ?i) (ci_capability ?i))" using obs by simp
  from telemetry_failure_leaves_stack [OF demo_compose_supported [OF t(3)] this d] t(1) d show ?thesis
    by (intro exI [of _ t] exI [of _ s] exI [of _ e] exI [of _ evs]) simp
qed

end
