(* ===== verification/Api_Client.thy ===== *)
theory Api_Client
  imports Container_Hosts Http_Probe Block_Feed
begin

text \<open>
  The client of a node's HTTP interfaces (\<^verbatim>\<open>core/src/nodes/api_client.rs\<close>) and the single request
  behind a remote readiness check (\<^verbatim>\<open>core/src/topology/readiness/network.rs\<close>).

  Each operation makes at most one request.  What the network does with it is the argument \<open>send\<close>: a
  transport failure or a response.  The HTTP and URL libraries are the fields of \<open>http_lib\<close>; decoding a
  response body as JSON is the argument \<open>decode\<close>.  Bodies are given in serialized form.
\<close>

section \<open>Requests\<close>

datatype http_method = Get | Post

record http_request =
  rq_method :: http_method
  rq_url :: url
  rq_body :: "tree option"

record api_response =
  rsp_status :: nat
  rsp_body :: "string + string"

type_synonym transport = "http_request \<Rightarrow> string + api_response"
type_synonym 'r decoder = "api_response \<Rightarrow> string + 'r"

text \<open>
  \<open>hl_status_error\<close> is \<^verbatim>\<open>error_for_status\<close>, \<open>hl_join\<close> and \<open>hl_append_pair\<close> are operations of \<^verbatim>\<open>Url\<close>, and
  \<open>hl_socket_url\<close> is the address \<^verbatim>\<open>http://host:port\<close> of a socket address, which always is a valid one.  The
  paths are constants of the node's HTTP crate.
\<close>

record http_lib =
  hl_status_error :: "api_response \<Rightarrow> string option"
  hl_join :: "url \<Rightarrow> string \<Rightarrow> string + url"
  hl_append_pair :: "string \<Rightarrow> string \<Rightarrow> url \<Rightarrow> url"
  hl_socket_url :: "socket_addr \<Rightarrow> url"
  hl_hex_encode :: "u8 list \<Rightarrow> string"
  hl_cryptarchia_info :: string
  hl_cryptarchia_headers :: string
  hl_network_info :: string
  hl_storage_block :: string
  hl_mempool_add_tx :: string

definition error_for_status :: "http_lib \<Rightarrow> api_response \<Rightarrow> string + api_response" where
  "error_for_status hl r = (case hl_status_error hl r of None \<Rightarrow> Ok r | Some e \<Rightarrow> Err e)"

section \<open>The client\<close>

datatype api_client_error = TestingEndpointUnavailable | ApiRequest string

text \<open>Of a client only its two addresses matter.\<close>

definition from_urls :: "url \<Rightarrow> url option \<Rightarrow> api_urls" where
  "from_urls base testing = (base, testing)"

definition base_url :: "api_urls \<Rightarrow> url" where
  "base_url c = fst c"

definition testing_url :: "api_urls \<Rightarrow> url option" where
  "testing_url c = snd c"

definition api_client_new :: "http_lib \<Rightarrow> socket_addr \<Rightarrow> socket_addr option \<Rightarrow> api_urls" where
  "api_client_new hl base_addr testing_addr =
     from_urls (hl_socket_url hl base_addr) (map_option (hl_socket_url hl) testing_addr)"

definition trim_slashes :: "string \<Rightarrow> string" where
  "trim_slashes path = dropWhile (\<lambda>c. c = CHR ''/'') path"

definition join_url :: "http_lib \<Rightarrow> url \<Rightarrow> string \<Rightarrow> url" where
  "join_url hl base path = (case hl_join hl base (trim_slashes path) of Inr u \<Rightarrow> u | Inl _ \<Rightarrow> base)"

definition join_base :: "http_lib \<Rightarrow> api_urls \<Rightarrow> string \<Rightarrow> url" where
  "join_base hl c path = join_url hl (base_url c) path"

definition get_request :: "url \<Rightarrow> http_request" where
  "get_request u = \<lparr>rq_method = Get, rq_url = u, rq_body = None\<rparr>"

definition post_request :: "url \<Rightarrow> tree \<Rightarrow> http_request" where
  "post_request u body = \<lparr>rq_method = Post, rq_url = u, rq_body = Some body\<rparr>"

definition get_builder :: "http_lib \<Rightarrow> api_urls \<Rightarrow> string \<Rightarrow> http_request" where
  "get_builder hl c path = get_request (join_base hl c path)"

definition get_response :: "http_lib \<Rightarrow> transport \<Rightarrow> api_urls \<Rightarrow> string \<Rightarrow> string + api_response" where
  "get_response hl send c path = send (get_request (join_base hl c path))"

definition get_json :: "http_lib \<Rightarrow> 'r decoder \<Rightarrow> transport \<Rightarrow> api_urls \<Rightarrow> string \<Rightarrow> string + 'r" where
  "get_json hl decode send c path =
     and_then (get_response hl send c path) (\<lambda>r. and_then (error_for_status hl r) decode)"

definition post_json_response :: "http_lib \<Rightarrow> transport \<Rightarrow> api_urls \<Rightarrow> string \<Rightarrow> tree \<Rightarrow> string + api_response" where
  "post_json_response hl send c path body = send (post_request (join_base hl c path) body)"

definition post_json_decode ::
  "http_lib \<Rightarrow> 'r decoder \<Rightarrow> transport \<Rightarrow> api_urls \<Rightarrow> string \<Rightarrow> tree \<Rightarrow> string + 'r" where
  "post_json_decode hl decode send c path body =
     and_then (post_json_response hl send c path body) (\<lambda>r. and_then (error_for_status hl r) decode)"

definition post_json_unit :: "http_lib \<Rightarrow> transport \<Rightarrow> api_urls \<Rightarrow> string \<Rightarrow> tree \<Rightarrow> string + unit" where
  "post_json_unit hl send c path body =
     and_then (post_json_response hl send c path body) (\<lambda>r. and_then (error_for_status hl r) (\<lambda>_. Ok ()))"

section \<open>The testing interface\<close>

definition get_testing_response_checked ::
  "http_lib \<Rightarrow> transport \<Rightarrow> api_urls \<Rightarrow> string \<Rightarrow> api_client_error + api_response" where
  "get_testing_response_checked hl send c path =
     and_then (ok_or TestingEndpointUnavailable (testing_url c)) (\<lambda>u.
       map_err ApiRequest (send (get_request (join_url hl u path))))"

definition get_testing_response ::
  "http_lib \<Rightarrow> transport \<Rightarrow> api_urls \<Rightarrow> string \<Rightarrow> api_client_error + api_response" where
  "get_testing_response hl send c path = get_testing_response_checked hl send c path"

definition get_testing_json ::
  "http_lib \<Rightarrow> 'r decoder \<Rightarrow> transport \<Rightarrow> api_urls \<Rightarrow> string \<Rightarrow> api_client_error + 'r" where
  "get_testing_json hl decode send c path =
     and_then (get_testing_response_checked hl send c path) (\<lambda>r.
     and_then (map_err ApiRequest (error_for_status hl r)) (\<lambda>r'. map_err ApiRequest (decode r')))"

definition post_testing_json_response_checked ::
  "http_lib \<Rightarrow> transport \<Rightarrow> api_urls \<Rightarrow> string \<Rightarrow> tree \<Rightarrow> api_client_error + api_response" where
  "post_testing_json_response_checked hl send c path body =
     and_then (ok_or TestingEndpointUnavailable (testing_url c)) (\<lambda>u.
       map_err ApiRequest (send (post_request (join_url hl u path) body)))"

definition post_testing_json_response ::
  "http_lib \<Rightarrow> transport \<Rightarrow> api_urls \<Rightarrow> string \<Rightarrow> tree \<Rightarrow> api_client_error + api_response" where
  "post_testing_json_response hl send c path body = post_testing_json_response_checked hl send c path body"

definition post_testing_json_decode ::
  "http_lib \<Rightarrow> 'r decoder \<Rightarrow> transport \<Rightarrow> api_urls \<Rightarrow> string \<Rightarrow> tree \<Rightarrow> api_client_error + 'r" where
  "post_testing_json_decode hl decode send c path body =
     and_then (post_testing_json_response_checked hl send c path body) (\<lambda>r.
     and_then (map_err ApiRequest (error_for_status hl r)) (\<lambda>r'. map_err ApiRequest (decode r')))"

definition post_testing_json_unit ::
  "http_lib \<Rightarrow> transport \<Rightarrow> api_urls \<Rightarrow> string \<Rightarrow> tree \<Rightarrow> api_client_error + unit" where
  "post_testing_json_unit hl send c path body =
     and_then (post_testing_json_response_checked hl send c path body) (\<lambda>r.
     and_then (map_err ApiRequest (error_for_status hl r)) (\<lambda>_. Ok ()))"

section \<open>Operations of a node\<close>

definition api_consensus_info :: "http_lib \<Rightarrow> consensus_info decoder \<Rightarrow> transport \<Rightarrow> api_urls \<Rightarrow> string + consensus_info" where
  "api_consensus_info hl decode send c = get_json hl decode send c (hl_cryptarchia_info hl)"

definition api_network_info :: "http_lib \<Rightarrow> libp2p_info decoder \<Rightarrow> transport \<Rightarrow> api_urls \<Rightarrow> string + libp2p_info" where
  "api_network_info hl decode send c = get_json hl decode send c (hl_network_info hl)"

definition api_storage_block ::
  "http_lib \<Rightarrow> block option decoder \<Rightarrow> (header_id \<Rightarrow> tree) \<Rightarrow> transport \<Rightarrow> api_urls \<Rightarrow> header_id \<Rightarrow> string + block option" where
  "api_storage_block hl decode to_json send c h = post_json_decode hl decode send c (hl_storage_block hl) (to_json h)"

definition headers_url :: "http_lib \<Rightarrow> api_urls \<Rightarrow> header_id option \<Rightarrow> header_id option \<Rightarrow> url" where
  "headers_url hl c from_id to_id =
     (let u = join_base hl c (hl_cryptarchia_headers hl);
          u1 = (case from_id of None \<Rightarrow> u | Some h \<Rightarrow> hl_append_pair hl ''from'' (hl_hex_encode hl h) u)
      in case to_id of None \<Rightarrow> u1 | Some h \<Rightarrow> hl_append_pair hl ''to'' (hl_hex_encode hl h) u1)"

definition api_consensus_headers ::
  "http_lib \<Rightarrow> header_id list decoder \<Rightarrow> transport \<Rightarrow> api_urls \<Rightarrow> header_id option \<Rightarrow> header_id option \<Rightarrow>
   string + header_id list" where
  "api_consensus_headers hl decode send c from_id to_id =
     and_then (send (get_request (headers_url hl c from_id to_id))) (\<lambda>r. and_then (error_for_status hl r) decode)"

text \<open>A rejected transaction is logged with the body of the response, which may be unreadable.\<close>

definition rejection_body :: "api_response \<Rightarrow> string" where
  "rejection_body r = (case rsp_body r of Inr text \<Rightarrow> text | Inl _ \<Rightarrow> ''<unreadable body>'')"

definition api_submit_transaction :: "http_lib \<Rightarrow> transport \<Rightarrow> api_urls \<Rightarrow> tree \<Rightarrow> string + unit" where
  "api_submit_transaction hl send c tx =
     and_then (post_json_response hl send c (hl_mempool_add_tx hl) tx) (\<lambda>r.
       case hl_status_error hl r of Some e \<Rightarrow> Err e | None \<Rightarrow> Ok ())"

definition get_headers_raw :: "transport \<Rightarrow> http_request \<Rightarrow> string + api_response" where
  "get_headers_raw send builder = send builder"

definition mempool_metrics :: "http_lib \<Rightarrow> tree decoder \<Rightarrow> transport \<Rightarrow> api_urls \<Rightarrow> string \<Rightarrow> string + tree" where
  "mempool_metrics hl decode send c pool = get_json hl decode send c (''/'' @ pool @ ''/metrics'')"

section \<open>The remote readiness request\<close>

datatype network_info_error = JoinUrlError url string string | NetworkRequest string

definition try_fetch_network_info ::
  "http_lib \<Rightarrow> libp2p_info decoder \<Rightarrow> transport \<Rightarrow> url \<Rightarrow> network_info_error + libp2p_info" where
  "try_fetch_network_info hl decode send base =
     and_then (map_err (JoinUrlError base (hl_network_info hl)) (hl_join hl base (trim_slashes (hl_network_info hl)))) (\<lambda>u.
     and_then (map_err NetworkRequest (send (get_request u))) (\<lambda>r.
     and_then (map_err NetworkRequest (error_for_status hl r)) (\<lambda>r'.
       map_err NetworkRequest (decode r'))))"

definition empty_libp2p_info :: libp2p_info where
  "empty_libp2p_info = \<lparr>li_n_peers = 0, li_n_connections = 0, li_n_pending_connections = 0\<rparr>"

definition fetch_network_info :: "http_lib \<Rightarrow> libp2p_info decoder \<Rightarrow> transport \<Rightarrow> url \<Rightarrow> libp2p_info" where
  "fetch_network_info hl decode send base =
     (case try_fetch_network_info hl decode send base of Inr info \<Rightarrow> info | Inl _ \<Rightarrow> empty_libp2p_info)"

section \<open>Facts\<close>

lemma trim_slashes_slash [simp]: "trim_slashes (CHR ''/'' # path) = trim_slashes path"
  by (simp add: trim_slashes_def)

lemma get_json_Ok:
  "get_json hl decode send c path = Ok v \<longleftrightarrow>
     (\<exists>r. send (get_request (join_base hl c path)) = Ok r \<and> hl_status_error hl r = None \<and> decode r = Ok v)"
  by (auto simp: get_json_def get_response_def error_for_status_def result_iffs split: option.splits)

lemma api_consensus_info_is_ok:
  "is_ok (api_consensus_info hl decode send c) \<longleftrightarrow>
     (\<exists>r v. send (get_request (join_base hl c (hl_cryptarchia_info hl))) = Ok r \<and> hl_status_error hl r = None \<and> decode r = Ok v)"
  by (auto simp: is_ok_iff api_consensus_info_def get_json_Ok)

text \<open>The error for a missing testing interface is reported exactly by clients without one, and they send nothing.\<close>

lemma testing_unavailable:
  "get_testing_json hl decode send c path = Err TestingEndpointUnavailable \<longleftrightarrow> testing_url c = None"
  "post_testing_json_decode hl decode send c path body = Err TestingEndpointUnavailable \<longleftrightarrow> testing_url c = None"
  "post_testing_json_unit hl send c path body = Err TestingEndpointUnavailable \<longleftrightarrow> testing_url c = None"
  by (cases "testing_url c";
      auto simp: get_testing_json_def get_testing_response_checked_def post_testing_json_decode_def post_testing_json_unit_def
        post_testing_json_response_checked_def and_then_def map_err_def ok_or_def split: sum.splits)+

text \<open>Where the address can be joined, the remote check and the client of the node ask the same.\<close>

lemma network_info_agrees:
  assumes "hl_join hl (base_url c) (trim_slashes (hl_network_info hl)) = Ok u"
  shows "try_fetch_network_info hl decode send (base_url c) = map_err NetworkRequest (api_network_info hl decode send c)"
  using assms
  by (auto simp: try_fetch_network_info_def api_network_info_def get_json_def get_response_def join_base_def join_url_def
      error_for_status_def and_then_def map_err_def split: sum.splits option.splits)

end
