(* ===== verification/Node_Process.thy ===== *)
theory Node_Process
  imports Api_Client Deployment
begin

text \<open>
  A node as a child process (\<^verbatim>\<open>core/src/nodes\<close>): finding its binary, preparing its directory and
  configuration file, starting it, waiting until it answers, and stopping it.

  The state is the file system, numbers for the next directory and the next process, the commands
  started so far and the log of processes acquired and released.  A path is the list of its
  components.  What the operating system decides is in \<open>node_os\<close>: which temporary directory is created
  next, which writes fail, whether a process can be started, and how long each request to it takes
  and what it is answered.
\<close>

section \<open>The surroundings\<close>

type_synonym path = "string list"

datatype fs_entry = Directory | TextFile string | YamlFile tree

record node_os =
  no_env :: env
  no_http :: http_lib
  no_decode_info :: "consensus_info decoder"
  no_answer :: "nat \<Rightarrow> nat \<Rightarrow> duration \<times> transport"
  no_is_file :: "string \<Rightarrow> bool"
  no_exists :: "string \<Rightarrow> bool"
  no_manifest_dir :: string
  no_log_path :: "string \<Rightarrow> path"
  no_tempdir :: "nat \<Rightarrow> string + path"
  no_denied :: "path \<Rightarrow> string option"
  no_to_yaml :: "run_config \<Rightarrow> string + tree"
  no_yaml_write :: "path \<Rightarrow> string option"
  no_spawn :: "nat \<Rightarrow> string option"
  no_hex_decode :: "string \<Rightarrow> u8 list option"
  no_crypto :: crypto

record node_command =
  cmd_binary :: string
  cmd_config :: path
  cmd_workdir :: path

record node_world =
  nw_files :: "path \<Rightarrow> fs_entry option"
  nw_next_dir :: nat
  nw_next_pid :: nat
  nw_commands :: "(nat \<times> node_command) list"
  nw_log :: "resource_event list"

type_synonym ('e, 'a) node_act = "node_world \<Rightarrow> ('e + 'a) \<times> node_world"

definition bind_node :: "('e, 'a) node_act \<Rightarrow> ('a \<Rightarrow> ('e, 'b) node_act) \<Rightarrow> ('e, 'b) node_act" where
  "bind_node m f w = (case m w of (Inl e, w') \<Rightarrow> (Inl e, w') | (Inr x, w') \<Rightarrow> f x w')"

text \<open>A step that runs while a temporary directory is alive, which its error removes.\<close>

definition remove_dir :: "path \<Rightarrow> node_world \<Rightarrow> node_world" where
  "remove_dir p w = w\<lparr>nw_files := (\<lambda>q. if prefix p q then None else nw_files w q)\<rparr>"

definition guarding_dir :: "path \<Rightarrow> ('e, 'a) node_act \<Rightarrow> ('e, 'a) node_act" where
  "guarding_dir p m w = (case m w of (Inl e, w') \<Rightarrow> (Inl e, remove_dir p w') | (Inr x, w') \<Rightarrow> (Inr x, w'))"

definition map_err_node :: "('e \<Rightarrow> 'f) \<Rightarrow> ('e, 'a) node_act \<Rightarrow> ('f, 'a) node_act" where
  "map_err_node h m w = (case m w of (r, w') \<Rightarrow> (map_err h r, w'))"

section \<open>The file system\<close>

fun is_plain_file :: "fs_entry option \<Rightarrow> bool" where
  "is_plain_file (Some Directory) = False"
| "is_plain_file None = False"
| "is_plain_file _ = True"

text \<open>\<^verbatim>\<open>fs::create_dir_all\<close>: the directory and the ancestors it lacks.\<close>

definition create_dir_all :: "node_os \<Rightarrow> path \<Rightarrow> (string, unit) node_act" where
  "create_dir_all os p w =
     (case no_denied os p of
        Some e \<Rightarrow> (Err e, w)
      | None \<Rightarrow>
          if list_ex (\<lambda>q. is_plain_file (nw_files w q)) (prefixes p) then (Err ''not a directory'', w)
          else (Ok (), w\<lparr>nw_files := (\<lambda>q. if prefix q p then Some Directory else nw_files w q)\<rparr>))"

text \<open>\<^verbatim>\<open>fs::write\<close> and \<^verbatim>\<open>File::create\<close>, which need the directory the file is in.\<close>

definition write_file :: "node_os \<Rightarrow> path \<Rightarrow> fs_entry \<Rightarrow> (string, unit) node_act" where
  "write_file os p content w =
     (case no_denied os p of
        Some e \<Rightarrow> (Err e, w)
      | None \<Rightarrow>
          if p = [] \<or> nw_files w p = Some Directory \<or> nw_files w (butlast p) \<noteq> Some Directory then (Err ''cannot create file'', w)
          else (Ok (), w\<lparr>nw_files := (nw_files w)(p \<mapsto> content)\<rparr>))"

definition path_exists :: "path \<Rightarrow> node_world \<Rightarrow> bool" where
  "path_exists p w \<longleftrightarrow> nw_files w p \<noteq> None"

section \<open>Temporary directories\<close>

definition create_tempdir :: "node_os \<Rightarrow> (string, path) node_act" where
  "create_tempdir os w =
     (let w1 = w\<lparr>nw_next_dir := nw_next_dir w + 1\<rparr> in
      case no_tempdir os (nw_next_dir w) of
        Inl e \<Rightarrow> (Err e, w1)
      | Inr p \<Rightarrow> (Ok p, w1\<lparr>nw_files := (\<lambda>q. if prefix q p then Some Directory else nw_files w q)\<rparr>))"

text \<open>The directory is exchanged for a new one (of the system's default location) and kept; on failure it stays owned.\<close>

definition persist_tempdir :: "node_os \<Rightarrow> path \<Rightarrow> node_world \<Rightarrow> path \<times> node_world" where
  "persist_tempdir os p w = (case create_tempdir os w of (Inl _, w') \<Rightarrow> (p, w') | (Inr p', w') \<Rightarrow> (p', w'))"

definition should_persist_tempdir :: "env \<Rightarrow> bool \<Rightarrow> bool" where
  "should_persist_tempdir ev panicking \<longleftrightarrow> panicking \<or> nomos_tests_keep_logs ev"

section \<open>Finding the binary\<close>

record binary_config =
  bc_env_var :: string
  bc_binary_name :: string
  bc_fallback_path :: string
  bc_shared_bin_subpath :: string

text \<open>\<^verbatim>\<open>env::split_paths\<close> separates at colons.\<close>

definition which_on_path :: "node_os \<Rightarrow> string \<Rightarrow> string option" where
  "which_on_path os bin =
     Option.bind (no_env os ''PATH'') (\<lambda>paths.
       find (no_is_file os) (map (\<lambda>p. path_join p bin) (split_on (CHR '':'') paths)))"

definition resolve_binary_path :: "node_os \<Rightarrow> binary_config \<Rightarrow> string" where
  "resolve_binary_path os cfg =
     (case no_env os (bc_env_var cfg) of
        Some p \<Rightarrow> p
      | None \<Rightarrow>
          (case which_on_path os (bc_binary_name cfg) of
             Some p \<Rightarrow> p
           | None \<Rightarrow>
               (let shared = path_join (no_manifest_dir os) (bc_shared_bin_subpath cfg) in
                if no_exists os shared then shared
                else path_join (path_join (no_manifest_dir os) ''../../'') (bc_fallback_path cfg))))"

definition binary_path :: "node_os \<Rightarrow> string" where
  "binary_path os =
     resolve_binary_path os
       \<lparr>bc_env_var = ''LOGOS_BLOCKCHAIN_NODE_BIN'', bc_binary_name = ''logos-blockchain-node'',
        bc_fallback_path = ''target/debug/logos-blockchain-node'',
        bc_shared_bin_subpath = ''../assets/stack/bin/logos-blockchain-node''\<rparr>"

section \<open>Preparing the configuration\<close>

definition touch_json :: "node_os \<Rightarrow> path \<Rightarrow> (string, unit) node_act" where
  "touch_json os p w = (if path_exists p w then (Ok (), w) else write_file os p (TextFile ''{}'') w)"

definition ensure_recovery_paths :: "node_os \<Rightarrow> path \<Rightarrow> (string, unit) node_act" where
  "ensure_recovery_paths os base_dir =
     (let recovery_dir = base_dir @ [''recovery'']; blend_core_path = recovery_dir @ [''blend'', ''core.json''] in
      bind_node (create_dir_all os recovery_dir) (\<lambda>_.
      bind_node (touch_json os (recovery_dir @ [''mempool.json''])) (\<lambda>_.
      bind_node (create_dir_all os (butlast blend_core_path)) (\<lambda>_.
        touch_json os blend_core_path))))"

text \<open>A log directory that cannot be created is no error here.\<close>

definition configure_logging :: "node_os \<Rightarrow> path \<Rightarrow> string \<Rightarrow> node_world \<Rightarrow> logger_layer \<times> node_world" where
  "configure_logging os base_dir log_prefix w =
     (case nomos_log_dir (no_env os) of
        Some dir \<Rightarrow> (FileLogger dir (Some log_prefix), snd (create_dir_all os (no_log_path os dir) w))
      | None \<Rightarrow> (FileLogger (path_of base_dir) (Some log_prefix), w))"

definition set_logger :: "logger_layer \<Rightarrow> run_config \<Rightarrow> run_config" where
  "set_logger logger rc = rc\<lparr>rc_user := (rc_user rc)\<lparr>uc_tracing := (uc_tracing (rc_user rc))\<lparr>ts_logger := logger\<rparr>\<rparr>\<rparr>"

definition set_paths :: "path \<Rightarrow> run_config \<Rightarrow> run_config" where
  "set_paths base rc =
     rc\<lparr>rc_user := (rc_user rc)\<lparr>uc_storage := (uc_storage (rc_user rc))\<lparr>rb_db_path := path_of (base @ [''db''])\<rparr>\<rparr>\<rparr>"

definition addresses :: "run_config \<Rightarrow> socket_addr \<times> socket_addr option" where
  "addresses rc = (ax_address (uc_http (rc_user rc)), Some (ax_address (uc_testing_http (rc_user rc))))"

datatype spawn_node_error =
  SneTempDir string
| SneRecoveryPaths string
| SneWriteConfig path string
| SneSpawn string string
| SneReadiness

definition prepare_node_config ::
  "node_os \<Rightarrow> run_config \<Rightarrow> string \<Rightarrow> bool \<Rightarrow> (spawn_node_error, path \<times> run_config \<times> socket_addr \<times> socket_addr option) node_act" where
  "prepare_node_config os config log_prefix enable_logging =
     bind_node (map_err_node SneTempDir (create_tempdir os)) (\<lambda>dir.
     bind_node (guarding_dir dir (map_err_node SneRecoveryPaths (ensure_recovery_paths os dir))) (\<lambda>_ w.
       let (config1, w1) =
             (if enable_logging then (case configure_logging os dir log_prefix w of (l, w') \<Rightarrow> (set_logger l config, w')) else (config, w));
           config2 = set_paths dir config1;
           (addr, testing_addr) = addresses config2
       in (Ok (dir, config2, addr, testing_addr), w1)))"

section \<open>Writing the configuration file\<close>

definition write_config_with_injection ::
  "node_os \<Rightarrow> run_config \<Rightarrow> path \<Rightarrow> (tree \<Rightarrow> tree) \<Rightarrow> (string, unit) node_act" where
  "write_config_with_injection os config p inject w =
     (case no_to_yaml os config of
        Inl e \<Rightarrow> (Err e, w)
      | Inr yaml \<Rightarrow>
          bind_node (write_file os p (TextFile [])) (\<lambda>_ w'.
            case no_yaml_write os p of
              Some e \<Rightarrow> (Err e, w')
            | None \<Rightarrow> (Ok (), w'\<lparr>nw_files := (nw_files w')(p \<mapsto> YamlFile (normalize_ed25519_sigs (inject yaml)))\<rparr>)) w)"

definition node_injections :: "node_os \<Rightarrow> tree \<Rightarrow> tree" where
  "node_injections os yaml =
     inject_chain_sync_protocol_name (inject_blend_non_ephemeral_signing_key_id (no_hex_decode os) (no_crypto os)
       (inject_ibd_into_cryptarchia yaml))"

definition write_node_config :: "node_os \<Rightarrow> run_config \<Rightarrow> path \<Rightarrow> (spawn_node_error, unit) node_act" where
  "write_node_config os config p =
     map_err_node (SneWriteConfig p) (write_config_with_injection os config p (node_injections os))"

section \<open>The process\<close>

definition spawn_node_process :: "node_os \<Rightarrow> string \<Rightarrow> path \<Rightarrow> path \<Rightarrow> (spawn_node_error, nat) node_act" where
  "spawn_node_process os binary config_path workdir w =
     (let pid = nw_next_pid w; w1 = w\<lparr>nw_next_pid := pid + 1\<rparr> in
      case no_spawn os pid of
        Some e \<Rightarrow> (Err (SneSpawn binary e), w1)
      | None \<Rightarrow> (Ok pid, w1\<lparr>nw_commands := nw_commands w @ [(pid, \<lparr>cmd_binary = binary, cmd_config = config_path, cmd_workdir = workdir\<rparr>)],
                            nw_log := nw_log w @ [Acquire (NodeProcess pid)]\<rparr>))"

record node_handle =
  nh_child :: nat
  nh_tempdir :: path
  nh_config :: run_config
  nh_api :: api_urls

definition kill_child :: "nat \<Rightarrow> node_world \<Rightarrow> node_world" where
  "kill_child pid w = w\<lparr>nw_log := nw_log w @ [Release (NodeProcess pid)]\<rparr>"

text \<open>Dropping a handle removes its directory.  The child is left running: it has no destructor.\<close>

definition node_handle_drop :: "node_handle \<Rightarrow> node_world \<Rightarrow> node_world" where
  "node_handle_drop h w = remove_dir (nh_tempdir h) w"

text \<open>A node owns a handle, and its destructor kills the process.\<close>

definition node_drop :: "node_os \<Rightarrow> bool \<Rightarrow> node_handle \<Rightarrow> node_world \<Rightarrow> node_world" where
  "node_drop os panicking h w =
     (let (dir, w1) = (if should_persist_tempdir (no_env os) panicking then persist_tempdir os (nh_tempdir h) w else (nh_tempdir h, w))
      in node_handle_drop (h\<lparr>nh_tempdir := dir\<rparr>) (kill_child (nh_child h) w1))"

section \<open>Waiting\<close>

datatype poll_kind = ExitPoll | StartupPoll

fun poll_interval_of :: "poll_kind \<Rightarrow> duration" where
  "poll_interval_of ExitPoll = from_millis 100"
| "poll_interval_of StartupPoll = from_millis 100"

definition startup_timeout :: duration where "startup_timeout = from_secs 60"

text \<open>
  A loop of an attempt and a pause under a timer.  Attempt \<open>k\<close> ends at \<open>t\<close>; if the timer has fired by then, the
  loop is abandoned.  The result is the attempt that succeeded.
\<close>

function poll_within :: "poll_kind \<Rightarrow> duration \<Rightarrow> bool observations \<Rightarrow> nat \<Rightarrow> duration \<Rightarrow> nat option" where
  "poll_within kind limit obs k t =
     (if limit < t then None
      else if snd (obs k) then Some k
      else poll_within kind limit obs (Suc k) (t + poll_interval_of kind + fst (obs (Suc k))))"
  by auto

lemma poll_interval_of_pos: "0 < poll_interval_of kind"
  by (cases kind) (simp_all add: duration_defs)

termination poll_within
proof (relation "measure (\<lambda>(_, limit, _, _, t). Suc limit - t)")
  fix kind and limit t :: duration and k and obs :: "bool observations"
  assume "\<not> limit < t"
  with poll_interval_of_pos [of kind]
  show "((kind, limit, obs, Suc k, t + poll_interval_of kind + fst (obs (Suc k))), kind, limit, obs, k, t)
      \<in> measure (\<lambda>(_, limit, _, _, t). Suc limit - t)" by auto
qed simp

declare poll_within.simps [simp del]

text \<open>The attempts to reach the process: how long each takes, and whether the consensus state is obtained.\<close>

definition startup_attempts :: "node_os \<Rightarrow> nat \<Rightarrow> api_urls \<Rightarrow> bool observations" where
  "startup_attempts os pid api k =
     (fst (no_answer os pid k), is_ok (api_consensus_info (no_http os) (no_decode_info os) (snd (no_answer os pid k)) api))"

definition wait_for_consensus_readiness :: "node_os \<Rightarrow> nat \<Rightarrow> api_urls \<Rightarrow> bool" where
  "wait_for_consensus_readiness os pid api \<longleftrightarrow>
     poll_within StartupPoll startup_timeout (startup_attempts os pid api) 0 (fst (startup_attempts os pid api 0)) \<noteq> None"

datatype try_wait_result = StillRunning | Exited nat | WaitFailed string

fun is_running :: "try_wait_result \<Rightarrow> bool" where
  "is_running StillRunning = True"
| "is_running (Exited status) = False"
| "is_running (WaitFailed e) = False"

text \<open>What the checks of the child find is an argument; a check takes no time.\<close>

definition wait_for_exit :: "duration \<Rightarrow> (nat \<Rightarrow> try_wait_result) \<Rightarrow> bool" where
  "wait_for_exit limit checks \<longleftrightarrow> poll_within ExitPoll limit (\<lambda>k. (0, \<not> is_running (checks k))) 0 0 \<noteq> None"

section \<open>Spawning a node\<close>

definition confirm_readiness :: "node_os \<Rightarrow> node_handle \<Rightarrow> (spawn_node_error, node_handle) node_act" where
  "confirm_readiness os h w =
     (if wait_for_consensus_readiness os (nh_child h) (nh_api h) then (Ok h, w)
      else (case persist_tempdir os (nh_tempdir h) w of
              (dir, w') \<Rightarrow> (Err SneReadiness, node_handle_drop (h\<lparr>nh_tempdir := dir\<rparr>) w')))"

definition spawn_node ::
  "node_os \<Rightarrow> run_config \<Rightarrow> string \<Rightarrow> string \<Rightarrow> string \<Rightarrow> bool \<Rightarrow> (spawn_node_error, node_handle) node_act" where
  "spawn_node os config log_prefix config_filename binary enable_logging =
     bind_node (prepare_node_config os config log_prefix enable_logging) (\<lambda>(dir, config', addr, testing_addr).
     bind_node (guarding_dir dir (write_node_config os config' (dir @ [config_filename]))) (\<lambda>_.
     bind_node (guarding_dir dir (spawn_node_process os binary (dir @ [config_filename]) dir)) (\<lambda>pid.
       confirm_readiness os \<lparr>nh_child = pid, nh_tempdir = dir, nh_config = config', nh_api = api_client_new (no_http os) addr testing_addr\<rparr>)))"

definition logs_prefix :: string where "logs_prefix = ''__logs''"

definition node_spawn :: "node_os \<Rightarrow> run_config \<Rightarrow> string \<Rightarrow> (spawn_node_error, node_handle) node_act" where
  "node_spawn os config label =
     spawn_node os config (logs_prefix @ ''-'' @ label) ''node.yaml'' (binary_path os) (\<not> debug_tracing (no_env os))"

section \<open>What the steps change\<close>

text \<open>Most steps change files only, and a file once written stays as it is.\<close>

definition files_only :: "node_world \<Rightarrow> node_world \<Rightarrow> bool" where
  "files_only w w' \<longleftrightarrow> w' = w\<lparr>nw_files := nw_files w'\<rparr>"

definition keeps_plain :: "node_world \<Rightarrow> node_world \<Rightarrow> path \<Rightarrow> bool" where
  "keeps_plain w w' q \<longleftrightarrow> (is_plain_file (nw_files w q) \<longrightarrow> nw_files w' q = nw_files w q)"

lemma files_only_refl [simp]: "files_only w w"
  by (simp add: files_only_def)

lemma files_only_update [simp]: "files_only w (w\<lparr>nw_files := f\<rparr>)"
  by (simp add: files_only_def)

lemma files_only_trans: "files_only w w' \<Longrightarrow> files_only w' w'' \<Longrightarrow> files_only w w''"
  by (auto simp: files_only_def) (metis node_world.surjective node_world.update_convs(1))

lemma files_only_sel:
  assumes "files_only w w'"
  shows "nw_log w' = nw_log w" "nw_commands w' = nw_commands w" "nw_next_pid w' = nw_next_pid w" "nw_next_dir w' = nw_next_dir w"
  using assms unfolding files_only_def
  by (metis node_world.select_convs node_world.surjective node_world.update_convs(1))+

lemma files_only_create_dir_all: "create_dir_all os p w = (r, w') \<Longrightarrow> files_only w w'"
  by (auto simp: create_dir_all_def split: option.splits if_splits)

lemma files_only_write_file: "write_file os p c w = (r, w') \<Longrightarrow> files_only w w'"
  by (auto simp: write_file_def split: option.splits if_splits)

lemma files_only_touch: "touch_json os p w = (r, w') \<Longrightarrow> files_only w w'"
  by (auto simp: touch_json_def dest: files_only_write_file split: if_splits)

lemma files_only_bind:
  assumes "bind_node m f w = (r, w')" "\<And>w r w'. m w = (r, w') \<Longrightarrow> files_only w w'" "\<And>x w r w'. f x w = (r, w') \<Longrightarrow> files_only w w'"
  shows "files_only w w'"
  using assms(1) by (auto simp: bind_node_def split: prod.splits sum.splits dest!: assms(2,3) intro: files_only_trans)

lemma files_only_recovery: "ensure_recovery_paths os p w = (r, w') \<Longrightarrow> files_only w w'"
  unfolding ensure_recovery_paths_def Let_def
  by (elim files_only_bind files_only_create_dir_all files_only_touch)

lemma keeps_plain_create_dir_all: "create_dir_all os p w = (r, w') \<Longrightarrow> keeps_plain w w' q"
  by (auto simp: create_dir_all_def keeps_plain_def list_ex_iff split: option.splits if_splits)

lemma recovery_files:
  assumes "\<forall>q. prefix p q \<longrightarrow> q \<noteq> p \<longrightarrow> nw_files w q = None" "ensure_recovery_paths os p w = (Ok u, w')"
  shows "nw_files w' (p @ [''recovery'', ''mempool.json'']) = Some (TextFile ''{}'')"
    "nw_files w' (p @ [''recovery'', ''blend'', ''core.json'']) = Some (TextFile ''{}'')"
proof -
  have fresh: "nw_files w (p @ [''recovery'', ''mempool.json'']) = None" "nw_files w (p @ [''recovery'', ''blend'', ''core.json'']) = None"
    using assms(1) by simp_all
  show "nw_files w' (p @ [''recovery'', ''mempool.json'']) = Some (TextFile ''{}'')"
    "nw_files w' (p @ [''recovery'', ''blend'', ''core.json'']) = Some (TextFile ''{}'')"
    using assms(2) fresh
    by (auto simp: ensure_recovery_paths_def bind_node_def create_dir_all_def touch_json_def path_exists_def write_file_def Let_def
        butlast_append split: option.splits if_splits prod.splits sum.splits)
qed

section \<open>The polling loops\<close>

lemma probe_time_mono: "j \<le> k \<Longrightarrow> probe_time poll obs j \<le> probe_time poll obs k"
  by (induction k) (auto simp: le_Suc_eq)

lemma poll_within_iff:
  assumes "t = probe_time (poll_interval_of kind) obs k"
  shows "poll_within kind limit obs k t \<noteq> None \<longleftrightarrow>
    (\<exists>m \<ge> k. snd (obs m) \<and> probe_time (poll_interval_of kind) obs m \<le> limit)"
  using assms
proof (induction kind limit obs k t rule: poll_within.induct)
  case (1 kind limit obs k t)
  let ?time = "probe_time (poll_interval_of kind) obs"
  show ?case
  proof (cases "limit < t")
    case True
    then have "\<not> ?time m \<le> limit" if "k \<le> m" for m
      using "1.prems" probe_time_mono [OF that, of "poll_interval_of kind" obs] by simp
    with True show ?thesis by (subst poll_within.simps) auto
  next
    case False
    show ?thesis
    proof (cases "snd (obs k)")
      case True
      with False show ?thesis using "1.prems" by (subst poll_within.simps) (auto intro!: exI [of _ k])
    next
      case pending: False
      have step: "poll_within kind limit obs k t = poll_within kind limit obs (Suc k) (t + poll_interval_of kind + fst (obs (Suc k)))"
        using False pending by (subst poll_within.simps) simp
      have "(\<exists>m \<ge> Suc k. snd (obs m) \<and> ?time m \<le> limit) \<longleftrightarrow> (\<exists>m \<ge> k. snd (obs m) \<and> ?time m \<le> limit)"
        using pending by (metis Suc_leD le_antisym not_less_eq_eq)
      with step "1.IH" [OF False pending] "1.prems" show ?thesis by simp
    qed
  qed
qed

lemma startup_iff:
  "wait_for_consensus_readiness os pid api \<longleftrightarrow>
     (\<exists>k. is_ok (api_consensus_info (no_http os) (no_decode_info os) (snd (no_answer os pid k)) api) \<and>
        probe_time (from_millis 100) (startup_attempts os pid api) k \<le> startup_timeout)"
  unfolding wait_for_consensus_readiness_def
  by (subst poll_within_iff) (simp_all add: startup_attempts_def)

lemma startup_attempts_bound:
  assumes "probe_time (from_millis 100) obs k \<le> startup_timeout"
  shows "k \<le> 600"
proof -
  have "k * from_millis 100 \<le> startup_timeout" using probe_time_lower assms le_trans by blast
  then show ?thesis by (simp add: startup_timeout_def duration_defs)
qed

lemma wait_for_exit_iff:
  "wait_for_exit limit checks \<longleftrightarrow> (\<exists>k. \<not> is_running (checks k) \<and> k * from_millis 100 \<le> limit)"
proof -
  have "probe_time (from_millis 100) (\<lambda>k. (0, \<not> is_running (checks k))) k = k * from_millis 100" for k by (induction k) simp_all
  then show ?thesis unfolding wait_for_exit_def by (subst poll_within_iff) simp_all
qed

section \<open>Outcomes of spawning\<close>

text \<open>The configuration a node is started with in directory \<open>p\<close>.\<close>

definition prepared_config :: "env \<Rightarrow> path \<Rightarrow> string \<Rightarrow> bool \<Rightarrow> run_config \<Rightarrow> run_config" where
  "prepared_config ev p log_prefix enable_logging config =
     set_paths p
       (if enable_logging then set_logger (FileLogger (unwrap_or (nomos_log_dir ev) (path_of p)) (Some log_prefix)) config else config)"

lemma prepared_config_sel:
  "addresses (prepared_config ev p lp en config) = addresses config"
  "uc_network (rc_user (prepared_config ev p lp en config)) = uc_network (rc_user config)"
  "rb_db_path (uc_storage (rc_user (prepared_config ev p lp en config))) = path_of (p @ [''db''])"
  by (simp_all add: prepared_config_def set_paths_def set_logger_def addresses_def)

text \<open>No process is started or stopped.\<close>

definition quiet :: "node_world \<Rightarrow> node_world \<Rightarrow> bool" where
  "quiet w w' \<longleftrightarrow> nw_log w' = nw_log w \<and> nw_commands w' = nw_commands w \<and> nw_next_pid w' = nw_next_pid w"

lemma quiet_refl [simp]: "quiet w w"
  by (simp add: quiet_def)

lemma quiet_trans: "quiet w w' \<Longrightarrow> quiet w' w'' \<Longrightarrow> quiet w w''"
  by (simp add: quiet_def)

lemma quiet_files: "files_only w w' \<Longrightarrow> quiet w w'"
  by (simp add: quiet_def files_only_sel)

lemma quiet_remove_dir [simp]: "quiet w (remove_dir p w') = quiet w w'"
  by (simp add: quiet_def remove_dir_def)

lemma removed: "prefix p q \<Longrightarrow> nw_files (remove_dir p w) q = None"
  by (simp add: remove_dir_def)

lemma guarding_dir_cases:
  assumes "guarding_dir p m w = (r, w')"
  obtains (Err) e w1 where "m w = (Err e, w1)" "r = Err e" "w' = remove_dir p w1"
    | (Ok) x where "m w = (Ok x, w')" "r = Ok x"
  using assms by (auto simp: guarding_dir_def split: prod.splits sum.splits)

lemma create_tempdir_cases:
  assumes "create_tempdir os w = (r, w')"
  obtains (Err) e where "no_tempdir os (nw_next_dir w) = Err e" "r = Err e" "quiet w w'" "nw_files w' = nw_files w"
    | (Ok) p where "no_tempdir os (nw_next_dir w) = Ok p" "r = Ok p" "quiet w w'" "nw_next_dir w' = nw_next_dir w + 1"
        "nw_files w' = (\<lambda>q. if prefix q p then Some Directory else nw_files w q)"
  using assms by (auto simp: create_tempdir_def Let_def quiet_def split: sum.splits)

lemma configure_logging_result:
  assumes "configure_logging os p lp w = (l, w')"
  shows "l = FileLogger (unwrap_or (nomos_log_dir (no_env os)) (path_of p)) (Some lp)" "files_only w w'" "keeps_plain w w' q"
proof -
  show "l = FileLogger (unwrap_or (nomos_log_dir (no_env os)) (path_of p)) (Some lp)"
    using assms by (auto simp: configure_logging_def unwrap_or_def split: option.splits)
  have "w' = w \<or> (\<exists>dir. w' = snd (create_dir_all os (no_log_path os dir) w))"
    using assms by (auto simp: configure_logging_def split: option.splits)
  moreover have "files_only w (snd (create_dir_all os d w))" "keeps_plain w (snd (create_dir_all os d w)) q" for d
    by (cases "create_dir_all os d w"; simp add: files_only_create_dir_all keeps_plain_create_dir_all)+
  ultimately show "files_only w w'" "keeps_plain w w' q" by (auto simp: keeps_plain_def)
qed

text \<open>A temporary directory is created new.\<close>

definition fresh_tempdir :: "node_os \<Rightarrow> node_world \<Rightarrow> bool" where
  "fresh_tempdir os w \<longleftrightarrow> (\<forall>p. no_tempdir os (nw_next_dir w) = Ok p \<longrightarrow> (\<forall>q. prefix p q \<longrightarrow> nw_files w q = None))"

definition directory_gone :: "node_os \<Rightarrow> node_world \<Rightarrow> node_world \<Rightarrow> bool" where
  "directory_gone os w w' \<longleftrightarrow> (\<forall>p q. no_tempdir os (nw_next_dir w) = Ok p \<longrightarrow> prefix p q \<longrightarrow> nw_files w' q = None)"

definition recovered :: "path \<Rightarrow> node_world \<Rightarrow> bool" where
  "recovered p w \<longleftrightarrow> nw_files w (p @ [''recovery'', ''mempool.json'']) = Some (TextFile ''{}'') \<and>
     nw_files w (p @ [''recovery'', ''blend'', ''core.json'']) = Some (TextFile ''{}'')"

lemma recovered_keeps: "recovered p w \<Longrightarrow> (\<And>q. keeps_plain w w' q) \<Longrightarrow> recovered p w'"
  by (simp add: recovered_def keeps_plain_def)

lemma prepare_cases:
  assumes "prepare_node_config os config lp en w = (r, w')"
  obtains (Err) e where "r = Err e" "e \<noteq> SneReadiness" "quiet w w'" "directory_gone os w w'"
    | (Ok) p where "no_tempdir os (nw_next_dir w) = Ok p" "r = Ok (p, prepared_config (no_env os) p lp en config, addresses config)"
        "quiet w w'" "nw_next_dir w' = nw_next_dir w + 1" "fresh_tempdir os w \<Longrightarrow> recovered p w'"
proof (cases "create_tempdir os w")
  case (Pair rd w1)
  then show ?thesis
  proof (cases rule: create_tempdir_cases)
    case (Err e)
    with assms Pair show ?thesis
      by (intro that(1)) (auto simp: prepare_node_config_def bind_node_def map_err_node_def map_err_def directory_gone_def)
  next
    case (Ok p)
    obtain rr w2 where g: "guarding_dir p (map_err_node SneRecoveryPaths (ensure_recovery_paths os p)) w1 = (rr, w2)"
      by (cases "guarding_dir p (map_err_node SneRecoveryPaths (ensure_recovery_paths os p)) w1")
    then show ?thesis
    proof (cases rule: guarding_dir_cases)
      case (Err e w3)
      then obtain e' where "ensure_recovery_paths os p w1 = (Inl e', w3)" "e = SneRecoveryPaths e'"
        by (auto simp: map_err_node_def map_err_eq_Err split: prod.splits)
      with Ok Pair g Err assms quiet_trans [OF Ok(3) quiet_files [OF files_only_recovery]] show ?thesis
        by (intro that(1) [of e]) (auto simp: prepare_node_config_def bind_node_def map_err_node_def map_err_def directory_gone_def removed)
    next
      case fine: (Ok u)
      then have rec: "ensure_recovery_paths os p w1 = (Inr u, w2)"
        by (auto simp: map_err_node_def map_err_eq_Ok split: prod.splits)
      have "\<forall>q. prefix p q \<longrightarrow> q \<noteq> p \<longrightarrow> nw_files w1 q = None" if "fresh_tempdir os w"
        using that Ok(1,5) by (auto simp: fresh_tempdir_def dest: prefix_order.antisym)
      with rec have kept: "recovered p w2" if "fresh_tempdir os w" using that recovery_files by (simp add: recovered_def)
      obtain l w3 where log: "configure_logging os p lp w2 = (l, w3)" by (cases "configure_logging os p lp w2")
      have r: "r = Inr (p, prepared_config (no_env os) p lp en config, addresses config)" "w' = (if en then w3 else w2)"
        using assms Pair Ok g fine log configure_logging_result(1) [OF log]
        by (auto simp: prepare_node_config_def bind_node_def map_err_node_def map_err_def prepared_config_def Let_def
            set_paths_def set_logger_def addresses_def split: if_splits)
      have "recovered p w3" if "fresh_tempdir os w"
        by (rule recovered_keeps [OF kept [OF that]]) (rule configure_logging_result(3) [OF log])
      moreover have "files_only w2 w3" using configure_logging_result(2) [OF log] .
      ultimately show ?thesis
        using Ok kept r files_only_recovery [OF rec] quiet_trans [OF Ok(3) quiet_files]
        by (intro that(2) [OF Ok(1)]) (auto simp: files_only_sel quiet_def)
    qed
  qed
qed

lemma write_node_config_result:
  assumes "write_node_config os config p w = (r, w')"
  shows "files_only w w'" "\<exists>e. r = Err (SneWriteConfig p e) \<or> r = Ok ()"
    "r = Ok () \<Longrightarrow> (\<exists>yaml. no_to_yaml os config = Ok yaml \<and> nw_files w' p = Some (YamlFile (node_injections os yaml)))"
    "q \<noteq> p \<Longrightarrow> nw_files w' q = nw_files w q"
  using assms
  by (auto simp: write_node_config_def write_config_with_injection_def map_err_node_def bind_node_def write_file_def map_err_def
      normalize_ed25519_sigs_def files_only_def split: sum.splits option.splits if_splits)

text \<open>The process with number \<open>pid\<close> has been started in directory \<open>p\<close> with the files it needs.\<close>

definition process_started :: "string \<Rightarrow> string \<Rightarrow> path \<Rightarrow> node_world \<Rightarrow> node_world \<Rightarrow> bool" where
  "process_started filename binary p w w' \<longleftrightarrow>
     (let pid = nw_next_pid w in
      nw_next_pid w' = pid + 1 \<and> nw_log w' = nw_log w @ [Acquire (NodeProcess pid)] \<and>
      nw_commands w' = nw_commands w @ [(pid, \<lparr>cmd_binary = binary, cmd_config = p @ [filename], cmd_workdir = p\<rparr>)])"

definition node_files :: "node_os \<Rightarrow> string \<Rightarrow> path \<Rightarrow> run_config \<Rightarrow> node_world \<Rightarrow> bool" where
  "node_files os filename p config w \<longleftrightarrow> recovered p w \<and>
     (\<exists>yaml. no_to_yaml os config = Ok yaml \<and> nw_files w (p @ [filename]) = Some (YamlFile (node_injections os yaml)))"

lemma spawn_node_cases:
  assumes "spawn_node os config lp filename binary en w = (r, w')"
  obtains (Err) e where "r = Err e" "e \<noteq> SneReadiness" "nw_log w' = nw_log w" "nw_commands w' = nw_commands w"
      "nw_next_pid w \<le> nw_next_pid w'" "directory_gone os w w'"
    | (Started) p h w1 where "no_tempdir os (nw_next_dir w) = Ok p"
        "h = \<lparr>nh_child = nw_next_pid w, nh_tempdir = p, nh_config = prepared_config (no_env os) p lp en config,
           nh_api = api_client_new (no_http os) (fst (addresses config)) (snd (addresses config))\<rparr>"
        "process_started filename binary p w w1" "fresh_tempdir os w \<Longrightarrow> node_files os filename p (nh_config h) w1"
        "nw_next_dir w1 = nw_next_dir w + 1" "confirm_readiness os h w1 = (r, w')"
proof (cases "prepare_node_config os config lp en w")
  case (Pair rp w1)
  from Pair show ?thesis
  proof (cases rule: prepare_cases)
    case (Err e)
    with assms Pair show ?thesis by (intro that(1) [of e]) (auto simp: spawn_node_def bind_node_def quiet_def)
  next
    case (Ok p)
    let ?config = "prepared_config (no_env os) p lp en config"
    obtain addr taddr where addrs: "addresses config = (addr, taddr)" by (cases "addresses config")
    obtain rw w2 where g: "guarding_dir p (write_node_config os ?config (p @ [filename])) w1 = (rw, w2)"
      by (cases "guarding_dir p (write_node_config os ?config (p @ [filename])) w1")
    then show ?thesis
    proof (cases rule: guarding_dir_cases)
      case (Err e w3)
      note wr = write_node_config_result [OF Err(1)]
      from Err wr(2) have "e \<noteq> SneReadiness" by auto
      with Err Ok assms Pair g addrs quiet_trans [OF Ok(3) quiet_files [OF wr(1)]] show ?thesis
        by (intro that(1) [of e]) (auto simp: spawn_node_def bind_node_def quiet_def directory_gone_def removed remove_dir_def)
    next
      case fine: (Ok u)
      note wr = write_node_config_result [OF fine(1)]
      have files: "node_files os filename p ?config w2" if "fresh_tempdir os w"
        using wr(3) fine(1) Ok(5) [OF that] by (simp add: node_files_def recovered_def wr(4))
      have q: "quiet w w2" using quiet_trans [OF Ok(3) quiet_files [OF wr(1)]] .
      show ?thesis
      proof (cases "no_spawn os (nw_next_pid w)")
        case (Some e)
        with assms Pair Ok g fine addrs q show ?thesis
          by (intro that(1) [of "SneSpawn binary e"])
            (auto simp: spawn_node_def bind_node_def guarding_dir_def spawn_node_process_def Let_def quiet_def directory_gone_def removed remove_dir_def)
      next
        case None
        define w3 where "w3 = w2\<lparr>nw_next_pid := nw_next_pid w + 1,
          nw_commands := nw_commands w @ [(nw_next_pid w, \<lparr>cmd_binary = binary, cmd_config = p @ [filename], cmd_workdir = p\<rparr>)],
          nw_log := nw_log w @ [Acquire (NodeProcess (nw_next_pid w))]\<rparr>"
        have "spawn_node_process os binary (p @ [filename]) p w2 = (Inr (nw_next_pid w), w3)"
          using None q by (simp add: spawn_node_process_def quiet_def w3_def Let_def)
        with assms Pair Ok g fine addrs files wr(1) show ?thesis
          by (intro that(2) [OF Ok(1) refl, of w3])
            (simp_all add: spawn_node_def bind_node_def guarding_dir_def process_started_def node_files_def recovered_def w3_def files_only_sel)
      qed
    qed
  qed
qed

text \<open>Temporary directories are not inside one another.\<close>

definition tempdirs_apart :: "node_os \<Rightarrow> bool" where
  "tempdirs_apart os \<longleftrightarrow> (\<forall>m n p q. m \<noteq> n \<longrightarrow> no_tempdir os m = Ok p \<longrightarrow> no_tempdir os n = Ok q \<longrightarrow> \<not> prefix p q)"

lemma persisted_files:
  assumes "persist_tempdir os p w = (p', w')" "is_ok (no_tempdir os (nw_next_dir w))" "tempdirs_apart os" "no_tempdir os m = Ok p" "m \<noteq> nw_next_dir w"
    and "is_plain_file (nw_files w (p @ q))" "q \<noteq> []"
  shows "nw_files (remove_dir p' w') (p @ q) = nw_files w (p @ q)"
proof -
  obtain p'' where p: "no_tempdir os (nw_next_dir w) = Ok p''" using assms(2) by (auto simp: is_ok_iff)
  then have w': "p' = p''" "nw_files w' = (\<lambda>q. if prefix q p' then Some Directory else nw_files w q)"
    using assms(1) by (auto simp: persist_tempdir_def create_tempdir_def Let_def)
  have "\<not> prefix p' p" "\<not> prefix p p'" using assms(3-5) p w' unfolding tempdirs_apart_def by metis+
  then have "\<not> prefix p' (p @ q)" "\<not> prefix (p @ q) p'" by (auto simp: prefix_append dest: append_prefixD)
  then show ?thesis by (simp add: remove_dir_def w')
qed

definition node_config :: "node_os \<Rightarrow> path \<Rightarrow> string \<Rightarrow> run_config \<Rightarrow> run_config" where
  "node_config os p label config =
     prepared_config (no_env os) p (logs_prefix @ ''-'' @ label) (\<not> debug_tracing (no_env os)) config"

section \<open>Properties\<close>

text \<open>
  Property C14.  Spawning a node ends in one of three ways.  Either one process runs the binary on the
  configuration file in its own new directory; the file holds the serialized configuration with the
  injected defaults, the recovery files are there, the database path is below the directory, and the
  consensus state was obtained from the address of the configuration within 60 seconds, in one of at
  most 601 attempts.  Or an error is reported, no process was started and the directory is gone.  Or
  no attempt that ended in time obtained the consensus state; then the readiness error is reported
  while the process keeps running, with its configuration file kept if a directory could be created
  to exchange for its own.
\<close>

theorem node_spawn_outcome:
  assumes "node_spawn os config label w = (r, w')" "fresh_tempdir os w" "tempdirs_apart os"
  shows "case r of
      Inr h \<Rightarrow> nh_child h = nw_next_pid w \<and> nh_config h = node_config os (nh_tempdir h) label config \<and>
        process_started ''node.yaml'' (binary_path os) (nh_tempdir h) w w' \<and>
        node_files os ''node.yaml'' (nh_tempdir h) (nh_config h) w' \<and>
        rb_db_path (uc_storage (rc_user (nh_config h))) = path_of (nh_tempdir h @ [''db'']) \<and>
        nh_api h = api_client_new (no_http os) (ax_address (uc_http (rc_user config))) (Some (ax_address (uc_testing_http (rc_user config)))) \<and>
        (\<exists>k \<le> 600. is_ok (api_consensus_info (no_http os) (no_decode_info os) (snd (no_answer os (nh_child h) k)) (nh_api h)) \<and>
           probe_time (from_millis 100) (startup_attempts os (nh_child h) (nh_api h)) k \<le> startup_timeout)
    | Inl e \<Rightarrow>
        if e = SneReadiness
        then (\<exists>p. no_tempdir os (nw_next_dir w) = Ok p \<and> process_started ''node.yaml'' (binary_path os) p w w' \<and>
                (is_ok (no_tempdir os (Suc (nw_next_dir w))) \<longrightarrow> node_files os ''node.yaml'' p (node_config os p label config) w')) \<and>
             (\<forall>k. let api = api_client_new (no_http os) (ax_address (uc_http (rc_user config))) (Some (ax_address (uc_testing_http (rc_user config)))) in
                probe_time (from_millis 100) (startup_attempts os (nw_next_pid w) api) k \<le> startup_timeout \<longrightarrow>
                \<not> is_ok (api_consensus_info (no_http os) (no_decode_info os) (snd (no_answer os (nw_next_pid w) k)) api))
        else nw_log w' = nw_log w \<and> nw_commands w' = nw_commands w \<and> directory_gone os w w'"
  using assms(1) unfolding node_spawn_def
proof (cases rule: spawn_node_cases)
  case (Err e)
  then show ?thesis by simp
next
  case (Started p h w1)
  then have api: "nh_api h = api_client_new (no_http os) (ax_address (uc_http (rc_user config))) (Some (ax_address (uc_testing_http (rc_user config))))"
    and child: "nh_child h = nw_next_pid w" "nh_tempdir h = p" "nh_config h = node_config os p label config"
    by (simp_all add: addresses_def node_config_def)
  show ?thesis
  proof (cases "wait_for_consensus_readiness os (nh_child h) (nh_api h)")
    case True
    then have "r = Inr h" "w' = w1" using Started(6) by (simp_all add: confirm_readiness_def)
    moreover obtain k where "is_ok (api_consensus_info (no_http os) (no_decode_info os) (snd (no_answer os (nh_child h) k)) (nh_api h))"
        "probe_time (from_millis 100) (startup_attempts os (nh_child h) (nh_api h)) k \<le> startup_timeout"
      using True startup_iff by blast
    moreover have "rb_db_path (uc_storage (rc_user (nh_config h))) = path_of (p @ [''db''])"
      using Started(2) by (simp add: prepared_config_sel)
    ultimately show ?thesis using Started(3) Started(4) [OF assms(2)] api child startup_attempts_bound by auto
  next
    case False
    obtain p' w2 where per: "persist_tempdir os p w1 = (p', w2)" by (cases "persist_tempdir os p w1")
    with False Started(6) child have r: "r = Inl SneReadiness" "w' = remove_dir p' w2"
      by (simp_all add: confirm_readiness_def node_handle_drop_def)
    have "quiet w1 w2" using per by (auto simp: persist_tempdir_def quiet_def create_tempdir_def Let_def split: sum.splits)
    then have "process_started ''node.yaml'' (binary_path os) p w w'"
      using Started(3) by (simp add: r process_started_def quiet_def remove_dir_def Let_def)
    moreover have "node_files os ''node.yaml'' p (nh_config h) w'" if "is_ok (no_tempdir os (Suc (nw_next_dir w)))"
    proof -
      have "nw_files w' (p @ q) = nw_files w1 (p @ q)" if "is_plain_file (nw_files w1 (p @ q))" "q \<noteq> []" for q
        unfolding r by (rule persisted_files [OF per _ assms(3) Started(1)]) (use \<open>is_ok _\<close> Started(5) that in simp_all)
      with Started(4) [OF assms(2)] child show ?thesis by (auto simp: node_files_def recovered_def)
    qed
    moreover have "\<not> is_ok (api_consensus_info (no_http os) (no_decode_info os) (snd (no_answer os (nh_child h) k)) (nh_api h))"
      if "probe_time (from_millis 100) (startup_attempts os (nh_child h) (nh_api h)) k \<le> startup_timeout" for k
      using False that startup_iff by blast
    ultimately show ?thesis using Started(1) api child r(1) by (auto simp: Let_def)
  qed
qed

text \<open>Surroundings in which a process answers from the third request on, if it can be started and answers at all.\<close>

definition demo_http_lib :: http_lib where
  "demo_http_lib = \<lparr>hl_status_error = (\<lambda>r. if rsp_status r < 400 then None else Some ''status''), hl_join = (\<lambda>u p. Ok (u @ p)),
     hl_append_pair = (\<lambda>k v u. u), hl_socket_url = (\<lambda>a. ''http://node/''), hl_hex_encode = (\<lambda>_. []),
     hl_cryptarchia_info = ''/cryptarchia/info'', hl_cryptarchia_headers = ''/cryptarchia/headers'', hl_network_info = ''/network/info'',
     hl_storage_block = ''/storage/block'', hl_mempool_add_tx = ''/mempool/add/tx''\<rparr>"

definition demo_node_os :: "(nat \<Rightarrow> string option) \<Rightarrow> bool \<Rightarrow> node_os" where
  "demo_node_os spawned answers =
     \<lparr>no_env = Map.empty, no_http = demo_http_lib, no_decode_info = (\<lambda>_. Ok \<lparr>ci_tip = [], ci_height = 0\<rparr>),
      no_answer = (\<lambda>pid k. (0, \<lambda>rq. if answers \<and> 2 \<le> k \<and> rq_url rq = ''http://node/cryptarchia/info''
         then Ok \<lparr>rsp_status = 200, rsp_body = Ok ''{}''\<rparr> else Err ''refused'')),
      no_is_file = (\<lambda>_. False), no_exists = (\<lambda>_. False), no_manifest_dir = ''/repo/core'', no_log_path = (\<lambda>p. [p]),
      no_tempdir = (\<lambda>n. Ok [''tmp'', show_nat n]), no_denied = (\<lambda>_. None), no_to_yaml = (\<lambda>_. Ok (Mapping [])),
      no_yaml_write = (\<lambda>_. None), no_spawn = spawned, no_hex_decode = (\<lambda>_. None), no_crypto = demo_crypto\<rparr>"

definition demo_node_world :: node_world where
  "demo_node_world = \<lparr>nw_files = Map.empty, nw_next_dir = 0, nw_next_pid = 0, nw_commands = [], nw_log = []\<rparr>"

lemma demo_node_os_sel [simp]:
  "no_env (demo_node_os sp a) = Map.empty" "no_tempdir (demo_node_os sp a) = (\<lambda>n. Ok [''tmp'', show_nat n])"
  "no_spawn (demo_node_os sp a) = sp" "no_denied (demo_node_os sp a) = (\<lambda>_. None)" "no_to_yaml (demo_node_os sp a) = (\<lambda>_. Ok (Mapping []))"
  "no_yaml_write (demo_node_os sp a) = (\<lambda>_. None)"
  by (simp_all add: demo_node_os_def)

lemma demo_tempdirs: "tempdirs_apart (demo_node_os sp a)" "fresh_tempdir (demo_node_os sp a) demo_node_world"
  by (auto simp: tempdirs_apart_def fresh_tempdir_def demo_node_world_def)

lemma demo_ready: "wait_for_consensus_readiness (demo_node_os sp a) pid (api_client_new (no_http (demo_node_os sp a)) b t) = a"
proof -
  have url: "join_base demo_http_lib (api_client_new demo_http_lib b t) (hl_cryptarchia_info demo_http_lib) = ''http://node/cryptarchia/info''"
    by (simp add: join_base_def join_url_def api_client_new_def from_urls_def base_url_def demo_http_lib_def trim_slashes_def)
  have ok: "is_ok (api_consensus_info (no_http (demo_node_os sp a)) (no_decode_info (demo_node_os sp a)) (snd (no_answer (demo_node_os sp a) pid k))
      (api_client_new (no_http (demo_node_os sp a)) b t)) \<longleftrightarrow> a \<and> 2 \<le> k" for k
    using url by (auto simp: api_consensus_info_is_ok demo_node_os_def get_request_def) (simp add: demo_http_lib_def)
  have "probe_time (from_millis 100) (startup_attempts (demo_node_os sp a) pid api) 2 \<le> startup_timeout" for api
    by (simp add: numeral_2_eq_2 startup_attempts_def demo_node_os_def startup_timeout_def duration_defs)
  then show ?thesis unfolding startup_iff ok by blast
qed

lemma demo_node_spawn:
  assumes "node_spawn (demo_node_os sp a) config label demo_node_world = (r, w')"
  shows "sp 0 = None \<Longrightarrow> a \<Longrightarrow> is_ok r" "sp 0 = None \<Longrightarrow> \<not> a \<Longrightarrow> r = Err SneReadiness" "sp 0 = Some e \<Longrightarrow> \<exists>b. r = Err (SneSpawn b e)"
  using assms
  by (auto simp: node_spawn_def spawn_node_def prepare_node_config_def create_tempdir_def ensure_recovery_paths_def bind_node_def map_err_node_def
      map_err_def guarding_dir_def create_dir_all_def touch_json_def path_exists_def write_file_def Let_def demo_node_world_def configure_logging_def
      nomos_log_dir_def addresses_def write_node_config_def write_config_with_injection_def spawn_node_process_def confirm_readiness_def
      demo_ready butlast_append split: if_splits prod.splits)

theorem node_spawn_outcome_witness:
  "\<forall>config. \<exists>h w'. node_spawn (demo_node_os (\<lambda>_. None) True) config ''node-0'' demo_node_world = (Ok h, w') \<and>
     held (nw_log w') = {NodeProcess 0} \<and>
     nw_files w' (nh_tempdir h @ [''node.yaml'']) = Some (YamlFile (node_injections (demo_node_os (\<lambda>_. None) True) (Mapping [])))"
proof
  fix config
  let ?os = "demo_node_os (\<lambda>_. None) True"
  obtain r w' where spawn: "node_spawn ?os config ''node-0'' demo_node_world = (r, w')"
    by (cases "node_spawn ?os config ''node-0'' demo_node_world")
  from demo_node_spawn(1) [OF this] obtain h where h: "r = Ok h" by (auto simp: is_ok_iff)
  from node_spawn_outcome [OF spawn demo_tempdirs(2,1), unfolded h sum.case]
  have "process_started ''node.yaml'' (binary_path ?os) (nh_tempdir h) demo_node_world w'"
    "node_files ?os ''node.yaml'' (nh_tempdir h) (nh_config h) w'" by iprover+
  then have "held (nw_log w') = {NodeProcess 0}"
    "nw_files w' (nh_tempdir h @ [''node.yaml'']) = Some (YamlFile (node_injections ?os (Mapping [])))"
    by (simp_all add: process_started_def node_files_def demo_node_world_def held_def)
  with spawn h show "\<exists>h w'. node_spawn ?os config ''node-0'' demo_node_world = (Ok h, w') \<and> held (nw_log w') = {NodeProcess 0} \<and>
     nw_files w' (nh_tempdir h @ [''node.yaml'']) = Some (YamlFile (node_injections ?os (Mapping [])))" by simp
qed

end
