(* ===== verification/Local_Nodes.thy ===== *)
theory Local_Nodes
  imports Node_Process State_Machine
begin

text \<open>
  Nodes started and stopped on demand by the local deployer
  (\<^verbatim>\<open>deployers/local/src/node_control/{mod,config,state}.rs\<close> and the manual cluster in \<^verbatim>\<open>manual/\<close>).  The
  bookkeeping lives behind one mutex; a start reads it, builds the configuration and spawns the
  process without the lock, and registers the node under the lock again.

  A process handle and its API client are numbers.  Whether spawning succeeds, and with which
  client, is part of the event that requests the start.
\<close>

section \<open>Requests\<close>

datatype peer_selection = DefaultLayout | NoPeers | Named "string list"

record start_node_options =
  sno_peers :: peer_selection

definition start_node_options_default :: start_node_options where
  "start_node_options_default = \<lparr>sno_peers = DefaultLayout\<rparr>"

datatype local_dynamic_error =
  LdConfig general_config_error
| LdSpawn spawn_node_error
| LdInvalidArgument string
| LdPortAllocation string

type_synonym api_client = nat

record local_node =
  nd_config :: run_config
  nd_api :: api_client

abbreviation node_network :: "local_node \<Rightarrow> network_config" where
  "node_network n \<equiv> uc_network (rc_user (nd_config n))"

record started_node =
  sn_name :: string
  sn_api :: api_client

section \<open>State\<close>

record local_seed =
  sd_node_count :: nat
  sd_peer_ports :: "u16 list"
  sd_peer_ports_by_name :: "string \<Rightarrow> u16 option"

definition seed_default :: local_seed where
  "seed_default = \<lparr>sd_node_count = 0, sd_peer_ports = [], sd_peer_ports_by_name = Map.empty\<rparr>"

definition seed_from_topology :: "generated_topology \<Rightarrow> local_seed" where
  "seed_from_topology t =
     \<lparr>sd_node_count = length (gt_nodes t),
      sd_peer_ports = map network_port (gt_nodes t),
      sd_peer_ports_by_name =
        map_of (rev (map (\<lambda>n. (''node-'' @ show_nat (gn_index n), network_port n)) (gt_nodes t)))\<rparr>"

record local_nodes =
  ln_descriptors :: generated_topology
  ln_base_consensus :: general_consensus_config
  ln_base_time :: general_time_config
  ln_seed :: local_seed

record local_state =
  ls_node_count :: nat
  ls_peer_ports :: "u16 list"
  ls_peer_ports_by_name :: "string \<Rightarrow> u16 option"
  ls_clients_by_name :: "string \<Rightarrow> api_client option"
  ls_nodes :: "local_node list"
  ls_node_clients :: "api_client list"

text \<open>A topology without nodes panics here.\<close>

definition new_with_seed ::
  "generated_topology \<Rightarrow> api_client list \<Rightarrow> local_seed \<Rightarrow> (local_nodes \<times> local_state) option" where
  "new_with_seed descriptors node_clients seed =
     map_option (\<lambda>base.
       (\<lparr>ln_descriptors = descriptors,
         ln_base_consensus = gc_consensus_config (gn_general base),
         ln_base_time = gc_time_config (gn_general base),
         ln_seed = seed\<rparr>,
        \<lparr>ls_node_count = sd_node_count seed, ls_peer_ports = sd_peer_ports seed,
         ls_peer_ports_by_name = sd_peer_ports_by_name seed, ls_clients_by_name = Map.empty,
         ls_nodes = [], ls_node_clients = node_clients\<rparr>))
     (first_of (gt_nodes descriptors))"

definition local_nodes_new :: "generated_topology \<Rightarrow> api_client list \<Rightarrow> (local_nodes \<times> local_state) option" where
  "local_nodes_new descriptors node_clients = new_with_seed descriptors node_clients seed_default"

definition node_client :: "local_state \<Rightarrow> string \<Rightarrow> api_client option" where
  "node_client st name = ls_clients_by_name st name"

definition register_common :: "string \<Rightarrow> u16 \<Rightarrow> api_client \<Rightarrow> local_state \<Rightarrow> local_state" where
  "register_common node_name port client st =
     st\<lparr>ls_peer_ports := ls_peer_ports st @ [port],
        ls_peer_ports_by_name := (ls_peer_ports_by_name st)(node_name \<mapsto> port),
        ls_clients_by_name := (ls_clients_by_name st)(node_name \<mapsto> client)\<rparr>"

definition register_node :: "string \<Rightarrow> u16 \<Rightarrow> api_client \<Rightarrow> local_node \<Rightarrow> local_state \<Rightarrow> local_state" where
  "register_node node_name port client node st =
     (let st1 = register_common node_name port client st
      in st1\<lparr>ls_node_count := ls_node_count st1 + 1, ls_nodes := ls_nodes st1 @ [node]\<rparr>)"

definition stop_all :: "local_nodes \<Rightarrow> local_state \<Rightarrow> local_state" where
  "stop_all L st =
     st\<lparr>ls_nodes := [], ls_peer_ports := sd_peer_ports (ln_seed L),
        ls_peer_ports_by_name := sd_peer_ports_by_name (ln_seed L), ls_clients_by_name := Map.empty,
        ls_node_count := sd_node_count (ln_seed L), ls_node_clients := []\<rparr>"

section \<open>Configuration of a started node\<close>

definition quoted :: "string \<Rightarrow> string" where
  "quoted s = CHR 0x27 # s @ [CHR 0x27]"

fun resolve_peer_names ::
  "net_lib \<Rightarrow> (string \<Rightarrow> u16 option) \<Rightarrow> string list \<Rightarrow> local_dynamic_error + multiaddr list" where
  "resolve_peer_names nl by_name [] = Ok []"
| "resolve_peer_names nl by_name (name # names) =
     (case by_name name of
        None \<Rightarrow> Err (LdInvalidArgument (''unknown peer name '' @ quoted name))
      | Some port \<Rightarrow>
          and_then (resolve_peer_names nl by_name names) (\<lambda>peers. Ok (node_address_from_port nl port # peers)))"

definition resolve_initial_peers ::
  "net_lib \<Rightarrow> (string \<Rightarrow> u16 option) \<Rightarrow> start_node_options \<Rightarrow> multiaddr list \<Rightarrow> generated_topology \<Rightarrow> u16 list \<Rightarrow>
   local_dynamic_error + multiaddr list" where
  "resolve_initial_peers nl by_name options default_peers descriptors peer_ports =
     (case sno_peers options of
        Named names \<Rightarrow> resolve_peer_names nl by_name names
      | DefaultLayout \<Rightarrow>
          if default_peers \<noteq> [] then Ok default_peers
          else Ok (build_initial_peers nl (tc_network_params (gt_config descriptors)) peer_ports)
      | NoPeers \<Rightarrow> Ok [])"

definition allocate_udp_port :: "string \<Rightarrow> (local_dynamic_error, u16) os_result" where
  "allocate_udp_port label =
     ok_or_os (LdPortAllocation (''failed to allocate free UDP port for '' @ label)) get_available_udp_port"

definition build_general_config_for ::
  "deps \<Rightarrow> env \<Rightarrow> local_nodes \<Rightarrow> nat \<Rightarrow> (string \<Rightarrow> u16 option) \<Rightarrow> start_node_options \<Rightarrow> u16 list \<Rightarrow>
   (local_dynamic_error, general_config \<times> u16) os_result" where
  "build_general_config_for d ev L index by_name options peer_ports =
     (case get (gt_nodes (ln_descriptors L)) index of
        Some node \<Rightarrow>
          (let config = gn_general node in
           bind_os (return_os (resolve_initial_peers (dp_net d) by_name options
               (nc_initial_peers (gc_network_config config)) (ln_descriptors L) peer_ports)) (\<lambda>initial_peers.
             return_os (Ok (config\<lparr>gc_network_config := (gc_network_config config)\<lparr>nc_initial_peers := initial_peers\<rparr>\<rparr>,
               network_port node))))
      | None \<Rightarrow> (\<lambda>s.
          case fill_id s of (nid, s1) \<Rightarrow>
            bind_os (allocate_udp_port ''network port'') (\<lambda>port.
            bind_os (allocate_udp_port ''Blend port'') (\<lambda>blend_port.
            bind_os (return_os (resolve_initial_peers (dp_net d) by_name options [] (ln_descriptors L) peer_ports)) (\<lambda>initial_peers.
            bind_os (map_err_os LdConfig (build_general_config_for_node d ev nid port initial_peers blend_port
                (tc_consensus_params (gt_config (ln_descriptors L))) (tc_wallet_config (gt_config (ln_descriptors L)))
                (ln_base_consensus L) (ln_base_time L))) (\<lambda>general.
              return_os (Ok (general, port)))))) s1))"

section \<open>Starting a node\<close>

text \<open>The part of \<^verbatim>\<open>start_node\<close> under the first lock: label, index and copies of the peer tables.\<close>

record start_ticket =
  tk_peer_ports :: "u16 list"
  tk_peer_ports_by_name :: "string \<Rightarrow> u16 option"
  tk_node_name :: string
  tk_index :: nat

definition begin_start :: "local_state \<Rightarrow> string \<Rightarrow> local_dynamic_error + start_ticket" where
  "begin_start st name =
     (let index = ls_node_count st;
          label = (if blank name then ''node-'' @ show_nat index else ''node-'' @ name)
      in if ls_peer_ports_by_name st label \<noteq> None
         then Err (LdInvalidArgument (''node name '' @ quoted label @ '' already exists''))
         else Ok \<lparr>tk_peer_ports = ls_peer_ports st, tk_peer_ports_by_name = ls_peer_ports_by_name st,
                  tk_node_name = label, tk_index = index\<rparr>)"

definition spawn_and_register_node ::
  "spawn_node_error + api_client \<Rightarrow> string \<Rightarrow> u16 \<Rightarrow> run_config \<Rightarrow> local_state \<Rightarrow> (local_dynamic_error + api_client) \<times> local_state" where
  "spawn_and_register_node spawned node_name port config st =
     (case spawned of
        Inl e \<Rightarrow> (Err (LdSpawn e), st)
      | Inr client \<Rightarrow>
          (let st1 = st\<lparr>ls_node_clients := ls_node_clients st @ [client]\<rparr>
           in (Ok client, register_node node_name port client \<lparr>nd_config = config, nd_api = client\<rparr> st1)))"

definition start_node ::
  "deps \<Rightarrow> axum_settings \<Rightarrow> env \<Rightarrow> local_nodes \<Rightarrow> spawn_node_error + api_client \<Rightarrow> string \<Rightarrow> start_node_options \<Rightarrow>
   local_state \<times> os \<Rightarrow> (local_dynamic_error + started_node) \<times> local_state \<times> os" where
  "start_node d ax ev L spawned name options p =
     (let (st, s) = p in
      case begin_start st name of
        Inl e \<Rightarrow> (Err e, st, s)
      | Inr tk \<Rightarrow>
          (case build_general_config_for d ev L (tk_index tk) (tk_peer_ports_by_name tk) options (tk_peer_ports tk) s of
             (Inl e, s') \<Rightarrow> (Err e, st, s')
           | (Inr (general, port), s') \<Rightarrow>
               (case spawn_and_register_node spawned (tk_node_name tk) port (create_node_config (dp_crypto d) ax ev general) st of
                  (Inl e, st') \<Rightarrow> (Err e, st', s')
                | (Inr client, st') \<Rightarrow> (Ok \<lparr>sn_name = tk_node_name tk, sn_api = client\<rparr>, st', s'))))"

text \<open>The node-control interface of the local deployer does not restart nodes.\<close>

definition restart_node :: "nat \<Rightarrow> string + unit" where
  "restart_node index = Err ''local deployer does not support restart_node''"

datatype local_op =
  StartNode string start_node_options "spawn_node_error + api_client"
| StopAll

fun local_step ::
  "deps \<Rightarrow> axum_settings \<Rightarrow> env \<Rightarrow> local_nodes \<Rightarrow> local_op \<Rightarrow> local_state \<times> os \<Rightarrow> local_state \<times> os" where
  "local_step d ax ev L (StartNode name options spawned) p = snd (start_node d ax ev L spawned name options p)"
| "local_step d ax ev L StopAll p = (stop_all L (fst p), snd p)"

section \<open>Readiness of a manual cluster\<close>

record readiness_node =
  rdn_label :: string
  rdn_expected_peers :: "nat option"
  rdn_api :: api_client

definition readiness_nodes :: "local_state \<Rightarrow> readiness_node list option" where
  "readiness_nodes st =
     (let configs = map nd_config (ls_nodes st) in
      map_option (\<lambda>counts.
        map (\<lambda>(i, n). \<lparr>rdn_label = ''node#'' @ show_nat i @ ''@'' @ show_nat (unat (sw_port (nc_swarm (node_network n)))),
                       rdn_expected_peers = get counts i, rdn_api = nd_api n\<rparr>)
          (enumerate 0 (ls_nodes st)))
      (find_expected_peer_counts (node_listen_ports configs) (node_initial_peer_ports configs)))"

record manual_network_status =
  mns_label :: string
  mns_expected_peers :: "nat option"
  mns_result :: "string + libp2p_info"

definition manual_collect ::
  "readiness_node list \<Rightarrow> (nat \<Rightarrow> string + libp2p_info) \<Rightarrow> manual_network_status list" where
  "manual_collect nodes answer =
     map (\<lambda>(i, n). \<lparr>mns_label = rdn_label n, mns_expected_peers = rdn_expected_peers n, mns_result = answer i\<rparr>)
       (enumerate 0 nodes)"

definition manual_status_ready :: "manual_network_status \<Rightarrow> bool" where
  "manual_status_ready st =
     (case (mns_expected_peers st, mns_result st) of
        (Some expected, Inr info) \<Rightarrow> expected \<le> li_n_peers info
      | _ \<Rightarrow> False)"

definition manual_is_ready :: "manual_network_status list \<Rightarrow> bool" where
  "manual_is_ready data = list_all manual_status_ready data"

definition manual_status_summary :: "manual_network_status \<Rightarrow> string" where
  "manual_status_summary st =
     (case mns_result st of
        Inr info \<Rightarrow> mns_label st @ '' (peers '' @ show_nat (li_n_peers info) @ ''/'' @
          show_nat (case mns_expected_peers st of None \<Rightarrow> 0 | Some e \<Rightarrow> e) @ '')''
      | Inl err \<Rightarrow> mns_label st @ '' (error: '' @ err @ '')'')"

definition manual_timeout_message :: "manual_network_status list \<Rightarrow> string" where
  "manual_timeout_message data =
     ''timed out waiting for network readiness: '' @ join '', '' (map manual_status_summary data)"

definition manual_wait_network_ready :: "env \<Rightarrow> local_state \<Rightarrow> answers \<Rightarrow> (readiness_error + unit) option" where
  "manual_wait_network_ready ev st obs =
     Option.bind (readiness_nodes st) (\<lambda>nodes.
       if length nodes \<le> 1 then Some (Ok ())
       else readiness_wait ev manual_is_ready manual_timeout_message
         (\<lambda>k. (fst (obs k), manual_collect nodes (snd (obs k)))))"

interpretation manual_readiness: readiness_check manual_is_ready manual_status_ready manual_timeout_message
  by unfold_locales (simp add: manual_is_ready_def list_all_iff)

section \<open>Invariant\<close>

text \<open>
  The bookkeeping agrees with the nodes that were started: count and ports continue the seed, every
  started node has exactly one name, none of them a seeded one, and all share the genesis.
\<close>

definition tracked :: "local_nodes \<Rightarrow> genesis_tx \<Rightarrow> local_state \<Rightarrow> bool" where
  "tracked L g st \<longleftrightarrow>
     ls_node_count st = sd_node_count (ln_seed L) + length (ls_nodes st) \<and>
     ls_peer_ports st = sd_peer_ports (ln_seed L) @ map (\<lambda>n. sw_port (nc_swarm (node_network n))) (ls_nodes st) \<and>
     dom (ls_peer_ports_by_name st) = dom (sd_peer_ports_by_name (ln_seed L)) \<union> dom (ls_clients_by_name st) \<and>
     dom (sd_peer_ports_by_name (ln_seed L)) \<inter> dom (ls_clients_by_name st) = {} \<and>
     finite (dom (ls_clients_by_name st)) \<and> card (dom (ls_clients_by_name st)) = length (ls_nodes st) \<and>
     ran (ls_clients_by_name st) = nd_api ` set (ls_nodes st) \<and>
     (\<forall>n \<in> set (ls_nodes st). cc_starting_state (uc_cryptarchia (rc_user (nd_config n))) = StartGenesis g)"

definition shares_genesis :: "local_nodes \<Rightarrow> genesis_tx \<Rightarrow> bool" where
  "shares_genesis L g \<longleftrightarrow> gcc_genesis_tx (ln_base_consensus L) = g \<and>
     (\<forall>n \<in> set (gt_nodes (ln_descriptors L)). gcc_genesis_tx (gc_consensus_config (gn_general n)) = g)"

lemma joining_config_facts:
  assumes "build_general_config_for_node d ev nid port peers bport cp w base time s = (Ok gc, s')"
  shows "sw_port (nc_swarm (gc_network_config gc)) = port" "nc_initial_peers (gc_network_config gc) = peers"
    "gcc_genesis_tx (gc_consensus_config gc) = gcc_genesis_tx base"
  using assms
  by (auto simp: build_general_config_for_node_def os_iffs result_iffs build_network_config_for_node_def
      swarm_config_for_def build_consensus_config_for_node_def)

lemma resolve_peer_names_Ok:
  "resolve_peer_names nl by_name names = Ok peers \<Longrightarrow>
     peers = map (\<lambda>nm. node_address_from_port nl (the (by_name nm))) names \<and> (\<forall>nm \<in> set names. by_name nm \<noteq> None)"
  by (induction names arbitrary: peers) (auto simp: result_iffs split: option.splits)

definition chosen_peers :: "net_lib \<Rightarrow> (string \<Rightarrow> u16 option) \<Rightarrow> start_node_options \<Rightarrow> multiaddr list \<Rightarrow> bool" where
  "chosen_peers nl by_name options peers \<longleftrightarrow>
     (case sno_peers options of
        NoPeers \<Rightarrow> peers = []
      | Named names \<Rightarrow> peers = map (\<lambda>nm. node_address_from_port nl (the (by_name nm))) names \<and> (\<forall>nm \<in> set names. by_name nm \<noteq> None)
      | DefaultLayout \<Rightarrow> True)"

lemma resolve_initial_peers_chosen:
  "resolve_initial_peers nl by_name options dflt t ports = Ok peers \<Longrightarrow> chosen_peers nl by_name options peers"
  by (auto simp: resolve_initial_peers_def chosen_peers_def split: peer_selection.splits dest: resolve_peer_names_Ok)

lemma build_config_facts:
  assumes "build_general_config_for d ev L index by_name options ports s = (Ok (general, port), s')"
  shows "sw_port (nc_swarm (gc_network_config general)) = port"
    "chosen_peers (dp_net d) by_name options (nc_initial_peers (gc_network_config general))"
    "shares_genesis L g \<Longrightarrow> gcc_genesis_tx (gc_consensus_config general) = g"
proof (atomize (full), cases "get (gt_nodes (ln_descriptors L)) index")
  case (Some node)
  then have "node \<in> set (gt_nodes (ln_descriptors L))" by auto
  moreover obtain peers where "resolve_initial_peers (dp_net d) by_name options
      (nc_initial_peers (gc_network_config (gn_general node))) (ln_descriptors L) ports = Ok peers"
    "general = (gn_general node)\<lparr>gc_network_config := (gc_network_config (gn_general node))\<lparr>nc_initial_peers := peers\<rparr>\<rparr>"
    "port = network_port node"
    using assms Some by (auto simp: build_general_config_for_def os_iffs Let_def)
  ultimately show "sw_port (nc_swarm (gc_network_config general)) = port \<and>
    chosen_peers (dp_net d) by_name options (nc_initial_peers (gc_network_config general)) \<and>
    (shares_genesis L g \<longrightarrow> gcc_genesis_tx (gc_consensus_config general) = g)"
    by (auto simp: network_port_def shares_genesis_def dest: resolve_initial_peers_chosen)
next
  case None
  obtain nid bport peers s1 s2 where peers: "resolve_initial_peers (dp_net d) by_name options [] (ln_descriptors L) ports = Ok peers"
    and "build_general_config_for_node d ev nid port peers bport (tc_consensus_params (gt_config (ln_descriptors L)))
      (tc_wallet_config (gt_config (ln_descriptors L))) (ln_base_consensus L) (ln_base_time L) s1 = (Ok general, s2)"
    using assms None by (auto simp: build_general_config_for_def os_iffs split: prod.splits)
  from joining_config_facts [OF this(2)] resolve_initial_peers_chosen [OF peers]
  show "sw_port (nc_swarm (gc_network_config general)) = port \<and>
    chosen_peers (dp_net d) by_name options (nc_initial_peers (gc_network_config general)) \<and>
    (shares_genesis L g \<longrightarrow> gcc_genesis_tx (gc_consensus_config general) = g)"
    by (simp add: shares_genesis_def)
qed

lemma start_node_cases:
  assumes "start_node d ax ev L spawned name options (st, s) = (r, st', s')"
  obtains (failed) e where "r = Err e" "st' = st"
    | (started) general port label c where "spawned = Ok c" "r = Ok \<lparr>sn_name = label, sn_api = c\<rparr>"
        "ls_peer_ports_by_name st label = None"
        "st' = register_node label port c \<lparr>nd_config = create_node_config (dp_crypto d) ax ev general, nd_api = c\<rparr>
           (st\<lparr>ls_node_clients := ls_node_clients st @ [c]\<rparr>)"
        "sw_port (nc_swarm (gc_network_config general)) = port"
        "chosen_peers (dp_net d) (ls_peer_ports_by_name st) options (nc_initial_peers (gc_network_config general))"
        "\<And>g. shares_genesis L g \<Longrightarrow> gcc_genesis_tx (gc_consensus_config general) = g"
proof (cases "begin_start st name")
  case (Inl e)
  with assms show ?thesis by (intro failed) (auto simp: start_node_def)
next
  case (Inr tk)
  then have tk: "ls_peer_ports_by_name st (tk_node_name tk) = None" "tk_peer_ports_by_name tk = ls_peer_ports_by_name st"
    by (auto simp: begin_start_def Let_def split: if_splits)
  obtain rb s1 where b: "build_general_config_for d ev L (tk_index tk) (tk_peer_ports_by_name tk) options (tk_peer_ports tk) s = (rb, s1)"
    by (cases "build_general_config_for d ev L (tk_index tk) (tk_peer_ports_by_name tk) options (tk_peer_ports tk) s")
  show ?thesis
  proof (cases rb)
    case (Inl e)
    with Inr b assms show ?thesis by (intro failed) (auto simp: start_node_def)
  next
    case ok: (Inr gp)
    obtain general port where gp: "gp = (general, port)" by (cases gp)
    note facts = build_config_facts [OF b [unfolded ok gp]]
    show ?thesis
    proof (cases spawned)
      case (Inl e)
      with Inr b ok gp assms show ?thesis by (intro failed) (auto simp: start_node_def spawn_and_register_node_def)
    next
      case sp: (Inr c)
      with Inr b ok gp assms tk facts show ?thesis
        by (intro started [OF sp]) (auto simp: start_node_def spawn_and_register_node_def Let_def)
    qed
  qed
qed

lemma tracked_register:
  assumes "tracked L g st" "ls_peer_ports_by_name st label = None" "sw_port (nc_swarm (node_network n)) = port"
    and "cc_starting_state (uc_cryptarchia (rc_user (nd_config n))) = StartGenesis g" "nd_api n = c"
  shows "tracked L g (register_node label port c n (st\<lparr>ls_node_clients := cs\<rparr>))"
proof -
  have fresh: "label \<notin> dom (ls_clients_by_name st)" "label \<notin> dom (sd_peer_ports_by_name (ln_seed L))"
    using assms(1,2) by (auto simp: tracked_def)
  then have "ls_clients_by_name st label = None" by auto
  with assms fresh show ?thesis
    by (auto simp: tracked_def register_node_def register_common_def Let_def ran_map_upd)
qed

lemma tracked_stop: "tracked L g (stop_all L st)"
  by (simp add: tracked_def stop_all_def)

lemma tracked_step:
  assumes "shares_genesis L g" "tracked L g (fst p)"
  shows "tracked L g (fst (local_step d ax ev L e p))"
proof (cases e)
  case (StartNode name options spawned)
  obtain st s where p: "p = (st, s)" by (cases p)
  obtain r st' s' where r: "start_node d ax ev L spawned name options (st, s) = (r, st', s')"
    by (cases "start_node d ax ev L spawned name options (st, s)")
  from r show ?thesis
  proof (cases rule: start_node_cases)
    case failed
    with assms p r StartNode show ?thesis by simp
  next
    case (started general port label c)
    have "tracked L g st'"
      unfolding started(4) using assms(2) p started(3,5) started(7) [OF assms(1)]
      by (intro tracked_register) (simp_all add: create_node_config_sel)
    with p r StartNode show ?thesis by simp
  qed
qed (simp add: tracked_stop)

interpretation local_machine: state_machine "local_step d ax ev L" "\<lambda>_. True" "\<lambda>p. shares_genesis L g \<and> tracked L g (fst p)"
  for d ax ev L g
  by unfold_locales (simp add: tracked_step)

lemma new_with_seed_tracked:
  assumes "new_with_seed t clients seed = Some (L, st)"
    and "\<forall>n \<in> set (gt_nodes t). gcc_genesis_tx (gc_consensus_config (gn_general n)) = g"
  shows "shares_genesis L g" "tracked L g st" "ln_seed L = seed"
  using assms by (auto simp: new_with_seed_def shares_genesis_def tracked_def first_of_eq_Some)

text \<open>
  Two starts that overlap both read the state before either registers.  They receive the same
  ticket, hence the same label and the same descriptor; afterwards two nodes are counted, but only
  one of them has a name.
\<close>

lemma overlapping_starts_collide:
  assumes "tracked L g st" "begin_start st name = Ok tk"
    and st'_def: "st' = register_node (tk_node_name tk) p2 c2 n2 (register_node (tk_node_name tk) p1 c1 n1 st)"
  shows "ls_node_count st' = ls_node_count st + 2" "length (ls_nodes st') = length (ls_nodes st) + 2"
    "card (dom (ls_clients_by_name st')) = card (dom (ls_clients_by_name st)) + 1" "\<not> tracked L g st'"
proof -
  have "ls_peer_ports_by_name st (tk_node_name tk) = None"
    using assms(2) by (auto simp: begin_start_def Let_def split: if_splits)
  then have fresh: "tk_node_name tk \<notin> dom (ls_clients_by_name st)" and fin: "finite (dom (ls_clients_by_name st))"
    using assms(1) by (auto simp: tracked_def)
  show "ls_node_count st' = ls_node_count st + 2" "length (ls_nodes st') = length (ls_nodes st) + 2"
    by (simp_all add: st'_def register_node_def register_common_def Let_def)
  show card: "card (dom (ls_clients_by_name st')) = card (dom (ls_clients_by_name st)) + 1"
    using fresh fin by (simp add: st'_def register_node_def register_common_def Let_def)
  then show "\<not> tracked L g st'"
    using assms(1) by (auto simp: tracked_def st'_def register_node_def register_common_def Let_def)
qed

text \<open>
  A name given to an earlier node can be the label an unnamed start computes from the node count;
  the start is refused and, as the count does not move, so is every later unnamed start.
\<close>

lemma unnamed_start_refused:
  assumes "blank name" "ls_peer_ports_by_name st (''node-'' @ show_nat (ls_node_count st)) \<noteq> None"
  shows "\<exists>e. start_node d ax ev L spawned name options (st, s) = (Err e, st, s)"
  using assms by (simp add: start_node_def begin_start_def Let_def)

text \<open>What a start may do to the state: nothing, or add the one node it reports.\<close>

definition start_effect ::
  "net_lib \<Rightarrow> start_node_options \<Rightarrow> spawn_node_error + api_client \<Rightarrow> local_state \<Rightarrow> local_dynamic_error + started_node \<Rightarrow>
   local_state \<Rightarrow> bool" where
  "start_effect nl options spawned st r st' \<longleftrightarrow>
     (case r of
        Inl e \<Rightarrow> st' = st
      | Inr sn \<Rightarrow> \<exists>n. spawned = Ok (sn_api sn) \<and> ls_peer_ports_by_name st (sn_name sn) = None \<and>
          ls_nodes st' = ls_nodes st @ [n] \<and> nd_api n = sn_api sn \<and> node_client st' (sn_name sn) = Some (sn_api sn) \<and>
          ls_node_clients st' = ls_node_clients st @ [sn_api sn] \<and>
          chosen_peers nl (ls_peer_ports_by_name st) options (nc_initial_peers (node_network n)))"

lemma start_node_effect:
  "start_node d ax ev L spawned name options (st, s) = (r, st', s') \<Longrightarrow> start_effect (dp_net d) options spawned st r st'"
  by (erule start_node_cases)
    (auto simp: start_effect_def register_node_def register_common_def node_client_def Let_def)

section \<open>Properties\<close>



end
