(* ===== verification/Local_Deploy.thy ===== *)
theory Local_Deploy
  imports Local_Nodes
begin

text \<open>
  Spawning a topology as local processes (\<^verbatim>\<open>Topology::spawn\<close> in \<^verbatim>\<open>core/src/topology/deployment.rs\<close>) and the
  local deployer (\<^verbatim>\<open>deployers/local/src/runner.rs\<close>).  The spawned topology owns its nodes: wherever it goes
  out of scope, the processes are killed, first to last.

  Clients are numbered in the order of the nodes.  The context of a run owns the topology and is
  dropped with the runner or the handle of the run, right after the clean-up guard has been used; the
  nodes it kills then are counted to the clean-up.
\<close>

section \<open>Spawning a topology\<close>

datatype spawn_topology_error = SteBuild topology_build_error | SteNode spawn_node_error

definition topology_drop :: "node_os \<Rightarrow> bool \<Rightarrow> node_handle list \<Rightarrow> node_world \<Rightarrow> node_world" where
  "topology_drop os panicking nodes w = fold (node_drop os panicking) nodes w"

definition spawn_built ::
  "deps \<Rightarrow> axum_settings \<Rightarrow> node_os \<Rightarrow> topology_builder \<Rightarrow> node_world \<times> os \<Rightarrow>
   (spawn_topology_error + node_handle list) option \<times> node_world \<times> os" where
  "spawn_built d ax nos b p =
     (let (w, s) = p in
      case build d (no_env nos) b s of
        (Inl e, s') \<Rightarrow> (Some (Err (SteBuild e)), w, s')
      | (Inr t, s') \<Rightarrow>
          (case spawn_nodes (node_spawn nos) (node_drop nos) (create_node_config (dp_crypto d) ax (no_env nos))
                  (map gn_general (gt_nodes t)) 0 (tc_n_nodes (tb_config b)) [] w of
             (r, w') \<Rightarrow> (map_option (map_err SteNode) r, w', s')))"

definition topology_spawn ::
  "deps \<Rightarrow> axum_settings \<Rightarrow> node_os \<Rightarrow> topology_config \<Rightarrow> node_world \<times> os \<Rightarrow>
   (spawn_topology_error + node_handle list) option \<times> node_world \<times> os" where
  "topology_spawn d ax nos config = spawn_built d ax nos (topology_builder_new config)"

definition spawn_with_empty_membership ::
  "deps \<Rightarrow> axum_settings \<Rightarrow> node_os \<Rightarrow> topology_config \<Rightarrow> node_id list \<Rightarrow> u16 list \<Rightarrow> node_world \<times> os \<Rightarrow>
   (spawn_topology_error + node_handle list) option \<times> node_world \<times> os" where
  "spawn_with_empty_membership d ax nos config ids blend_ports =
     spawn_built d ax nos (with_blend_ports blend_ports (with_ids ids (topology_builder_new config)))"

section \<open>The deployer\<close>

datatype workload_source = SourceText string | SourceFeed scan_error

datatype local_deployer_error =
  LeSpawn spawn_topology_error
| LeReadinessFailed readiness_error
| LeWorkloadFailed workload_source
| LeExpectationsFailed string

fun from_scenario_error :: "scenario_error \<Rightarrow> local_deployer_error" where
  "from_scenario_error (WorkloadFailure source) = LeWorkloadFailed (SourceText source)"
| "from_scenario_error (ExpectationCapture source) = LeExpectationsFailed source"
| "from_scenario_error (ExpectationsFailed source) = LeExpectationsFailed source"

record local_deployer =
  ldp_membership_check :: bool

definition local_deployer_default :: local_deployer where
  "local_deployer_default = \<lparr>ldp_membership_check = True\<rparr>"

definition local_deployer_new :: local_deployer where
  "local_deployer_new = local_deployer_default"

definition with_membership_check :: "bool \<Rightarrow> local_deployer \<Rightarrow> local_deployer" where
  "with_membership_check enabled dep = dep\<lparr>ldp_membership_check := enabled\<rparr>"

text \<open>
  What a deployment is given: the deployer, the scenario's topology and duration and whether it needs
  node control, and what the surroundings do.
\<close>

record local_inputs =
  lo_deployer :: local_deployer
  lo_topology :: generated_topology
  lo_duration :: duration
  lo_control :: bool
  lo_axum :: axum_settings
  lo_os :: node_os
  lo_world :: node_world
  lo_readiness :: answers
  lo_draw :: "nat \<Rightarrow> nat"
  lo_feed :: "api_urls \<Rightarrow> poll"

type_synonym 'a local_act = "(node_world, local_deployer_error, 'a) act"

text \<open>A step while the topology is alive, which its error or panic drops.\<close>

definition or_drop :: "local_inputs \<Rightarrow> node_handle list \<Rightarrow> (local_deployer_error + 'a) option \<Rightarrow> 'a local_act" where
  "or_drop i nodes r w =
     (case r of
        None \<Rightarrow> (None, topology_drop (lo_os i) True nodes w)
      | Some (Inl e) \<Rightarrow> (Some (Err e), topology_drop (lo_os i) False nodes w)
      | Some (Inr x) \<Rightarrow> (Some (Ok x), w))"

definition spawn_descriptors :: "local_inputs \<Rightarrow> node_handle list local_act" where
  "spawn_descriptors i w =
     (case spawn_local (node_spawn (lo_os i)) (node_drop (lo_os i))
             (create_node_config (no_crypto (lo_os i)) (lo_axum i) (no_env (lo_os i))) (lo_topology i) w of
        (r, w') \<Rightarrow> (map_option (map_err (\<lambda>e. LeSpawn (SteNode e))) r, w'))"

definition wait_for_readiness :: "local_inputs \<Rightarrow> node_handle list \<Rightarrow> (readiness_error + unit) option" where
  "wait_for_readiness i nodes = wait_network_ready (no_env (lo_os i)) (map nh_config nodes) (lo_readiness i)"

definition prepare_topology :: "local_inputs \<Rightarrow> node_handle list local_act" where
  "prepare_topology i =
     bind_act (spawn_descriptors i) (\<lambda>nodes.
       if ldp_membership_check (lo_deployer i)
       then bind_act (or_drop i nodes (map_option (map_err LeReadinessFailed) (wait_for_readiness i nodes))) (\<lambda>_. return_act (Ok nodes))
       else return_act (Ok nodes))"

definition clients_from_topology :: "node_handle list \<Rightarrow> api_urls list" where
  "clients_from_topology nodes = map (\<lambda>n. from_urls (base_url (nh_api n)) (testing_url (nh_api n))) nodes"

definition local_node_control :: "local_inputs \<Rightarrow> api_urls list \<Rightarrow> (local_nodes \<times> local_state) option option" where
  "local_node_control i clients =
     (if lo_control i
      then map_option Some (new_with_seed (lo_topology i) [0..<length clients] (seed_from_topology (lo_topology i)))
      else Some None)"

definition local_block_feed :: "local_inputs \<Rightarrow> api_urls list \<Rightarrow> local_deployer_error + block_scanner" where
  "local_block_feed i clients =
     and_then (ok_or (LeWorkloadFailed (SourceText ''block feed requires at least one node''))
         (random_node (lo_draw i) [0..<length clients])) (\<lambda>k.
       map_err (\<lambda>e. LeWorkloadFailed (SourceFeed e)) (spawn_block_feed (lo_feed i (clients ! k))))"

record local_runner =
  lr_runner :: runner
  lr_nodes :: "node_handle list"
  lr_node_clients :: "api_urls list"
  lr_node_control :: "(local_nodes \<times> local_state) option"

definition acquire_feed :: "unit local_act" where
  "acquire_feed w = (Some (Ok ()), w\<lparr>nw_log := nw_log w @ [Acquire BlockFeedTask]\<rparr>)"

definition local_orchestrate :: "local_inputs \<Rightarrow> local_runner local_act" where
  "local_orchestrate i =
     bind_act (prepare_topology i) (\<lambda>nodes.
       let clients = clients_from_topology nodes in
       bind_act (or_drop i nodes (map_option Ok (local_node_control i clients))) (\<lambda>control.
       bind_act (or_drop i nodes (Some (local_block_feed i clients))) (\<lambda>_.
       bind_act acquire_feed (\<lambda>_.
       bind_act (or_drop i nodes (map_option Ok (run_context_new (lo_topology i) (lo_duration i) (lo_control i)))) (\<lambda>ctx.
         return_act (Ok \<lparr>lr_runner = runner_new ctx True, lr_nodes = nodes, lr_node_clients = clients, lr_node_control = control\<rparr>))))))"

definition local_start :: "local_inputs \<Rightarrow> node_world" where
  "local_start i = (lo_world i)\<lparr>nw_log := []\<rparr>"

definition local_deploy :: "local_inputs \<Rightarrow> (local_deployer_error + local_runner) option \<times> resource_event list" where
  "local_deploy i = (case local_orchestrate i (local_start i) of (r, w) \<Rightarrow> (r, nw_log w))"

text \<open>The guard aborts the feed; the context drops the topology.  Nodes started during the run are not part of it.\<close>

definition local_release :: "local_inputs \<Rightarrow> local_runner \<Rightarrow> resource_event list" where
  "local_release i d = Release BlockFeedTask # nw_log (topology_drop (lo_os i) False (lr_nodes d) (local_start i))"

section \<open>Processes over a deployment\<close>

text \<open>The running processes are those of the nodes, and all have been numbered.\<close>

definition owned :: "node_handle list \<Rightarrow> node_world \<Rightarrow> bool" where
  "owned nodes w \<longleftrightarrow> held (nw_log w) = (\<lambda>n. NodeProcess (nh_child n)) ` set nodes \<and> (\<forall>n \<in> set nodes. nh_child n < nw_next_pid w)"

lemma node_drop_log: "nw_log (node_drop os panicking n w) = nw_log w @ [Release (NodeProcess (nh_child n))]"
proof -
  have "nw_log (snd (persist_tempdir os p w)) = nw_log w" for p
    by (simp add: persist_tempdir_def create_tempdir_def Let_def split: sum.split)
  then show ?thesis by (simp add: node_drop_def node_handle_drop_def remove_dir_def kill_child_def split: prod.split) (metis snd_conv)
qed

lemma topology_drop_log:
  "nw_log (topology_drop os panicking nodes w) = nw_log w @ map (\<lambda>n. Release (NodeProcess (nh_child n))) nodes"
  unfolding topology_drop_def by (induction nodes arbitrary: w) (simp_all add: node_drop_log)

lemma topology_drop_held:
  "held (nw_log (topology_drop os panicking nodes w)) = held (nw_log w) - (\<lambda>n. NodeProcess (nh_child n)) ` set nodes"
  using fold_release [of "map (\<lambda>n. NodeProcess (nh_child n)) nodes"] by (simp add: topology_drop_log held_append comp_def)

lemma node_spawn_log:
  assumes "node_spawn os config label w = (r, w')"
  obtains (Ok) h where "r = Ok h" "nh_child h = nw_next_pid w" "nw_log w' = nw_log w @ [Acquire (NodeProcess (nw_next_pid w))]" "nw_next_pid w' = nw_next_pid w + 1"
    | (Unready) "r = Err SneReadiness" "nw_log w' = nw_log w @ [Acquire (NodeProcess (nw_next_pid w))]" "nw_next_pid w' = nw_next_pid w + 1"
    | (Err) e where "r = Err e" "e \<noteq> SneReadiness" "nw_log w' = nw_log w" "nw_next_pid w \<le> nw_next_pid w'"
  using assms unfolding node_spawn_def
proof (cases rule: spawn_node_cases)
  case (Err e)
  then show ?thesis by (intro that(3))
next
  case (Started p h w1)
  have "nw_log (remove_dir q (snd (persist_tempdir os p w1))) = nw_log w1"
    "nw_next_pid (remove_dir q (snd (persist_tempdir os p w1))) = nw_next_pid w1" for q
    by (simp_all add: remove_dir_def persist_tempdir_def create_tempdir_def Let_def split: sum.split)
  with Started that(1,2) show ?thesis
    by (auto simp: confirm_readiness_def process_started_def Let_def node_handle_drop_def split: if_splits prod.splits)
qed

text \<open>A failed startup leaves one process; any other failure none.\<close>

definition spawn_failure :: "spawn_node_error \<Rightarrow> node_world \<Rightarrow> bool" where
  "spawn_failure e w \<longleftrightarrow> (if e = SneReadiness then \<exists>pid. held (nw_log w) = {NodeProcess pid} else held (nw_log w) = {})"

lemma spawn_nodes_owned:
  assumes "owned nodes w" "k + n \<le> length configs"
  shows "ends_in (spawn_nodes (node_spawn os) (node_drop os) mk configs k n nodes) w spawn_failure
    (\<lambda>ns w'. owned ns w' \<and> length ns = length nodes + n)"
  using assms
proof (induction n arbitrary: k nodes w)
  case 0
  then show ?case by (simp add: ends_in_def)
next
  case (Suc n)
  then have k: "k < length configs" by simp
  obtain r w' where sp: "node_spawn os (mk (configs ! k)) (''node-'' @ show_nat k) w = (r, w')"
    by (cases "node_spawn os (mk (configs ! k)) (''node-'' @ show_nat k) w")
  have fresh: "NodeProcess (nw_next_pid w) \<notin> (\<lambda>n. NodeProcess (nh_child n)) ` set nodes" using Suc.prems(1) by (auto simp: owned_def)
  note drop = topology_drop_held [of os False nodes w', unfolded topology_drop_def]
  from sp show ?case
  proof (cases rule: node_spawn_log)
    case (Ok h)
    with Suc.prems(1) have "owned (nodes @ [h]) w'" by (auto simp: owned_def)
    from Suc.IH [OF this, of "Suc k"] Suc.prems(2) k sp Ok(1) show ?thesis by (simp add: ends_in_def get_def)
  next
    case Unready
    have "held (nw_log (fold (node_drop os False) nodes w')) = {NodeProcess (nw_next_pid w)}"
      unfolding drop using Unready(2) Suc.prems(1) fresh by (auto simp: owned_def)
    with Unready(1) k sp show ?thesis by (simp add: ends_in_def get_def spawn_failure_def)
  next
    case (Err e)
    have "held (nw_log (fold (node_drop os False) nodes w')) = {}" unfolding drop using Err(3) Suc.prems(1) by (simp add: owned_def)
    with Err(1,2) k sp show ?thesis by (simp add: ends_in_def get_def spawn_failure_def)
  qed
qed

section \<open>The contract of the deployer\<close>

definition local_supported :: "local_inputs \<Rightarrow> bool" where
  "local_supported i \<longleftrightarrow> tc_n_nodes (gt_config (lo_topology i)) \<le> length (gt_nodes (lo_topology i)) \<and>
     (lo_control i \<longrightarrow> gt_nodes (lo_topology i) \<noteq> []) \<and> run_context_new (lo_topology i) (lo_duration i) (lo_control i) \<noteq> None"

definition local_leaky :: "local_deployer_error \<Rightarrow> bool" where
  "local_leaky e \<longleftrightarrow> e = LeSpawn (SteNode SneReadiness)"

definition local_failure :: "local_deployer_error \<Rightarrow> node_world \<Rightarrow> bool" where
  "local_failure e w \<longleftrightarrow> (if local_leaky e then \<exists>pid. held (nw_log w) = {NodeProcess pid} else held (nw_log w) = {})"

definition local_done :: "local_inputs \<Rightarrow> local_runner \<Rightarrow> node_world \<Rightarrow> bool" where
  "local_done i d w \<longleftrightarrow> held (nw_log w) = insert BlockFeedTask ((\<lambda>n. NodeProcess (nh_child n)) ` set (lr_nodes d)) \<and>
     (\<exists>ctx. lr_runner d = runner_new ctx True)"

lemma ends_in_or_drop:
  assumes "owned nodes w" "r \<noteq> None" "\<And>e. r = Some (Err e) \<Longrightarrow> \<not> local_leaky e" "\<And>x. r = Some (Ok x) \<Longrightarrow> ends_in (f x) w local_failure Q"
  shows "ends_in (bind_act (or_drop i nodes r) f) w local_failure Q"
proof -
  obtain r' where r: "r = Some r'" using assms(2) by blast
  have "held (nw_log (topology_drop (lo_os i) False nodes w)) = {}" using assms(1) by (simp add: topology_drop_held owned_def)
  with r assms(3,4) show ?thesis by (cases r') (simp_all add: ends_in_def or_drop_def bind_act_def local_failure_def)
qed

lemma wait_for_readiness_returns: "wait_for_readiness i nodes \<noteq> None"
proof -
  let ?rcs = "map nh_config nodes"
  obtain counts where "find_expected_peer_counts (node_listen_ports ?rcs) (node_initial_peer_ports ?rcs) = Some counts"
    using find_expected_peer_counts_eq [of "node_listen_ports ?rcs" "node_initial_peer_ports ?rcs"]
    by (simp add: node_listen_ports_def node_initial_peer_ports_def)
  then show ?thesis using readiness_limit [of "no_env (lo_os i)"]
    by (auto simp: wait_for_readiness_def wait_network_ready_def readiness_wait_def Let_def)
qed

lemma spawn_descriptors_result:
  assumes "local_supported i" "held (nw_log w) = {}"
  shows "ends_in (spawn_descriptors i) w local_failure owned"
proof -
  let ?t = "lo_topology i"
  have "ends_in (spawn_local (node_spawn (lo_os i)) (node_drop (lo_os i))
      (create_node_config (no_crypto (lo_os i)) (lo_axum i) (no_env (lo_os i))) ?t) w spawn_failure
      (\<lambda>ns w'. owned ns w' \<and> length ns = length ([] :: node_handle list) + tc_n_nodes (gt_config ?t))"
    unfolding spawn_local_def by (rule spawn_nodes_owned) (use assms in \<open>simp_all add: owned_def local_supported_def\<close>)
  then show ?thesis
    by (rule ends_in_cases)
      (simp_all add: ends_in_def spawn_descriptors_def map_err_def local_failure_def local_leaky_def spawn_failure_def)
qed

lemma prepare_topology_result:
  assumes "local_supported i" "held (nw_log w) = {}"
  shows "ends_in (prepare_topology i) w local_failure owned"
  unfolding prepare_topology_def
proof (rule ends_in_bind [OF spawn_descriptors_result [OF assms]])
  fix nodes w'
  assume own: "owned nodes w'"
  then have ret: "ends_in (return_act (Ok nodes)) w' local_failure owned" by (simp add: ends_in_def return_act_def)
  have "ends_in (bind_act (or_drop i nodes (map_option (map_err LeReadinessFailed) (wait_for_readiness i nodes))) (\<lambda>_. return_act (Ok nodes))) w'
      local_failure owned"
    using own wait_for_readiness_returns ret by (intro ends_in_or_drop) (auto simp: map_err_eq_Err local_leaky_def)
  with ret show "ends_in (if ldp_membership_check (lo_deployer i)
      then bind_act (or_drop i nodes (map_option (map_err LeReadinessFailed) (wait_for_readiness i nodes))) (\<lambda>_. return_act (Ok nodes))
      else return_act (Ok nodes)) w' local_failure owned" by simp
qed

lemma local_orchestrate_result:
  assumes "local_supported i" "held (nw_log w) = {}"
  shows "ends_in (local_orchestrate i) w local_failure (local_done i)"
  unfolding local_orchestrate_def Let_def
proof (rule ends_in_bind [OF prepare_topology_result [OF assms]], rule ends_in_or_drop)
  fix nodes w1 control
  assume own: "owned nodes w1"
  let ?feed = "local_block_feed i (clients_from_topology nodes)"
  let ?w2 = "w1\<lparr>nw_log := nw_log w1 @ [Acquire BlockFeedTask]\<rparr>"
  obtain ctx where ctx: "run_context_new (lo_topology i) (lo_duration i) (lo_control i) = Some ctx"
    using assms(1) by (auto simp: local_supported_def)
  have "ends_in (bind_act acquire_feed (\<lambda>_.
      bind_act (or_drop i nodes (map_option Ok (run_context_new (lo_topology i) (lo_duration i) (lo_control i)))) (\<lambda>ctx.
      return_act (Ok \<lparr>lr_runner = runner_new ctx True, lr_nodes = nodes, lr_node_clients = clients_from_topology nodes, lr_node_control = control\<rparr>))))
      w1 local_failure (local_done i)"
    using own by (auto simp: ends_in_def bind_act_def acquire_feed_def or_drop_def return_act_def ctx local_done_def owned_def)
  moreover have "\<not> local_leaky e" if "?feed = Err e" for e
    using that by (auto simp: local_block_feed_def result_iffs ok_or_eq_Err local_leaky_def)
  ultimately show "ends_in (bind_act (or_drop i nodes (Some ?feed)) (\<lambda>_. bind_act acquire_feed (\<lambda>_.
      bind_act (or_drop i nodes (map_option Ok (run_context_new (lo_topology i) (lo_duration i) (lo_control i)))) (\<lambda>ctx.
      return_act (Ok \<lparr>lr_runner = runner_new ctx True, lr_nodes = nodes, lr_node_clients = clients_from_topology nodes, lr_node_control = control\<rparr>)))))
      w1 local_failure (local_done i)"
    using own by (intro ends_in_or_drop) simp_all
qed (use assms(1) in \<open>auto simp: local_node_control_def new_with_seed_def local_supported_def neq_Nil_conv\<close>)

lemma local_deploy_cases:
  assumes "local_supported i"
  obtains (Err) e evs w where "local_deploy i = (Some (Err e), evs)" "evs = nw_log w" "local_failure e w"
    | (Ok) d evs w where "local_deploy i = (Some (Ok d), evs)" "evs = nw_log w" "local_done i d w"
proof -
  have "held (nw_log (local_start i)) = {}" by (simp add: local_start_def)
  from local_orchestrate_result [OF assms this] show thesis
    by (rule ends_in_cases) (use that in \<open>simp_all add: local_deploy_def\<close>)
qed

interpretation local_deployer: deployer local_deploy local_release local_supported local_leaky
proof
  show "fst (local_deploy i) \<noteq> None" if "local_supported i" for i
    using that by (rule local_deploy_cases) simp_all
  show "held (evs @ local_release i g) = {}" if "local_supported i" "local_deploy i = (Some (Ok g), evs)" for i g evs
    using that(1)
  proof (cases rule: local_deploy_cases)
    case (Ok d evs' w)
    have "nw_log (topology_drop (lo_os i) False (lr_nodes g) (local_start i)) = map (\<lambda>n. Release (NodeProcess (nh_child n))) (lr_nodes g)"
      by (simp add: topology_drop_log local_start_def)
    with Ok that(2) show ?thesis
      using fold_release [of "BlockFeedTask # map (\<lambda>n. NodeProcess (nh_child n)) (lr_nodes g)"]
      by (auto simp: local_release_def held_append local_done_def comp_def)
  qed (use that in simp)
  show "held evs = {}" if "local_supported i" "local_deploy i = (Some (Err e), evs)" "\<not> local_leaky e" for i e evs
    using that(1) by (rule local_deploy_cases) (use that in \<open>simp_all add: local_failure_def\<close>)
qed

section \<open>Properties\<close>

text \<open>
  Property C12.  A whole session with the local deployer, from deploying to dropping the handle the run
  returns, ends with no node process and no block feed task left behind, whatever the workloads and
  expectations do and whichever phase of the deployment fails, with one exception: when a node does
  not answer within its startup timeout, the nodes before it are killed but its own process keeps
  running.  It is assumed that the topology has the nodes its configuration counts, at least one if
  node control is requested, and that the run duration yields metrics.
\<close>

theorem local_session_releases:
  assumes "local_supported i"
  shows "\<exists>pid. held (session local_deploy local_release i
      (\<lambda>d. run_to_drop capture evaluate name_of behaviour lag duration es (lr_runner d))) =
    (if \<exists>evs. local_deploy i = (Some (Err (LeSpawn (SteNode SneReadiness))), evs) then {NodeProcess pid} else {})"
proof (cases "\<exists>evs. local_deploy i = (Some (Err (LeSpawn (SteNode SneReadiness))), evs)")
  case True
  with assms have "\<exists>pid evs. local_deploy i = (Some (Err (LeSpawn (SteNode SneReadiness))), evs) \<and> held evs = {NodeProcess pid}"
    by (elim local_deploy_cases) (auto simp: local_failure_def local_leaky_def)
  with True show ?thesis by (auto simp: session_def)
next
  case False
  have "count_list (run_to_drop capture evaluate name_of behaviour lag duration es (lr_runner d)) EvCleanup = 1"
    if "local_deploy i = (Some (Ok d), evs)" for d evs
    using assms by (rule local_deploy_cases) (use that in \<open>auto simp: local_done_def run_to_drop_cleanup\<close>)
  moreover have "\<not> local_leaky e" if "local_deploy i = (Some (Err e), evs)" for e evs
    using False that by (auto simp: local_leaky_def)
  ultimately have "held (session local_deploy local_release i
      (\<lambda>d. run_to_drop capture evaluate name_of behaviour lag duration es (lr_runner d))) = {}"
    by (intro local_deployer.session_releases assms)
  with False show ?thesis by simp
qed

definition demo_local :: "generated_topology \<Rightarrow> local_inputs" where
  "demo_local t =
     \<lparr>lo_deployer = local_deployer_new, lo_topology = t, lo_duration = from_secs 60, lo_control = True, lo_axum = demo_axum,
      lo_os = demo_node_os (\<lambda>_. None) False, lo_world = demo_node_world, lo_readiness = (\<lambda>_. (0, \<lambda>_. Err ''down'')),
      lo_draw = (\<lambda>_. 0), lo_feed = (\<lambda>_. (Err ''down'', \<lambda>_. Err ''down''))\<rparr>"

theorem local_session_releases_witness:
  "\<exists>t s. build demo_deps Map.empty demo_builder demo_os = (Ok t, s) \<and>
     (\<exists>pid. held (session local_deploy local_release (demo_local t)
        (\<lambda>d. run_to_drop (\<lambda>e. None) (\<lambda>_. Some (Ok ())) (\<lambda>e. e) [] 0 (from_secs 60) [''liveness''] (lr_runner d))) = {NodeProcess pid})"
proof -
  obtain t s n0 n1 where t: "build demo_deps Map.empty demo_builder demo_os = (Ok t, s)" "gt_nodes t = [n0, n1]"
    "\<forall>d control. run_context_new t d control \<noteq> None" by (rule demo_topology_exists)
  have n: "tc_n_nodes (gt_config t) = 2" using t(1) by (rule build_Ok) simp
  let ?i = "demo_local t"
  have sup: "local_supported ?i" using t(2,3) n by (simp add: local_supported_def demo_local_def del: not_None_eq)
  have start: "local_start ?i = demo_node_world" by (simp add: local_start_def demo_local_def demo_node_world_def)
  let ?config = "create_node_config (no_crypto (lo_os ?i)) (lo_axum ?i) (no_env (lo_os ?i)) (gn_general n0)"
  obtain r w where sp: "node_spawn (lo_os ?i) ?config (''node-'' @ show_nat 0) demo_node_world = (r, w)"
    by (cases "node_spawn (lo_os ?i) ?config (''node-'' @ show_nat 0) demo_node_world")
  then have "r = Err SneReadiness"
    using demo_node_spawn(2) [where sp = "\<lambda>_. None" and a = False] by (simp add: demo_local_def)
  with sp have sp': "node_spawn (lo_os ?i) ?config (''node-'' @ show_nat 0) demo_node_world = (Inl SneReadiness, w)" by simp
  have "lo_topology ?i = t" "tc_n_nodes (gt_config t) = Suc 1" using n by (simp_all add: demo_local_def)
  then have "spawn_local (node_spawn (lo_os ?i)) (node_drop (lo_os ?i)) (create_node_config (no_crypto (lo_os ?i)) (lo_axum ?i) (no_env (lo_os ?i)))
      (lo_topology ?i) demo_node_world = (Some (Err SneReadiness), w)"
    unfolding spawn_local_def using sp' t(2) by (simp only: spawn_nodes.simps) (simp add: get_def)
  then have "\<exists>w. spawn_descriptors ?i demo_node_world = (Some (Err (LeSpawn (SteNode SneReadiness))), w)"
    by (simp add: spawn_descriptors_def map_err_def)
  then have "\<exists>evs. local_deploy ?i = (Some (Err (LeSpawn (SteNode SneReadiness))), evs)"
    by (auto simp: local_deploy_def start local_orchestrate_def prepare_topology_def bind_act_def)
  with local_session_releases [OF sup, of "\<lambda>e. None" "\<lambda>_. Some (Ok ())" "\<lambda>e. e" "[]" 0 "from_secs 60" "[''liveness'']"] t(1)
  show ?thesis by auto
qed

end
