(* ===== verification/Manual_Cluster.thy ===== *)
theory Manual_Cluster
  imports Local_Deploy
begin

text \<open>
  The manual cluster (\<^verbatim>\<open>deployers/local/src/manual/mod.rs\<close>): the bookkeeping of \<open>Local_Nodes\<close> together with
  the processes of \<open>Node_Process\<close>.  A client is the number of its process.  Each start runs through
  before the next operation; the bookkeeping takes exactly the steps of \<open>Local_Nodes\<close>, with what
  spawning the process yields as the outcome that is a free choice there.
\<close>

section \<open>The cluster\<close>

datatype manual_cluster_error = MceBuild topology_build_error | MceDynamic local_dynamic_error

record manual_cluster =
  mc_nodes :: local_nodes
  mc_state :: local_state
  mc_handles :: "node_handle list"

definition cluster_from_config ::
  "deps \<Rightarrow> env \<Rightarrow> topology_config \<Rightarrow> os \<Rightarrow> (manual_cluster_error + manual_cluster) option \<times> os" where
  "cluster_from_config d ev config s =
     (case build d ev (topology_builder_new config) s of
        (Inl e, s') \<Rightarrow> (Some (Err (MceBuild e)), s')
      | (Inr t, s') \<Rightarrow>
          (map_option (\<lambda>(L, st). Ok \<lparr>mc_nodes = L, mc_state = st, mc_handles = []\<rparr>) (local_nodes_new t []), s'))"

type_synonym cluster_state = "manual_cluster \<times> node_world \<times> os"

definition spawned_client :: "spawn_node_error + node_handle \<Rightarrow> spawn_node_error + api_client" where
  "spawned_client r = and_then r (\<lambda>h. Ok (nh_child h))"

definition spawned_handles :: "spawn_node_error + node_handle \<Rightarrow> node_handle list" where
  "spawned_handles r = (case r of Inl _ \<Rightarrow> [] | Inr h \<Rightarrow> [h])"

definition cluster_start_node_with ::
  "deps \<Rightarrow> axum_settings \<Rightarrow> node_os \<Rightarrow> string \<Rightarrow> start_node_options \<Rightarrow> cluster_state \<Rightarrow>
   (manual_cluster_error + started_node) \<times> cluster_state" where
  "cluster_start_node_with d ax nos name options p =
     (let (mc, w, s) = p; ev = no_env nos in
      case begin_start (mc_state mc) name of
        Inl e \<Rightarrow> (Err (MceDynamic e), mc, w, s)
      | Inr tk \<Rightarrow>
          (case build_general_config_for d ev (mc_nodes mc) (tk_index tk) (tk_peer_ports_by_name tk) options (tk_peer_ports tk) s of
             (Inl e, s') \<Rightarrow> (Err (MceDynamic e), mc, w, s')
           | (Inr (general, port), s') \<Rightarrow>
               (let config = create_node_config (dp_crypto d) ax ev general;
                    (spawned, w') = node_spawn nos config (tk_node_name tk) w;
                    (r, st') = spawn_and_register_node (spawned_client spawned) (tk_node_name tk) port config (mc_state mc);
                    mc' = mc\<lparr>mc_state := st', mc_handles := mc_handles mc @ spawned_handles spawned\<rparr>
                in case r of
                     Inl e \<Rightarrow> (Err (MceDynamic e), mc', w', s')
                   | Inr client \<Rightarrow> (Ok \<lparr>sn_name = tk_node_name tk, sn_api = client\<rparr>, mc', w', s'))))"

definition cluster_start_node ::
  "deps \<Rightarrow> axum_settings \<Rightarrow> node_os \<Rightarrow> string \<Rightarrow> cluster_state \<Rightarrow> (manual_cluster_error + started_node) \<times> cluster_state" where
  "cluster_start_node d ax nos name = cluster_start_node_with d ax nos name start_node_options_default"

definition cluster_node_client :: "manual_cluster \<Rightarrow> string \<Rightarrow> api_client option" where
  "cluster_node_client mc name = node_client (mc_state mc) name"

definition cluster_stop_all :: "node_os \<Rightarrow> cluster_state \<Rightarrow> cluster_state" where
  "cluster_stop_all nos p =
     (let (mc, w, s) = p in
      (mc\<lparr>mc_state := stop_all (mc_nodes mc) (mc_state mc), mc_handles := []\<rparr>, topology_drop nos False (mc_handles mc) w, s))"

text \<open>Dropping the cluster stops all nodes; what is dropped after that owns none.\<close>

definition cluster_drop :: "node_os \<Rightarrow> cluster_state \<Rightarrow> node_world" where
  "cluster_drop nos p = fst (snd (cluster_stop_all nos p))"

section \<open>Runs\<close>

datatype cluster_op = ClusterStart string start_node_options | ClusterStop

fun run_cluster ::
  "deps \<Rightarrow> axum_settings \<Rightarrow> node_os \<Rightarrow> cluster_op list \<Rightarrow> cluster_state \<Rightarrow>
   (manual_cluster_error + started_node) list \<times> cluster_state" where
  "run_cluster d ax nos [] p = ([], p)"
| "run_cluster d ax nos (ClusterStart name options # ops) p =
     (let (r, p1) = cluster_start_node_with d ax nos name options p; (rs, p2) = run_cluster d ax nos ops p1 in (r # rs, p2))"
| "run_cluster d ax nos (ClusterStop # ops) p = run_cluster d ax nos ops (cluster_stop_all nos p)"

abbreviation startup_timed_out :: "manual_cluster_error + started_node" where
  "startup_timed_out \<equiv> Err (MceDynamic (LdSpawn SneReadiness))"

text \<open>The bookkeeping of a cluster operation is a step of the bookkeeping alone.\<close>

definition books :: "cluster_state \<Rightarrow> local_state \<times> os" where
  "books p = (mc_state (fst p), snd (snd p))"

lemma books_start:
  "\<exists>spawned. books (snd (cluster_start_node_with d ax nos name options p)) =
     local_step d ax (no_env nos) (mc_nodes (fst p)) (StartNode name options spawned) (books p) \<and>
     mc_nodes (fst (snd (cluster_start_node_with d ax nos name options p))) = mc_nodes (fst p)"
proof -
  obtain mc w s where p: "p = (mc, w, s)" by (cases p) auto
  show ?thesis
  proof (cases "begin_start (mc_state mc) name")
    case (Inl e)
    then show ?thesis by (simp add: p cluster_start_node_with_def books_def start_node_def)
  next
    case (Inr tk)
    obtain rb s' where b: "build_general_config_for d (no_env nos) (mc_nodes mc) (tk_index tk) (tk_peer_ports_by_name tk) options
        (tk_peer_ports tk) s = (rb, s')"
      by (cases "build_general_config_for d (no_env nos) (mc_nodes mc) (tk_index tk) (tk_peer_ports_by_name tk) options (tk_peer_ports tk) s")
    show ?thesis
    proof (cases rb)
      case e: (Inl e)
      with Inr b show ?thesis by (simp add: p cluster_start_node_with_def books_def start_node_def Let_def)
    next
      case ok: (Inr gp)
      obtain general port where gp: "gp = (general, port)" by (cases gp)
      let ?config = "create_node_config (dp_crypto d) ax (no_env nos) general"
      obtain spawned w' where sp: "node_spawn nos ?config (tk_node_name tk) w = (spawned, w')"
        by (cases "node_spawn nos ?config (tk_node_name tk) w")
      from Inr b ok gp sp show ?thesis
        by (intro exI [of _ "spawned_client spawned"])
          (simp add: p cluster_start_node_with_def books_def start_node_def Let_def split: prod.split sum.split)
    qed
  qed
qed

lemma books_stop:
  "books (cluster_stop_all nos p) = local_step d ax ev (mc_nodes (fst p)) StopAll (books p)"
  "mc_nodes (fst (cluster_stop_all nos p)) = mc_nodes (fst p)"
  by (simp_all add: cluster_stop_all_def books_def split: prod.split)

lemma run_cluster_tracked:
  assumes "shares_genesis (mc_nodes (fst p)) g" "tracked (mc_nodes (fst p)) g (mc_state (fst p))" "run_cluster d ax nos ops p = (rs, p')"
  shows "tracked (mc_nodes (fst p)) g (mc_state (fst p'))"
  using assms
proof (induction d ax nos ops p arbitrary: rs rule: run_cluster.induct)
  case (2 d ax nos name options ops p)
  let ?p1 = "snd (cluster_start_node_with d ax nos name options p)"
  obtain spawned where "books ?p1 = local_step d ax (no_env nos) (mc_nodes (fst p)) (StartNode name options spawned) (books p)"
    and L: "mc_nodes (fst ?p1) = mc_nodes (fst p)" using books_start by blast
  with tracked_step [OF 2(2), of "books p"] 2(3) have "tracked (mc_nodes (fst p)) g (mc_state (fst ?p1))"
    by (metis books_def fst_conv)
  with 2 L show ?case by (auto split: prod.splits)
next
  case (3 d ax nos ops p)
  have "tracked (mc_nodes (fst p)) g (mc_state (fst (cluster_stop_all nos p)))"
    using books_stop(1) [of nos p d ax "no_env nos"] tracked_stop by (simp add: books_def)
  with 3 show ?case by (simp add: books_stop(2))
qed simp

section \<open>Processes\<close>

text \<open>The processes running are those of the registered nodes and \<open>k\<close> others.\<close>

definition processes :: "nat \<Rightarrow> cluster_state \<Rightarrow> bool" where
  "processes k p \<longleftrightarrow> (case p of (mc, w, s) \<Rightarrow>
     map nh_child (mc_handles mc) = map nd_api (ls_nodes (mc_state mc)) \<and>
     (\<exists>lost. finite lost \<and> card lost = k \<and> lost \<inter> nh_child ` set (mc_handles mc) = {} \<and>
        (\<forall>pid \<in> lost \<union> nh_child ` set (mc_handles mc). pid < nw_next_pid w) \<and>
        held (nw_log w) = NodeProcess ` (lost \<union> nh_child ` set (mc_handles mc))))"

lemma processesI:
  assumes "map nh_child (mc_handles mc) = map nd_api (ls_nodes (mc_state mc))" "finite lost" "card lost = k"
    "lost \<inter> nh_child ` set (mc_handles mc) = {}" "\<forall>pid \<in> lost \<union> nh_child ` set (mc_handles mc). pid < nw_next_pid w"
    "held (nw_log w) = NodeProcess ` (lost \<union> nh_child ` set (mc_handles mc))"
  shows "processes k (mc, w, s)"
  using assms unfolding processes_def by blast

lemma processes_spawned:
  assumes "processes k (mc, w, s)" "node_spawn nos config label w = (r, w')"
  shows "r = Ok h \<Longrightarrow> processes k (mc\<lparr>mc_state := register_node nm port (nh_child h) \<lparr>nd_config = config, nd_api = nh_child h\<rparr>
           ((mc_state mc)\<lparr>ls_node_clients := cs\<rparr>), mc_handles := mc_handles mc @ [h]\<rparr>, w', s')"
    and "r = Err e \<Longrightarrow> processes (k + of_bool (e = SneReadiness)) (mc, w', s')"
proof -
  obtain lost where lost: "finite lost" "card lost = k" "lost \<inter> nh_child ` set (mc_handles mc) = {}"
    "\<forall>pid \<in> lost \<union> nh_child ` set (mc_handles mc). pid < nw_next_pid w"
    "held (nw_log w) = NodeProcess ` (lost \<union> nh_child ` set (mc_handles mc))"
    and apis: "map nh_child (mc_handles mc) = map nd_api (ls_nodes (mc_state mc))"
    using assms(1) unfolding processes_def by auto
  have lt: "\<forall>pid \<in> lost \<union> nh_child ` set (mc_handles mc). pid < n" if "nw_next_pid w \<le> n" for n
    using lost(4) that order.strict_trans2 by blast
  show "processes k (mc\<lparr>mc_state := register_node nm port (nh_child h) \<lparr>nd_config = config, nd_api = nh_child h\<rparr>
      ((mc_state mc)\<lparr>ls_node_clients := cs\<rparr>), mc_handles := mc_handles mc @ [h]\<rparr>, w', s')" if "r = Ok h"
    using assms(2)
  proof (cases rule: node_spawn_log)
    case (Ok h')
    with that lost apis lt [of "nw_next_pid w'"] show ?thesis
      unfolding processes_def by (auto simp: register_node_def register_common_def Let_def intro!: exI [of _ lost])
  qed (use that in simp_all)
  show "processes (k + of_bool (e = SneReadiness)) (mc, w', s')" if "r = Err e"
    using assms(2)
  proof (cases rule: node_spawn_log)
    case Unready
    let ?lost = "insert (nw_next_pid w) lost"
    have fresh: "nw_next_pid w \<notin> lost \<union> nh_child ` set (mc_handles mc)" using lost(4) by blast
    have lt': "\<forall>pid \<in> ?lost \<union> nh_child ` set (mc_handles mc). pid < nw_next_pid w'" using lt [of "nw_next_pid w'"] Unready(3) by auto
    have "held (nw_log w') = NodeProcess ` (?lost \<union> nh_child ` set (mc_handles mc))" using lost(5) Unready(2) by simp
    moreover have "of_bool (e = SneReadiness) = (1 :: nat)" using that Unready(1) by simp
    ultimately show ?thesis
      using fresh lost(1-3) by (intro processesI [OF apis _ _ _ lt']) simp_all
  next
    case (Err e')
    with that lost apis lt [of "nw_next_pid w'"] show ?thesis unfolding processes_def by (auto intro!: exI [of _ lost])
  qed (use that in simp)
qed

lemma resolve_initial_peers_Err:
  "resolve_initial_peers nl by_name options dflt t ports = Err e \<Longrightarrow> \<exists>msg. e = LdInvalidArgument msg"
proof -
  have "resolve_peer_names nl by_name names = Err e \<Longrightarrow> \<exists>msg. e = LdInvalidArgument msg" for names
    by (induction names) (auto simp: and_then_def split: option.splits sum.splits)
  then show "resolve_initial_peers nl by_name options dflt t ports = Err e \<Longrightarrow> \<exists>msg. e = LdInvalidArgument msg"
    by (auto simp: resolve_initial_peers_def split: peer_selection.splits if_splits)
qed

lemma build_general_config_no_spawn:
  "build_general_config_for d ev L index by_name options ports s = (Err e, s') \<Longrightarrow> e \<noteq> LdSpawn e'"
  by (auto simp: build_general_config_for_def Let_def bind_os_def return_os_def map_err_os_def map_err_def ok_or_os_def ok_or_def allocate_udp_port_def
      split: option.splits prod.splits sum.splits dest: resolve_initial_peers_Err)

lemma processes_start:
  assumes "processes k p" "cluster_start_node_with d ax nos name options p = (r, p')"
  shows "processes (k + of_bool (r = startup_timed_out)) p'"
proof -
  obtain mc w s where p: "p = (mc, w, s)" by (cases p) auto
  have same: "processes k (mc, w, s')" for s' using assms(1) by (simp add: p processes_def)
  show ?thesis
  proof (cases "begin_start (mc_state mc) name")
    case (Inl e)
    then have "e \<noteq> LdSpawn SneReadiness" by (auto simp: begin_start_def Let_def split: if_splits)
    with Inl assms(2) same show ?thesis by (auto simp: p cluster_start_node_with_def)
  next
    case (Inr tk)
    obtain rb s' where b: "build_general_config_for d (no_env nos) (mc_nodes mc) (tk_index tk) (tk_peer_ports_by_name tk) options
        (tk_peer_ports tk) s = (rb, s')"
      by (cases "build_general_config_for d (no_env nos) (mc_nodes mc) (tk_index tk) (tk_peer_ports_by_name tk) options (tk_peer_ports tk) s")
    show ?thesis
    proof (cases rb)
      case e: (Inl e)
      with b have "e \<noteq> LdSpawn SneReadiness" by (auto dest: build_general_config_no_spawn)
      with e Inr b assms(2) same show ?thesis by (auto simp: p cluster_start_node_with_def Let_def)
    next
      case ok: (Inr gp)
      obtain general port where gp: "gp = (general, port)" by (cases gp)
      let ?config = "create_node_config (dp_crypto d) ax (no_env nos) general"
      obtain spawned w' where sp: "node_spawn nos ?config (tk_node_name tk) w = (spawned, w')"
        by (cases "node_spawn nos ?config (tk_node_name tk) w")
      note spawned = processes_spawned [OF assms(1) [unfolded p] sp]
      show ?thesis
      proof (cases spawned)
        case (Inl e)
        have "r = Err (MceDynamic (LdSpawn e)) \<and> p' = (mc, w', s')"
          using Inl Inr b ok gp sp assms(2)
          by (auto simp: p cluster_start_node_with_def Let_def spawned_client_def spawned_handles_def spawn_and_register_node_def)
        with spawned(2) [OF Inl, of s'] show ?thesis by simp
      next
        case (Inr h)
        let ?n = "\<lparr>nd_config = ?config, nd_api = nh_child h\<rparr>"
        let ?st = "(mc_state mc)\<lparr>ls_node_clients := ls_node_clients (mc_state mc) @ [nh_child h]\<rparr>"
        have "r = Ok \<lparr>sn_name = tk_node_name tk, sn_api = nh_child h\<rparr> \<and>
            p' = (mc\<lparr>mc_state := register_node (tk_node_name tk) port (nh_child h) ?n ?st, mc_handles := mc_handles mc @ [h]\<rparr>, w', s')"
          using Inr \<open>begin_start (mc_state mc) name = Inr tk\<close> b ok gp sp assms(2)
          by (simp add: p cluster_start_node_with_def Let_def spawned_client_def spawned_handles_def spawn_and_register_node_def)
        with spawned(1) [OF Inr] show ?thesis by simp
      qed
    qed
  qed
qed

lemma processes_stop: "processes k p \<Longrightarrow> processes k (cluster_stop_all nos p)"
proof -
  assume "processes k p"
  then obtain mc w s lost where p: "p = (mc, w, s)" and lost: "finite lost" "card lost = k"
    "lost \<inter> nh_child ` set (mc_handles mc) = {}" "\<forall>pid \<in> lost \<union> nh_child ` set (mc_handles mc). pid < nw_next_pid w"
    "held (nw_log w) = NodeProcess ` (lost \<union> nh_child ` set (mc_handles mc))"
    unfolding processes_def by auto
  have "nw_next_pid (node_drop nos panicking n w') = nw_next_pid w'" for panicking n w'
  proof -
    have "nw_next_pid (snd (persist_tempdir nos q w')) = nw_next_pid w'" for q
      by (simp add: persist_tempdir_def create_tempdir_def Let_def split: sum.split)
    then show ?thesis by (simp add: node_drop_def node_handle_drop_def remove_dir_def kill_child_def split: prod.split) (metis snd_conv)
  qed
  then have "nw_next_pid (topology_drop nos panicking ns w') = nw_next_pid w'" for panicking ns w'
    unfolding topology_drop_def by (induction ns arbitrary: w') simp_all
  moreover have "held (nw_log (topology_drop nos False (mc_handles mc) w)) = NodeProcess ` lost"
    unfolding topology_drop_held lost(5) using lost(3) by auto
  ultimately show ?thesis
    using lost(1,2,4) unfolding p cluster_stop_all_def prod.case Let_def
    by (intro processesI [of _ lost]) (simp_all add: stop_all_def)
qed

lemma run_cluster_processes:
  assumes "processes k p" "run_cluster d ax nos ops p = (rs, p')"
  shows "processes (k + count_list rs startup_timed_out) p'"
  using assms
proof (induction d ax nos ops p arbitrary: k rs rule: run_cluster.induct)
  case (2 d ax nos name options ops p)
  obtain r p1 where r: "cluster_start_node_with d ax nos name options p = (r, p1)"
    by (cases "cluster_start_node_with d ax nos name options p") auto
  obtain rs' where rs: "run_cluster d ax nos ops p1 = (rs', p')" "rs = r # rs'"
    using 2(3) r by (auto split: prod.splits)
  show ?case using "2.IH" [OF r [symmetric] refl processes_start [OF 2(2) r] rs(1)] rs(2) by (cases "r = startup_timed_out") simp_all
next
  case (3 d ax nos ops p)
  from 3(1) [OF processes_stop [OF 3(2)]] 3(3) show ?case by simp
qed simp

section \<open>Properties\<close>

text \<open>
  Property C13.  Over any sequence of starts and stops of a manual cluster, some of which may fail, the
  bookkeeping agrees with its nodes (count, ports, one unused name for each, the genesis of the
  topology), the client of every registered node is the one of a process the cluster owns, in the
  same order, and when the cluster is dropped, as many processes are left running as starts reported
  that the node did not become ready; without such a start, none.
\<close>

theorem manual_cluster_releases:
  assumes "cluster_from_config d ev config s = (Some (Ok mc), s')" "nw_log w = []"
    and "run_cluster d ax nos ops (mc, w, s') = (rs, mc', w', s'')"
  shows "(\<exists>g. tracked (mc_nodes mc) g (mc_state mc')) \<and>
    map nd_api (ls_nodes (mc_state mc')) = map nh_child (mc_handles mc') \<and>
    finite (held (nw_log (cluster_drop nos (mc', w', s'')))) \<and>
    card (held (nw_log (cluster_drop nos (mc', w', s'')))) = count_list rs startup_timed_out"
proof (intro conjI)
  obtain t L st where b: "build d ev (topology_builder_new config) s = (Ok t, s')" and L: "new_with_seed t [] seed_default = Some (L, st)"
    and mc: "mc = \<lparr>mc_nodes = L, mc_state = st, mc_handles = []\<rparr>"
    using assms(1) by (auto simp: cluster_from_config_def local_nodes_new_def split: prod.splits sum.splits)
  obtain g where "\<forall>n \<in> set (gt_nodes t). gcc_genesis_tx (gc_consensus_config (gn_general n)) = g"
    using b by (rule build_Ok) (auto simp: node_at_def)
  note start = new_with_seed_tracked [OF L this]
  from run_cluster_tracked [OF _ _ assms(3)] start show "\<exists>g. tracked (mc_nodes mc) g (mc_state mc')" by (auto simp: mc)
  have "ls_nodes st = []" using L by (auto simp: new_with_seed_def)
  then have "processes 0 (mc, w, s')" using assms(2) by (intro processesI [of _ "{}"]) (simp_all add: mc)
  from run_cluster_processes [OF this assms(3)] have ps: "processes (count_list rs startup_timed_out) (mc', w', s'')" by simp
  then show "map nd_api (ls_nodes (mc_state mc')) = map nh_child (mc_handles mc')" by (simp add: processes_def)
  obtain lost where "finite lost" "card lost = count_list rs startup_timed_out"
    "held (nw_log (cluster_drop nos (mc', w', s''))) = NodeProcess ` lost"
    using processes_stop [OF ps, of nos] unfolding processes_def by (auto simp: cluster_drop_def cluster_stop_all_def)
  moreover have "card (NodeProcess ` A) = card A" for A by (simp add: card_image inj_on_def)
  ultimately show "finite (held (nw_log (cluster_drop nos (mc', w', s''))))"
    "card (held (nw_log (cluster_drop nos (mc', w', s'')))) = count_list rs startup_timed_out" by simp_all
qed

theorem manual_cluster_releases_witness:
  "\<exists>mc s p. cluster_from_config demo_deps Map.empty (tb_config demo_builder) demo_os = (Some (Ok mc), s) \<and>
     run_cluster demo_deps demo_axum (demo_node_os (\<lambda>_. None) False) [ClusterStart [] start_node_options_default, ClusterStop]
       (mc, demo_node_world, s) = ([startup_timed_out], p) \<and>
     card (held (nw_log (cluster_drop (demo_node_os (\<lambda>_. None) False) p))) = 1"
proof -
  let ?nos = "demo_node_os (\<lambda>_. None) False" and ?ops = "[ClusterStart [] start_node_options_default, ClusterStop]"
  obtain t s where t: "build demo_deps Map.empty (topology_builder_new (tb_config demo_builder)) demo_os = (Ok t, s)"
    using build_is_ok [of demo_deps demo_os "topology_builder_new (tb_config demo_builder)" Map.empty]
    by (auto simp: vector_fits_def topology_builder_new_def)
  have "length (gt_nodes t) = 2" using t by (rule build_Ok) (simp add: topology_builder_new_def)
  then obtain n0 n1 where n: "gt_nodes t = [n0, n1]" by (auto simp: length_Suc_conv numeral_2_eq_2)
  obtain L st where L: "local_nodes_new t [] = Some (L, st)" by (auto simp: local_nodes_new_def new_with_seed_def n)
  then have st: "ls_node_count st = 0" "ls_peer_ports_by_name st = Map.empty" "ln_descriptors L = t"
    by (auto simp: local_nodes_new_def new_with_seed_def seed_default_def)
  let ?mc = "\<lparr>mc_nodes = L, mc_state = st, mc_handles = []\<rparr>"
  have mc: "cluster_from_config demo_deps Map.empty (tb_config demo_builder) demo_os = (Some (Ok ?mc), s)"
    using t L by (simp add: cluster_from_config_def del: demo_builder_sel)
  obtain tk where tk: "begin_start st [] = Ok tk" "tk_index tk = 0" using st by (auto simp: begin_start_def blank_def Let_def)
  obtain peers where "resolve_initial_peers (dp_net demo_deps) (tk_peer_ports_by_name tk) start_node_options_default
      (nc_initial_peers (gc_network_config (gn_general n0))) t (tk_peer_ports tk) = Ok peers"
    by (cases "nc_initial_peers (gc_network_config (gn_general n0)) = []") (simp_all add: resolve_initial_peers_def start_node_options_default_def)
  then obtain general port where b: "build_general_config_for demo_deps Map.empty L (tk_index tk) (tk_peer_ports_by_name tk)
      start_node_options_default (tk_peer_ports tk) s = (Ok (general, port), s)"
    using st n tk(2) by (simp add: build_general_config_for_def get_def Let_def bind_os_def return_os_def)
  let ?config = "create_node_config (dp_crypto demo_deps) demo_axum Map.empty general"
  obtain r w where sp: "node_spawn ?nos ?config (tk_node_name tk) demo_node_world = (r, w)"
    by (cases "node_spawn ?nos ?config (tk_node_name tk) demo_node_world")
  with demo_node_spawn(2) [OF sp] have "node_spawn ?nos ?config (tk_node_name tk) demo_node_world = (Inl SneReadiness, w)" by simp
  then obtain p where run: "run_cluster demo_deps demo_axum ?nos ?ops (?mc, demo_node_world, s) = ([startup_timed_out], p)"
    using tk(1) b by (simp add: cluster_start_node_with_def Let_def spawned_client_def spawn_and_register_node_def)
  obtain mc' w' s' where p: "p = (mc', w', s')" by (cases p) auto
  from manual_cluster_releases [OF mc _ run [unfolded p]] have "card (held (nw_log (cluster_drop ?nos p))) = 1"
    by (simp add: p demo_node_world_def)
  with mc run show ?thesis by blast
qed

end
