(* ===== verification/Spec2Isabelle.thy ===== *)
theory Spec2Isabelle
  imports Block_Feed Consensus_Liveness Run_Metrics Tx_Workload Chaos_Restart Scenario_Dsl Runner Cfgsync_Server K8s_Deploy Compose_Deploy Manual_Cluster
begin

text \<open>
  Verification of the Logos blockchain testing framework.

  \<^bold>\<open>The program.\<close>  The framework runs end-to-end tests against a network of blockchain nodes.  A test
  author describes a scenario with a builder: a topology, workloads, expectations and a duration.
  The topology builder turns the description into per-node configurations that agree on one genesis
  block.  A deployer (local processes, docker compose or kubernetes) starts the nodes; in containers
  each node fetches its configuration from the cfgsync server, which waits for all hosts before it
  answers.  Once the network is connected, the runner starts a block feed, runs the workloads
  against the nodes for the given time, evaluates the expectations and cleans up.  Sources are
  named relative to \<^verbatim>\<open>src/testing-framework/\<close>.

  \<^bold>\<open>Foundations.\<close>
  \<^item> \<open>Prelude\<close>: machine types, results and panics as values, and the parts of the standard library
    that several components use (decimal text, splitting, joining, searching).
  \<^item> \<open>Duration_F64\<close>: \<^verbatim>\<open>Duration\<close> as nanoseconds with its checked operations, and \<^verbatim>\<open>f64\<close> with infinities,
    not-a-number and correct rounding as a function of the exact result.
  \<^item> \<open>Os_State\<close>: free-port queries, random bytes and the clock as streams of answers, with the state
    and error monad of the code that consults them.
  \<^item> \<open>Ledger_Types\<close>: headers, notes, transactions and multiaddresses of the node's own crates.
  \<^item> \<open>State_Machine\<close>: the locales \<open>state_machine\<close> (an invariant carried by every admissible step) and
    \<open>log_machine\<close> (in addition a history that only grows), used by every component that runs in steps.

  \<^bold>\<open>Configuration\<close> (\<^verbatim>\<open>configs/src\<close>, \<^verbatim>\<open>env/src\<close>, \<^verbatim>\<open>core/src/topology\<close>).
  \<^item> \<open>Env_Timeouts\<close>: environment variables, timeouts, ports and the slow-test factor
    (\<^verbatim>\<open>env/src/lib.rs\<close>, \<^verbatim>\<open>timeouts.rs\<close>, \<^verbatim>\<open>constants.rs\<close>).  An override counts exactly when it is a
    decimal number that fits.
  \<^item> \<open>Wallet\<close> (\<^verbatim>\<open>wallet.rs\<close>): deterministic accounts and the uniform split of funds, which conserves the
    total and gives distinct keys.
  \<^item> \<open>Genesis\<close> (\<^verbatim>\<open>consensus.rs\<close>): the funded outputs, the genesis transaction with its service
    declarations and proofs, and the consensus configuration of each node.  All nodes share one
    genesis in which each finds the outputs it owns; proofs line up with operations.
  \<^item> \<open>Network_Layout\<close> (\<^verbatim>\<open>network.rs\<close>, \<^verbatim>\<open>find_expected_peer_counts\<close>): who dials whom, and that the computed
    peer counts are the degrees of the undirected graph of dial links.
  \<^item> \<open>Node_Configs\<close>, \<open>General_Config\<close> (\<^verbatim>\<open>blend.rs\<close>, \<^verbatim>\<open>api.rs\<close>, \<^verbatim>\<open>time.rs\<close>, \<^verbatim>\<open>tracing.rs\<close>, \<^verbatim>\<open>base.rs\<close>, \<^verbatim>\<open>runtime.rs\<close>,
    \<^verbatim>\<open>mod.rs\<close>): the remaining parts of a node's configuration and their assembly.  The locale
    \<open>provider_collector\<close> states what the three places that pair blend configurations with their notes
    have in common.
  \<^item> \<open>Topology\<close> (\<^verbatim>\<open>core/src/topology/config.rs\<close>, \<^verbatim>\<open>generation.rs\<close>, \<^verbatim>\<open>utils.rs\<close>): the topology builder; a build
    succeeds exactly for fitting inputs, and what it generates is consistent across nodes.
  \<^item> \<open>Node_Run_Config\<close> (\<^verbatim>\<open>configs/src/nodes\<close>): the settings a node process is started with.
  \<^item> \<open>Config_Tree\<close> (\<^verbatim>\<open>core/src/nodes/common/config/injection.rs\<close>): in-place adjustments of a serialized
    configuration, which never change an existing value, are idempotent and commute, and keep trees
    well-formed (no key twice in a mapping).

  \<^bold>\<open>Configuration server\<close> (\<^verbatim>\<open>tools/cfgsync_tf/src\<close>).
  \<^item> \<open>Net_Text\<close>: text of addresses, formatted and parsed back.
  \<^item> \<open>Cfgsync\<close>: from registered hosts to one configuration per host, with its errors.
  \<^item> \<open>Cfgsync_Repo\<close>: the barrier that collects hosts, as steps that interleave wherever its lock is free;
    every client is answered at most once, and a complete batch is answered at the next poll.
  \<^item> \<open>Cfgsync_Server\<close>: the request handler, what it changes in a served configuration, and the client.
    Every plain value of a served configuration is the serialized one unless it is overridden.

  \<^bold>\<open>Scenarios and their run\<close> (\<^verbatim>\<open>core/src/scenario\<close>, \<^verbatim>\<open>workflows/src\<close>).
  \<^item> \<open>Scenario\<close>, \<open>Scenario_Dsl\<close> (\<^verbatim>\<open>definition.rs\<close>, \<^verbatim>\<open>workflows/src/builder/mod.rs\<close>): the builder and its
    extensions; a scenario built through them has a usable topology, duration and workloads.
  \<^item> \<open>Readiness\<close> (\<^verbatim>\<open>core/src/topology/readiness\<close>, \<^verbatim>\<open>deployment.rs\<close>): polling until the network is connected.
    The locale \<open>readiness_check\<close> is the trait \<^verbatim>\<open>ReadinessCheck\<close>; its consequences hold for the topology
    check and for the manual cluster's check, which interpret it.
  \<^item> \<open>Block_Feed\<close> (\<^verbatim>\<open>runtime/block_feed.rs\<close>): the scanner that delivers every block once, parents first.
  \<^item> \<open>Runner\<close> (\<^verbatim>\<open>runtime/runner.rs\<close>, \<^verbatim>\<open>context.rs\<close>): the phases of a run, its timers and its verdict, and
    that clean-up happens exactly once on every path.
  \<^item> \<open>Run_Metrics\<close>: expected blocks of a run.  \<open>Consensus_Liveness\<close>, \<open>Tx_Workload\<close>, \<open>Chaos_Restart\<close>:
    the expectation on block heights, the transaction workload with its inclusion expectation, and
    the random restarts, which keep the configured distance.

  \<^bold>\<open>Deployers\<close> (\<^verbatim>\<open>core/src/nodes\<close>, \<^verbatim>\<open>core/src/scenario\<close>, \<^verbatim>\<open>deployers\<close>).
  \<^item> \<open>Deployment\<close> (\<^verbatim>\<open>runtime/deployer.rs\<close>, \<^verbatim>\<open>CleanupGuard\<close>): what a deployer promises.  Acquiring and
    releasing what lives outside the program (processes, containers, namespaces, tasks) is logged, and
    \<open>held\<close> is what a log leaves behind.  The locale \<open>deployer\<close> is the contract: a deployment that
    succeeds hands over a guard that releases everything, one that fails has released it, except for
    the errors the deployer names.  Its consequence for a \<open>session\<close> (deploy, run, drop) is proved once,
    over the phases of \<open>Runner\<close>; \<open>ends_in\<close> carries pre- and postconditions through the phases of a
    deployment.  The three deployers interpret the locale, and each names the errors that leak.
  \<^item> \<open>Http_Probe\<close>, \<open>Observability\<close> (\<^verbatim>\<open>http_probe.rs\<close>, \<^verbatim>\<open>node_clients.rs\<close>, \<^verbatim>\<open>observability.rs\<close>, \<^verbatim>\<open>metrics.rs\<close>): waiting
    for endpoints, and the telemetry settings.
  \<^item> \<open>Container_Hosts\<close> (\<^verbatim>\<open>cfgsync.rs\<close>): the settings of the cfgsync server, and the locale
    \<open>container_hosts\<close> of the environment a container announces itself with; kubernetes and compose
    interpret it, so the server generates for the hosts what the topology describes.
  \<^item> \<open>K8s_Wait\<close>, \<open>K8s_Assets\<close>, \<open>K8s_Deploy\<close> (\<^verbatim>\<open>deployers/k8s/src\<close>): waiting for the cluster without stray
    port forwards, chart values, helm commands, clean-up and the phases of a deployment.
  \<^item> \<open>Compose_Stack\<close>, \<open>Compose_Deploy\<close> (\<^verbatim>\<open>deployers/compose/src\<close>): docker commands and files, discovery of host
    ports, the cfgsync container, clean-up and the phases of a deployment.
  \<^item> \<open>Api_Client\<close> (\<^verbatim>\<open>nodes/api_client.rs\<close>): the requests a node is sent and how answers are read.
  \<^item> \<open>Node_Process\<close> (\<^verbatim>\<open>nodes/common\<close>, \<^verbatim>\<open>nodes/node.rs\<close>): binary, directory, configuration file, start, readiness
    and end of a node process, over a file system and a table of processes.
  \<^item> \<open>Local_Nodes\<close> (\<^verbatim>\<open>deployers/local/src/node_control\<close>): the bookkeeping of nodes started and stopped on
    demand.  \<open>Local_Deploy\<close> (\<^verbatim>\<open>runner.rs\<close>, \<^verbatim>\<open>core/src/topology/deployment.rs\<close>): a topology as processes and the
    local deployer.  \<open>Manual_Cluster\<close> (\<^verbatim>\<open>manual/mod.rs\<close>): the bookkeeping together with the processes, with
    a simulation of the former.

  \<^bold>\<open>Across components.\<close>  This theory relates the topology builder to the cfgsync server: the genesis that
  workloads take from the descriptors is the genesis of the containers.

  \<^bold>\<open>How the code is rendered.\<close>  A struct is a record, an enum a datatype, \<^verbatim>\<open>u8\<close> and \<^verbatim>\<open>u16\<close> are words, and
  \<^verbatim>\<open>usize\<close> and \<^verbatim>\<open>u64\<close> are natural numbers with their bounds written out where the code can reach them.
  A \<^verbatim>\<open>Result\<close> is a sum with the error on the left; code that can panic returns an option whose \<open>None\<close>
  is the panic.  A mutex-protected state is a record, and the sections between two acquisitions of
  the lock are single steps; what happens between them is an interleaving of steps.  Hash maps
  whose iteration order the code exposes take that order as an argument.  Answers of nodes and
  of docker, helm and kubernetes, decisions of the operating system, random draws, delays and the clock are inputs: streams, or
  components of the event that consumes them.

  Crates outside the repository are arguments: \<open>crypto\<close> (keys, hashes, signatures, genesis
  validation), \<open>net_lib\<close> and the multiaddress parser, \<open>trace_lib\<close>, \<open>http_lib\<close>, the HTTP backend defaults, the
  serializers and the template engine.  What a theorem needs of them, such as the injectivity of a key conversion on the
  inputs at hand, is one of its hypotheses, and its witness supplies a concrete function.

  \<^bold>\<open>Loops.\<close>  No definition uses fuel.  Loops over data are structural.  The backward walk of the block
  feed is bounded by the remaining height, retries by their attempt count, and the readiness loop by
  the time left before its limit, since every round takes at least one poll interval; so are the
  startup and exit loops of a node process and the waits of the deployers.  The HTTP probe, whose
  interval is an argument, is a partial function proved to return for every positive interval.  The
  endless loops (restarts, scanner, barrier) are step functions, and their properties hold after any
  number of steps.

  \<^bold>\<open>Not modelled.\<close>  What programs outside the repository do with a request is an input.  Logging, dumping
  logs of containers and printing endpoints have no effect on the modelled state.  A resource counts
  as released once its removal has been requested, since the code only logs removals that fail.
  Deprecated aliases of the builder, the examples, the empty cucumber steps, the uncompiled
  \<^verbatim>\<open>configs/deployment.rs\<close> and the transaction helper without callers are left out.
\<close>

section \<open>Descriptors and containers agree on the genesis\<close>

text \<open>
  Workloads take accounts and their notes from the genesis of the topology's descriptors, while nodes
  in containers are started with the genesis the cfgsync server generates again from the registered
  hosts.  What identifies a declaration apart from its address is the fingerprint the deployer's own
  tests compare.
\<close>

definition fingerprint :: "declaration_message \<Rightarrow> service_type \<times> ed_pk \<times> note_id \<times> zk_pk" where
  "fingerprint dm = (dm_service_type dm, dm_provider_id dm, dm_locked_note_id dm, dm_zk_id dm)"

definition declaration_fingerprint :: "mantle_tx \<Rightarrow> (service_type \<times> ed_pk \<times> note_id \<times> zk_pk) list" where
  "declaration_fingerprint mtx =
     List.map_filter (\<lambda>op. case op of SDPDeclare dm \<Rightarrow> Some (fingerprint dm) | _ \<Rightarrow> None) (mtx_ops mtx)"

lemma declared_fingerprint:
  assumes "genesis_wraps cr" "create_genesis_tx_with_declarations cr ltx ps = Ok g"
  shows "mtx_ledger_tx (cr_genesis_mantle_tx cr g) = ltx"
    "declaration_fingerprint (cr_genesis_mantle_tx cr g) = map (\<lambda>p. fingerprint (declaration_for cr (cr_ledger_hash cr ltx) p)) ps"
proof -
  have ops: "List.map_filter (\<lambda>op. case op of SDPDeclare dm \<Rightarrow> Some (fingerprint dm) | _ \<Rightarrow> None)
      (map (\<lambda>p. SDPDeclare (declaration_for cr h p)) ps) = map (\<lambda>p. fingerprint (declaration_for cr h p)) ps" for h
    by (induction ps) (simp_all add: List.map_filter_simps)
  show "mtx_ledger_tx (cr_genesis_mantle_tx cr g) = ltx"
    "declaration_fingerprint (cr_genesis_mantle_tx cr g) = map (\<lambda>p. fingerprint (declaration_for cr (cr_ledger_hash cr ltx) p)) ps"
    using assms by (auto elim!: create_genesis_tx_with_declarations_Ok
        simp: declaration_fingerprint_def build_genesis_ops_def List.map_filter_simps ops)
qed

text \<open>The fingerprints that the identifiers of the nodes determine.\<close>

definition expected_fingerprint :: "crypto \<Rightarrow> node_id list \<Rightarrow> wallet_config \<Rightarrow> (service_type \<times> ed_pk \<times> note_id \<times> zk_pk) list" where
  "expected_fingerprint cr ids wallet =
     (let h = cr_ledger_hash cr \<lparr>ltx_inputs = [], ltx_outputs = genesis_outputs cr ids wallet\<rparr> in
      map (\<lambda>i. fingerprint (declaration_for cr h (provider_of (blend_config_for cr (ids ! i) 0) (service_note_at cr prefix_bn (3 * i + 1) (ids ! i)))))
        [0..<length ids])"

lemma node_genesis_expected:
  assumes "genesis_wraps cr" "create_consensus_configs cr ids params wallet = Ok (first # rest)"
    and "create_genesis_tx_with_declarations cr (mtx_ledger_tx (cr_genesis_mantle_tx cr (gcc_genesis_tx first))) (map provider [0..<length ids]) = Ok g"
    and "\<And>i. i < length ids \<Longrightarrow>
      \<exists>port locator. provider i = (provider_of (blend_config_for cr (ids ! i) port) (gcc_blend_notes first ! i))\<lparr>pi_locator := locator\<rparr>"
  shows "mtx_ledger_tx (cr_genesis_mantle_tx cr g) = \<lparr>ltx_inputs = [], ltx_outputs = genesis_outputs cr ids wallet\<rparr>"
    "declaration_fingerprint (cr_genesis_mantle_tx cr g) = expected_fingerprint cr ids wallet"
proof -
  have outs: "mtx_ledger_tx (cr_genesis_mantle_tx cr (gcc_genesis_tx first)) = \<lparr>ltx_inputs = [], ltx_outputs = genesis_outputs cr ids wallet\<rparr>"
    by (rule consensus_genesis_outputs [OF assms(1,2)]) simp
  have own: "gcc_blend_notes first ! i = service_note_at cr prefix_bn (3 * i + 1) (ids ! i)" if "i < length ids" for i
    using assms(2)
  proof (rule create_consensus_configs_Ok)
    fix h l
    let ?config = "\<lambda>i. \<lparr>gcc_leader_pk = role_pk cr prefix_ld (ids ! i), gcc_leader_sk = role_key cr prefix_ld (ids ! i),
      gcc_ledger_config = l, gcc_genesis_tx = h, gcc_utxos = genesis_utxos cr ids wallet,
      gcc_blend_notes = map (\<lambda>i. service_note_at cr prefix_bn (3 * i + 1) (ids ! i)) [0..<length ids],
      gcc_wallet_accounts = wc_accounts wallet, gcc_funding_sk = role_key cr prefix_sdp (ids ! i)\<rparr>"
    assume "first # rest = map ?config [0..<length ids]"
    then have "first \<in> set (map ?config [0..<length ids])" by (metis list.set_intros(1))
    with that show ?thesis by auto
  qed
  show "mtx_ledger_tx (cr_genesis_mantle_tx cr g) = \<lparr>ltx_inputs = [], ltx_outputs = genesis_outputs cr ids wallet\<rparr>"
    using declared_fingerprint(1) [OF assms(1,3)] by (simp add: outs)
  show "declaration_fingerprint (cr_genesis_mantle_tx cr g) = expected_fingerprint cr ids wallet"
    unfolding declared_fingerprint(2) [OF assms(1,3)] expected_fingerprint_def Let_def outs map_map
  proof (rule map_cong [OF refl])
    fix i
    assume "i \<in> set [0..<length ids]"
    with assms(4) [of i] own [of i]
    show "((\<lambda>p. fingerprint (declaration_for cr (cr_ledger_hash cr \<lparr>ltx_inputs = [], ltx_outputs = genesis_outputs cr ids wallet\<rparr>) p)) \<circ> provider) i =
        fingerprint (declaration_for cr (cr_ledger_hash cr \<lparr>ltx_inputs = [], ltx_outputs = genesis_outputs cr ids wallet\<rparr>)
          (provider_of (blend_config_for cr (ids ! i) 0) (service_note_at cr prefix_bn (3 * i + 1) (ids ! i))))"
      by (auto simp: fingerprint_def declaration_for_def provider_of_def provider_id_def provider_zk_id_def blend_config_for_def Let_def)
  qed
qed

definition carries_genesis :: "crypto \<Rightarrow> node_id list \<Rightarrow> wallet_config \<Rightarrow> general_config \<Rightarrow> bool" where
  "carries_genesis cr ids wallet c \<longleftrightarrow>
     (let mtx = cr_genesis_mantle_tx cr (gcc_genesis_tx (gc_consensus_config c)) in
      mtx_ledger_tx mtx = \<lparr>ltx_inputs = [], ltx_outputs = genesis_outputs cr ids wallet\<rparr> \<and>
      declaration_fingerprint mtx = expected_fingerprint cr ids wallet)"

lemma topology_carries_genesis:
  assumes "genesis_wraps (dp_crypto d)" "build d ev b s = (Ok t, s')" "n \<in> set (gt_nodes t)"
  shows "carries_genesis (dp_crypto d) (map gn_id (gt_nodes t)) (tc_wallet_config (gt_config t)) (gn_general n)"
  using assms(2)
proof (rule build_Ok)
  fix ids ports and base :: base_configs and apis rest g and first :: general_consensus_config
  let ?cr = "dp_crypto d"
  assume ready: "parts_ready d ev b ids ports base apis" and f: "bs_consensus_configs base = first # rest"
    and g: "create_consensus_genesis_tx ?cr first
      (map (\<lambda>i. provider_of (bs_blend_configs base ! i) (gcc_blend_notes first ! i)) [0..<tc_n_nodes (tb_config b)]) = Ok g"
    and t: "t = \<lparr>gt_config = tb_config b, gt_nodes = map (node_at d ev b ids ports base apis s' g) [0..<tc_n_nodes (tb_config b)]\<rparr>"
  have len: "length ids = tc_n_nodes (tb_config b)" "length ports = length ids"
    and blends: "bs_blend_configs base = create_blend_configs ?cr ids ports"
    and cons: "create_consensus_configs ?cr ids (tc_consensus_params (tb_config b)) (tc_wallet_config (tb_config b)) = Ok (first # rest)"
    using ready f by (simp_all add: parts_ready_def Let_def)
  have ids: "map gn_id (gt_nodes t) = ids" by (rule nth_equalityI) (simp_all add: t node_at_def len)
  have gen: "gcc_genesis_tx (gc_consensus_config (gn_general n)) = g" using assms(3) by (auto simp: t node_at_def)
  have prov: "\<exists>port locator. provider_of (bs_blend_configs base ! i) (gcc_blend_notes first ! i) =
      (provider_of (blend_config_for ?cr (ids ! i) port) (gcc_blend_notes first ! i))\<lparr>pi_locator := locator\<rparr>" if "i < length ids" for i
    using that len by (intro exI [of _ "ports ! i"] exI [of _ "bc_listening_address (gb_backend_core (bs_blend_configs base ! i))"])
      (simp add: blends create_blend_configs_nth provider_of_def)
  have "create_genesis_tx_with_declarations ?cr (mtx_ledger_tx (cr_genesis_mantle_tx ?cr (gcc_genesis_tx first)))
      (map (\<lambda>i. provider_of (bs_blend_configs base ! i) (gcc_blend_notes first ! i)) [0..<length ids]) = Ok g"
    using g by (simp add: create_consensus_genesis_tx_def result_iffs len)
  from node_genesis_expected [OF assms(1) cons this prov] show ?thesis
    unfolding carries_genesis_def gen ids by (simp add: t)
qed

lemma served_carries_genesis:
  assumes "genesis_wraps (dp_crypto d)" "multiaddr_text (dp_net d)" "multiaddr_udp (dp_net d)"
    and "distinct hosts" "\<forall>h \<in> set hosts. length (h_ip h) = 4" "h \<in> set hosts"
    and "try_create_node_configs d ev clock params tracing wallet (Some ids) ports hosts s = (Ok m, s')"
  shows "\<exists>c. m h = Some c \<and> carries_genesis (dp_crypto d) ids wallet c"
  using assms(2-5,7)
proof (rule try_create_Ok)
  fix ids' s1 and base :: base_configs and first :: general_consensus_config and rest keys g
  let ?cr = "dp_crypto d" and ?hs = "sort_hosts hosts"
  let ?ports = "resolve_blend_ports ?hs ports" and ?bcs = "bs_blend_configs base"
  assume n: "length ids' = length hosts" "length ?ports = length ids'" and gen: "generate_ids (cp_n_participants params) (Some ids) s = (ids', s1)"
    and base: "build_base_configs d ev ids' params network_params_default wallet ?ports s1 = (Inr base, s')"
    and f: "bs_consensus_configs base = first # rest"
    and g: "create_genesis_tx_with_declarations ?cr (mtx_ledger_tx (cr_genesis_mantle_tx ?cr (gcc_genesis_tx first)))
       (map (host_provider ?hs (gcc_blend_notes first) ?bcs) [0..<length ids']) = Inr g"
    and m: "\<And>k. k < length hosts \<Longrightarrow> m (?hs ! k) = Some (host_config ev clock s' tracing
       (parts_for d ?hs ids' base g (map (nl_peer_id (dp_net d)) keys)) k (?hs ! k))"
  have ids: "ids' = ids" using gen by (simp add: generate_ids_def)
  note parts = build_base_configs_Ok [OF base, unfolded ids]
  have prov: "\<exists>port locator. host_provider ?hs (gcc_blend_notes first) ?bcs i =
      (provider_of (blend_config_for ?cr (ids ! i) port) (gcc_blend_notes first ! i))\<lparr>pi_locator := locator\<rparr>" if "i < length ids" for i
    using that n by (auto simp: host_provider_def parts(3) create_blend_configs_nth ids)
  from node_genesis_expected [OF assms(1) parts(1) [unfolded f] g [unfolded ids] prov]
  have carries: "carries_genesis ?cr ids wallet c" if "gcc_genesis_tx (gc_consensus_config c) = g" for c
    using that by (simp add: carries_genesis_def)
  have "set ?hs = set hosts" "length ?hs = length hosts" by (simp_all add: sort_hosts_def)
  with assms(6) obtain k where k: "k < length hosts" "h = ?hs ! k" by (metis in_set_conv_nth)
  have "length (bs_consensus_configs base) = length hosts" using parts(1) n ids by (elim create_consensus_configs_Ok) simp
  with m [OF k(1)] k show ?thesis by (auto simp: host_config_def parts_for_def intro!: carries)
qed

text \<open>
  Property C9.  The configurations the cfgsync server generates for the hosts of a built topology carry
  the topology's genesis: the ledger transaction is the one in every descriptor, so each note a
  workload takes from the descriptors exists on the containers' chain, and the declarations agree, in
  order, in service, provider, locked note and key.  Only the addresses may differ.  The server must
  be given the identifiers, consensus parameters and wallet of the topology, in whatever order the
  hosts registered and whichever ports and addresses they announced.
\<close>

theorem cfgsync_preserves_genesis:
  assumes "genesis_wraps (dp_crypto d)" "multiaddr_text (dp_net d)" "multiaddr_udp (dp_net d)"
    and "build d ev b s = (Ok t, s1)"
    and "distinct hosts" "\<forall>h \<in> set hosts. length (h_ip h) = 4"
    and "try_create_node_configs d ev' clock ((tc_consensus_params (gt_config t))\<lparr>cp_n_participants := length (gt_nodes t)\<rparr>) tracing
      (tc_wallet_config (gt_config t)) (Some (map gn_id (gt_nodes t))) ports hosts s2 = (Ok m, s3)"
  shows "\<forall>n \<in> set (gt_nodes t). \<forall>h \<in> set hosts. \<exists>c. m h = Some c \<and>
    (let mtx = cr_genesis_mantle_tx (dp_crypto d) (gcc_genesis_tx (gc_consensus_config (gn_general n)));
         mtx' = cr_genesis_mantle_tx (dp_crypto d) (gcc_genesis_tx (gc_consensus_config c)) in
     mtx_ledger_tx mtx' = mtx_ledger_tx mtx \<and> declaration_fingerprint mtx' = declaration_fingerprint mtx)"
proof (intro ballI)
  fix n h
  assume "n \<in> set (gt_nodes t)" "h \<in> set hosts"
  with topology_carries_genesis [OF assms(1,4)] served_carries_genesis [OF assms(1-3,5,6) _ assms(7)]
  show "\<exists>c. m h = Some c \<and>
    (let mtx = cr_genesis_mantle_tx (dp_crypto d) (gcc_genesis_tx (gc_consensus_config (gn_general n)));
         mtx' = cr_genesis_mantle_tx (dp_crypto d) (gcc_genesis_tx (gc_consensus_config c)) in
     mtx_ledger_tx mtx' = mtx_ledger_tx mtx \<and> declaration_fingerprint mtx' = declaration_fingerprint mtx)"
    unfolding carries_genesis_def Let_def by metis
qed

theorem cfgsync_preserves_genesis_witness:
  "\<exists>t s1 m s3 c. build cfgsync_deps Map.empty demo_builder demo_os = (Ok t, s1) \<and>
     try_create_node_configs cfgsync_deps Map.empty (\<lambda>i. 1000 + i) ((tc_consensus_params (gt_config t))\<lparr>cp_n_participants := length (gt_nodes t)\<rparr>)
       (tl_default (dp_trace demo_deps)) (tc_wallet_config (gt_config t)) (Some (map gn_id (gt_nodes t))) None demo_hosts demo_os = (Ok m, s3) \<and>
     m (demo_hosts ! 0) = Some c \<and>
     mtx_ledger_tx (cr_genesis_mantle_tx (dp_crypto cfgsync_deps) (gcc_genesis_tx (gc_consensus_config c))) =
       mtx_ledger_tx (cr_genesis_mantle_tx (dp_crypto cfgsync_deps) (gcc_genesis_tx (gc_consensus_config (gn_general (gt_nodes t ! 0)))))"
proof -
  obtain t s1 where t: "build cfgsync_deps Map.empty demo_builder demo_os = (Ok t, s1)"
    using build_is_ok [OF cfgsync_deps_laws(2) demo_os_ports, of demo_builder Map.empty] by (auto simp: vector_fits_def demo_ids_def)
  have len: "length (gt_nodes t) = 2" using t by (rule build_Ok) simp
  let ?params = "(tc_consensus_params (gt_config t))\<lparr>cp_n_participants := length (gt_nodes t)\<rparr>"
  have n: "length demo_hosts = cp_n_participants ?params" "0 < cp_n_participants ?params"
    "vector_fits (Some (map gn_id (gt_nodes t))) (cp_n_participants ?params)" "vector_fits None (cp_n_participants ?params)"
    using len by (simp_all add: demo_hosts_ok vector_fits_def)
  obtain m s3 where m: "try_create_node_configs cfgsync_deps Map.empty (\<lambda>i. 1000 + i) ?params (tl_default (dp_trace demo_deps))
      (tc_wallet_config (gt_config t)) (Some (map gn_id (gt_nodes t))) None demo_hosts demo_os = (Ok m, s3)"
    using cfgsync_succeeds [OF cfgsync_deps_laws(2-4) demo_os_ports demo_hosts_ok(1,2) n] by blast
  have "gt_nodes t ! 0 \<in> set (gt_nodes t)" "demo_hosts ! 0 \<in> set demo_hosts" using len by (auto simp: demo_hosts_ok)
  with cfgsync_preserves_genesis [OF cfgsync_deps_laws(1,3,4) t demo_hosts_ok(1,2) m] obtain c where "m (demo_hosts ! 0) = Some c"
    "mtx_ledger_tx (cr_genesis_mantle_tx (dp_crypto cfgsync_deps) (gcc_genesis_tx (gc_consensus_config c))) =
       mtx_ledger_tx (cr_genesis_mantle_tx (dp_crypto cfgsync_deps) (gcc_genesis_tx (gc_consensus_config (gn_general (gt_nodes t ! 0)))))"
    unfolding Let_def by blast
  with t m show ?thesis by blast
qed

end
